theory Spec2Isabelle
  imports Main "HOL-Library.Word"
begin

unbundle bit_operations_syntax

section \<open>Strings and \<open>size_t\<close> arithmetic used by the transfer slot\<close>

text \<open>
  \<open>std::string\<close> is a byte string, modelled as \<open>string\<close> (a \<open>char list\<close>).
  \<open>std::string::npos\<close> is \<open>None\<close>.
\<close>

text \<open>\<open>s.find(c, pos)\<close>: the index of the first occurrence of \<open>c\<close> at an index
  \<open>\<ge> pos\<close>, \<open>npos\<close> when there is none (also when \<open>pos\<close> is past the end).\<close>

definition str_find :: "string \<Rightarrow> char \<Rightarrow> nat \<Rightarrow> nat option" where
  "str_find s c pos = List.find (\<lambda>i. s ! i = c) [pos ..< length s]"

text \<open>\<open>s.insert(idx, t)\<close>, for \<open>idx \<le> s.size()\<close> (the only way \<open>toggleport\<close> calls it:
  \<open>idx\<close> comes from a successful \<open>find\<close>).\<close>

definition str_insert :: "string \<Rightarrow> nat \<Rightarrow> string \<Rightarrow> string" where
  "str_insert s idx t = take idx s @ t @ drop idx s"

text \<open>\<open>s.erase(pos, n)\<close>, for \<open>pos \<le> s.size()\<close>: removes \<open>min(n, size - pos)\<close> characters.\<close>

definition str_erase :: "string \<Rightarrow> nat \<Rightarrow> nat \<Rightarrow> string" where
  "str_erase s pos n = take pos s @ drop (pos + min n (length s - pos)) s"

text \<open>Subtraction of two \<open>size_t\<close> values (64 bits): it wraps around when the
  second is the larger one.\<close>

definition size_t_sub :: "nat \<Rightarrow> nat \<Rightarrow> nat" where
  "size_t_sub a b = (if b \<le> a then a - b else a + 2 ^ 64 - b)"

text \<open>\<open>!memcmp(s.c_str(), "http:", 5)\<close>: the first five bytes are \<open>http:\<close>; a shorter
  string differs at its terminating NUL at the latest.\<close>

definition is_http :: "string \<Rightarrow> bool" where
  "is_http s = (take 5 s = ''http:'')"

section \<open>\<open>TransferSlot::toggleport\<close>\<close>

text \<open>The function rewrites \<open>req->posturl\<close> in place; the model maps the old URL to the new one.\<close>

definition toggleport :: "string \<Rightarrow> string" where
  "toggleport posturl =
     (if is_http posturl then
        (let portendindex = str_find posturl (CHR ''/'') 8;
             portstartindex = str_find posturl (CHR '':'') 8
         in case portendindex of
              None \<Rightarrow> posturl
            | Some e \<Rightarrow>
                (case portstartindex of
                   None \<Rightarrow> str_insert posturl e '':8080''
                 | Some s \<Rightarrow> str_erase posturl s (size_t_sub e s)))
      else posturl)"

section \<open>The state of a transfer slot\<close>

type_synonym byte = "8 word"

datatype direction = GET | PUT

text \<open>The request states of \<open>reqstatus_t\<close> that the slot uses.\<close>

datatype reqstatus =
  REQ_READY | REQ_PREPARED | REQ_ENCRYPTING | REQ_DECRYPTING | REQ_DECRYPTED
  | REQ_INFLIGHT | REQ_SUCCESS | REQ_FAILURE | REQ_DONE | REQ_ASYNCIO

text \<open>
  The error codes that \<open>transferslot.cpp\<close> names. The enumeration itself is declared
  outside the files at hand; a numeric reply of the storage server becomes an error through
  the cast \<open>(error)atoi(...)\<close>, which is a parameter of the model (\<open>to_error\<close> below), and
  \<open>API_OTHER n\<close> stands for a code that has none of the names below.
\<close>

datatype error =
  API_OK | API_EINTERNAL | API_EAGAIN | API_EFAILED | API_EKEY | API_EOVERQUOTA
  | API_EREAD | API_EWRITE | DAEMON_EFAILED | API_OTHER int

text \<open>
  \<open>chunkmac_map\<close>: the ordered map from chunk offset to the chunk's MAC and its
  \<open>finished\<close> flag, as the list of its entries in offset order. \<open>size()\<close> is \<open>length\<close>,
  \<open>clear()\<close> leaves \<open>[]\<close>.
\<close>

type_synonym chunkmac_map = "(int \<times> byte list \<times> bool) list"

text \<open>The fields of \<open>HttpReqXfer\<close> (and of its upload and download variants) that the
  slot reads and writes; \<open>body_in\<close> is the response body \<open>in\<close>, \<open>req_size\<close> is \<open>size\<close>.\<close>

record req =
  status :: reqstatus
  httpstatus :: int
  contenttype :: string
  posturl :: string
  body_in :: string
  req_size :: int
  req_pos :: int
  timeleft :: int
  mChunkmacs :: chunkmac_map

text \<open>An \<open>AsyncIOContext\<close>.\<close>

record asyncio =
  finished :: bool
  failed :: bool
  retry :: bool
  aio_pos :: int
  aio_len :: int

text \<open>
  What the slot does to the outside, in the order in which it does it:
  \<open>transfer->complete\<close>, \<open>transfer->failed\<close> (with its optional backoff argument),
  \<open>client->sendevent\<close>, \<open>client->transfercacheadd\<close>, \<open>progress()\<close>,
  \<open>client->app->notify_change_to_https\<close>, \<open>client->app->transfer_failed\<close>,
  \<open>client->setchunkfailed\<close>, \<open>retrybt.backoff\<close>, \<open>retrybt.reset\<close>, a job pushed on
  \<open>client->mAsyncQueue\<close> to encrypt and prepare an upload chunk, and a new asynchronous
  write.
\<close>

datatype event =
  Complete
  | Failed error "nat option"
  | SendEvent nat
  | TransferCacheAdd
  | Progress
  | NotifyChangeToHttps
  | AppTransferFailed error
  | SetChunkFailed string
  | RetryBackoff nat
  | RetryReset
  | QueueEncrypt nat string int int
  | AsyncWrite nat int int

text \<open>
  The members of the transfer (\<open>xfer_type\<close> is \<open>transfer->type\<close>, \<open>xfer_size\<close> is
  \<open>transfer->size\<close>), of the slot, of its buffer manager (\<open>tempurls\<close> is
  \<open>transferbuf.tempUrlVector()\<close>, \<open>israid\<close> is \<open>transferbuf.isRaid()\<close>) and of the client
  that the modelled functions touch, the two locals \<open>backoff\<close> and \<open>p\<close> of \<open>doio\<close> (\<open>doio_backoff\<close>, \<open>doio_p\<close>), and
  the trace of outside calls. \<open>fa_open\<close> says that the file access \<open>fa\<close> is not null.
  \<open>asyncIO\<close> is \<open>None\<close> while the array is not allocated.
\<close>

record slot =
  xfer_type :: direction
  xfer_size :: int
  progresscompleted :: int
  chunkmacs :: chunkmac_map
  metamac :: "64 word"
  currentmetamac :: "64 word"
  hascurrentmetamac :: bool
  transferkey :: "byte list"
  ctriv :: "64 word"
  filekey :: "byte list"
  ultoken :: "byte list option"
  failcount :: nat
  connections :: nat
  reqs :: "req option list"
  asyncIO :: "asyncio option list option"
  errorcount :: nat
  lasterror :: error
  failure :: bool
  retrying :: bool
  progressreported :: int
  lastdata :: nat
  fa_open :: bool
  tempurls :: "string list"
  israid :: bool
  client_connections :: "direction \<Rightarrow> nat"
  usehttps :: bool
  usealtdownport :: bool
  usealtupport :: bool
  autodownport :: bool
  autoupport :: bool
  orderdownloadedchunks :: bool
  transferTempErrors :: nat
  doio_backoff :: nat
  doio_p :: int
  events :: "event list"

definition emit :: "event \<Rightarrow> slot \<Rightarrow> slot" where
  "emit e s = s\<lparr>events := events s @ [e]\<rparr>"

text \<open>
  The code outside the files at hand that the modelled functions call, and what the
  collaborators answer during the tick:
  \<^item> \<open>cm_macsmac key m\<close> and \<open>cm_macsmac_gaps key m g1 g2 g3 g4\<close> are
    \<open>chunkmac_map::macsmac\<close> and \<open>chunkmac_map::macsmac_gaps\<close> under the transfer's cipher
    (keyed with \<open>transferkey\<close>);
  \<^item> \<open>cm_finishedUploadChunks m other\<close> is the map \<open>m\<close> after
    \<open>m.finishedUploadChunks(other)\<close>;
  \<^item> \<open>atob body n\<close> is what \<open>Base64::atob\<close> decodes from \<open>body\<close> into a buffer of \<open>n\<close>
    bytes (its return value is the length);
  \<^item> \<open>to_error\<close> is the cast from the server's numeric reply to \<open>error\<close>;
  \<^item> \<open>to_dstime\<close> is the conversion to \<open>dstime\<close>;
  \<^item> \<open>DEFAULT_BW_OVERQUOTA_BACKOFF_SECS\<close> is the constant of \<open>MegaClient\<close>;
  \<^item> \<open>now\<close> is \<open>Waiter::ds\<close>;
  \<^item> \<open>raid_recovery i\<close> is the answer of \<open>transferbuf.tryRaidHttpGetErrorRecovery(i)\<close>;
  \<^item> \<open>tempURL i\<close> is \<open>transferbuf.tempURL(i)\<close>;
  \<^item> \<open>asyncavailable\<close>, \<open>fwrite_ok\<close> and \<open>fa_retry\<close> are \<open>fa->asyncavailable()\<close>, the
    result of \<open>fa->fwrite\<close> and \<open>fa->retry\<close> after it;
  \<^item> \<open>piece i\<close> is the position and the length of the output piece
    \<open>transferbuf.getAsyncOutputBufferPointer(i)\<close>;
  \<^item> \<open>write_completed i ok\<close> is the effect of \<open>transferbuf.bufferWriteCompleted(i, ok)\<close>
    on \<open>transfer->progresscompleted\<close> and \<open>transfer->chunkmacs\<close>.
\<close>

record collab =
  cm_macsmac :: "byte list \<Rightarrow> chunkmac_map \<Rightarrow> 64 word"
  cm_macsmac_gaps :: "byte list \<Rightarrow> chunkmac_map \<Rightarrow> nat \<Rightarrow> nat \<Rightarrow> nat \<Rightarrow> nat \<Rightarrow> 64 word"
  cm_finishedUploadChunks :: "chunkmac_map \<Rightarrow> chunkmac_map \<Rightarrow> chunkmac_map"
  atob :: "string \<Rightarrow> nat \<Rightarrow> byte list"
  to_error :: "int \<Rightarrow> error"
  to_dstime :: "int \<Rightarrow> nat"
  DEFAULT_BW_OVERQUOTA_BACKOFF_SECS :: int
  now :: nat
  raid_recovery :: "nat \<Rightarrow> bool"
  tempURL :: "nat \<Rightarrow> string"
  asyncavailable :: bool
  fwrite_ok :: bool
  fa_retry :: bool
  piece :: "nat \<Rightarrow> int \<times> int"
  write_completed :: "nat \<Rightarrow> bool \<Rightarrow> int \<times> chunkmac_map \<Rightarrow> int \<times> chunkmac_map"

text \<open>\<open>TransferSlot::macsmac\<close> and \<open>TransferSlot::macsmac_gaps\<close>.\<close>

definition macsmac :: "collab \<Rightarrow> slot \<Rightarrow> chunkmac_map \<Rightarrow> 64 word" where
  "macsmac c s m = cm_macsmac c (transferkey s) m"

definition macsmac_gaps :: "collab \<Rightarrow> slot \<Rightarrow> chunkmac_map \<Rightarrow> nat \<Rightarrow> nat \<Rightarrow> nat \<Rightarrow> nat \<Rightarrow> 64 word" where
  "macsmac_gaps c s m g1 g2 g3 g4 = cm_macsmac_gaps c (transferkey s) m g1 g2 g3 g4"

section \<open>\<open>TransferSlot::createconnectionsonce\<close>\<close>

text \<open>Modelled from the spec: the constant \<open>RAIDPARTS\<close> is declared outside the
  files at hand; the spec fixes the number of RAID parts, and of RAID connections, at six.\<close>

definition RAIDPARTS :: nat where
  "RAIDPARTS = 6"

text \<open>The result is the returned flag and the slot after the call. \<open>reqs.resize\<close> and the
  new \<open>asyncIO\<close> array give \<open>connections\<close> empty entries each.\<close>

definition createconnectionsonce :: "slot \<Rightarrow> bool \<times> slot" where
  "createconnectionsonce s =
     (if \<not> (connections s \<noteq> 0 \<or> length (reqs s) \<noteq> 0 \<or> asyncIO s \<noteq> None) then
        (if tempurls s = [] then (False, s)
         else
           (let c = (if israid s then RAIDPARTS
                     else if xfer_size s > 131072 then client_connections s (xfer_type s)
                     else 1)
            in (True, s\<lparr>connections := c,
                        reqs := reqs s @ replicate (c - length (reqs s)) None,
                        asyncIO := Some (replicate c None)\<rparr>)))
      else (True, s))"

text \<open>A client configured with four connections per transfer in either direction, and a
  fresh slot (as the constructor leaves it) of a non-RAID download of the given size whose
  temporary URL is known; they serve to evaluate the functions on concrete inputs.\<close>

definition four_connections :: "direction \<Rightarrow> nat" where
  "four_connections d = 4"

definition fresh_slot :: "int \<Rightarrow> slot" where
  "fresh_slot sz = \<lparr>xfer_type = GET, xfer_size = sz, progresscompleted = 0, chunkmacs = [],
     metamac = 0, currentmetamac = 0, hascurrentmetamac = False, transferkey = replicate 16 0,
     ctriv = 0, filekey = replicate 32 0, ultoken = None, failcount = 0,
     connections = 0, reqs = [], asyncIO = None, errorcount = 0, lasterror = API_OK,
     failure = False, retrying = False, progressreported = 0, lastdata = 0, fa_open = True,
     tempurls = [''https://gfs.example/dl/abc''], israid = False,
     client_connections = four_connections, usehttps = False, usealtdownport = False,
     usealtupport = False, autodownport = False, autoupport = False,
     orderdownloadedchunks = False, transferTempErrors = 0, doio_backoff = 0, doio_p = 0,
     events = []\<rparr>"

section \<open>\<open>TransferSlot::checkMetaMacWithMissingLateEntries\<close>\<close>

text \<open>
  The conversions of \<open>std::min<int>(32 * 3, end)\<close>: the \<open>size_t\<close> value \<open>end\<close> is narrowed
  to a 32-bit \<open>int\<close>, and the minimum goes back to \<open>size_t\<close> (64 bits).
\<close>

definition int_of_size_t :: "nat \<Rightarrow> int" where
  "int_of_size_t n = (let m = int (n mod 2 ^ 32) in if m < 2 ^ 31 then m else m - 2 ^ 32)"

definition size_t_of_int :: "int \<Rightarrow> nat" where
  "size_t_of_int i = nat (i mod 2 ^ 64)"

definition size_t_add :: "nat \<Rightarrow> nat \<Rightarrow> nat" where
  "size_t_add a b = (a + b) mod 2 ^ 64"

text \<open>
  The first pair of loops, as the list of the pairs \<open>(start1, len1)\<close> it tries, in the order
  in which it tries them. The inner loop runs while \<open>len1 <= 64 && start1 + len1 <= end\<close>.
\<close>

definition single_gaps :: "nat \<Rightarrow> (nat \<times> nat) list" where
  "single_gaps end =
     (let finalN = size_t_of_int (min (32 * 3) (int_of_size_t end))
      in concat (map (\<lambda>countBack.
           let start1 = size_t_sub end countBack
           in map (\<lambda>len1. (start1, len1))
                (takeWhile (\<lambda>len1. size_t_add start1 len1 \<le> end) [1 ..< 65]))
         [1 ..< Suc finalN]))"

text \<open>The four nested loops that follow, in the same way (\<open>size\<close> is
  \<open>transfer->chunkmacs.size()\<close>, which is \<open>end\<close> again).\<close>

definition double_gaps :: "nat \<Rightarrow> (nat \<times> nat \<times> nat \<times> nat) list" where
  "double_gaps end =
     (let finalN = size_t_of_int (min (16 * 2 + 8) (int_of_size_t end))
      in concat (map (\<lambda>start1.
           concat (map (\<lambda>len1.
             concat (map (\<lambda>start2.
               map (\<lambda>len2. (start1, len1, start2, len2))
                 (takeWhile (\<lambda>len2. size_t_add start2 len2 \<le> end) [1 ..< 17]))
             [size_t_add (size_t_add start1 len1) 1 ..< end]))
           (takeWhile (\<lambda>len1. size_t_add start1 len1 \<le> end) [1 ..< 17])))
         [size_t_sub end finalN ..< end]))"

text \<open>What both loops do at a match: the full MAC of \<open>chunkmacs\<close> replaces \<open>metamac\<close> and
  \<open>currentmetamac\<close> (\<open>updateMacInKey\<close> has an empty body: all of it is commented out).\<close>

definition adopt_correct_mac :: "collab \<Rightarrow> slot \<Rightarrow> slot" where
  "adopt_correct_mac c s =
     (let correctMac = macsmac c s (chunkmacs s)
      in s\<lparr>currentmetamac := correctMac, metamac := correctMac\<rparr>)"

definition checkMetaMacWithMissingLateEntries :: "collab \<Rightarrow> slot \<Rightarrow> bool \<times> slot" where
  "checkMetaMacWithMissingLateEntries c s =
     (let end = length (chunkmacs s)
      in if list_ex (\<lambda>(start1, len1).
              metamac s = macsmac_gaps c s (chunkmacs s) start1 (size_t_add start1 len1) end end)
            (single_gaps end)
         then (True, adopt_correct_mac c s)
         else if list_ex (\<lambda>(start1, len1, start2, len2).
              metamac s = macsmac_gaps c s (chunkmacs s) start1 (size_t_add start1 len1)
                            start2 (size_t_add start2 len2))
            (double_gaps end)
         then (True, adopt_correct_mac c s)
         else (False, s))"

section \<open>\<open>TransferSlot::checkDownloadTransferFinished\<close>\<close>

text \<open>The two branches under \<open>// verify meta MAC\<close>: the verified download is cached,
  its progress is reported when it has changed, and the transfer completes; the one that
  failed verification loses its chunk MACs and fails.\<close>

definition download_verified :: "collab \<Rightarrow> slot \<Rightarrow> slot" where
  "download_verified c s =
     (let s3 = emit TransferCacheAdd s;
          s4 = (if progresscompleted s3 \<noteq> progressreported s3
                then emit Progress
                       (s3\<lparr>progressreported := progresscompleted s3, lastdata := now c\<rparr>)
                else s3)
      in emit Complete s4)"

definition download_mac_failed :: "slot \<Rightarrow> slot" where
  "download_mac_failed s = emit (Failed API_EKEY None) ((emit (SendEvent 99431) s)\<lparr>chunkmacs := []\<rparr>)"

definition checkDownloadTransferFinished :: "collab \<Rightarrow> slot \<Rightarrow> bool \<times> slot" where
  "checkDownloadTransferFinished c s =
     (if progresscompleted s = xfer_size s then
        (let s1 = (if progresscompleted s \<noteq> 0
                   then s\<lparr>currentmetamac := macsmac c s (chunkmacs s), hascurrentmetamac := True\<rparr>
                   else s);
             (verified, s2) =
               (if xfer_size s1 = 0 \<or> currentmetamac s1 = metamac s1 then (True, s1)
                else checkMetaMacWithMissingLateEntries c s1)
         in if verified then (True, download_verified c s2)
            else (True, download_mac_failed s2))
      else (False, s))"

section \<open>The request handlers of \<open>TransferSlot::doio\<close>\<close>

text \<open>
  \<open>doio\<close> is modelled block by block. Each block maps the slot before it to the slot
  after it and says how control leaves the block: \<open>Returns\<close> when \<open>doio\<close> returns from
  inside the block, \<open>Restarts\<close> when the block ends in \<open>i = connections; continue\<close>,
  \<open>Continues\<close> when control goes on behind the block (a \<open>break\<close> out of the \<open>switch\<close>, or
  the end of the block).
\<close>

datatype ctl = Returns | Continues | Restarts

definition req_at :: "slot \<Rightarrow> nat \<Rightarrow> req option" where
  "req_at s j = (if j < length (reqs s) then reqs s ! j else None)"

definition set_req :: "nat \<Rightarrow> req \<Rightarrow> slot \<Rightarrow> slot" where
  "set_req i r s = s\<lparr>reqs := (reqs s)[i := Some r]\<rparr>"

definition aio_at :: "slot \<Rightarrow> nat \<Rightarrow> asyncio option" where
  "aio_at s j = (case asyncIO s of None \<Rightarrow> None | Some l \<Rightarrow> if j < length l then l ! j else None)"

definition set_aio :: "nat \<Rightarrow> asyncio option \<Rightarrow> slot \<Rightarrow> slot" where
  "set_aio i a s = s\<lparr>asyncIO := map_option (\<lambda>l. l[i := a]) (asyncIO s)\<rparr>"

text \<open>\<open>s.find(t) != string::npos\<close> for a string \<open>t\<close>.\<close>

definition str_contains :: "string \<Rightarrow> string \<Rightarrow> bool" where
  "str_contains s t =
     (length t \<le> length s \<and>
      list_ex (\<lambda>k. take (length t) (drop k s) = t) [0 ..< Suc (length s - length t)])"

text \<open>
  \<open>atoi\<close> of the C library on \<open>s.c_str()\<close>: the string up to its first NUL, leading white
  space skipped, an optional sign, then the decimal digits up to the first other character.
  (A value that does not fit an \<open>int\<close> is undefined behaviour in C; the model computes it.)
\<close>

definition c_str :: "string \<Rightarrow> string" where
  "c_str s = takeWhile (\<lambda>ch. ch \<noteq> CHR 0x00) s"

definition isspace :: "char \<Rightarrow> bool" where
  "isspace ch = (ch = CHR '' '' \<or> (9 \<le> (of_char ch :: nat) \<and> (of_char ch :: nat) \<le> 13))"

definition isdigit :: "char \<Rightarrow> bool" where
  "isdigit ch = (48 \<le> (of_char ch :: nat) \<and> (of_char ch :: nat) \<le> 57)"

definition digits_value :: "string \<Rightarrow> int" where
  "digits_value s = foldl (\<lambda>a ch. 10 * a + (int (of_char ch) - 48)) 0 (takeWhile isdigit s)"

definition atoi :: "string \<Rightarrow> int" where
  "atoi s =
     (case dropWhile isspace (c_str s) of
        [] \<Rightarrow> 0
      | ch # rest \<Rightarrow>
          if ch = CHR ''-'' then - digits_value rest
          else if ch = CHR ''+'' then digits_value rest
          else digits_value (ch # rest))"

text \<open>Modelled from the spec: the constants \<open>NewNode::UPLOADTOKENLEN\<close> and
  \<open>NewNode::OLDUPLOADTOKENLEN\<close> are declared outside the files at hand; the spec gives the
  upload token 36 bytes, or 27 bytes once decoded from base64 in the legacy form.\<close>

definition UPLOADTOKENLEN :: nat where
  "UPLOADTOKENLEN = 36"

definition OLDUPLOADTOKENLEN :: nat where
  "OLDUPLOADTOKENLEN = 27"

subsection \<open>The file key\<close>

text \<open>An \<open>int64_t\<close> in memory, least significant byte first (the byte order of the
  platforms the client is built for).\<close>

definition bytes_of_int64 :: "64 word \<Rightarrow> byte list" where
  "bytes_of_int64 w =
     [ucast w, ucast (drop_bit 8 w), ucast (drop_bit 16 w), ucast (drop_bit 24 w),
      ucast (drop_bit 32 w), ucast (drop_bit 40 w), ucast (drop_bit 48 w), ucast (drop_bit 56 w)]"

text \<open>Writing \<open>bs\<close> into a buffer at offset \<open>off\<close> (\<open>memcpy\<close>, or the store of an integer).\<close>

definition mem_write :: "byte list \<Rightarrow> nat \<Rightarrow> byte list \<Rightarrow> byte list" where
  "mem_write buf off bs = take off buf @ bs @ drop (off + length bs) buf"

text \<open>
  \<open>SymmCipher::xorblock(src, dst)\<close> XORs the 16-byte block at \<open>src\<close> into the block at
  \<open>dst\<close>. The function is defined outside the files at hand; which argument it writes is
  fixed here by the other place that calls it, \<open>updateMacInKey\<close> (its body is commented
  out): there the MAC is read in the clear at \<open>k2 + 8\<close> of the stored file key, and the
  write of the new MAC at \<open>k2 + 8\<close> stands between two calls \<open>xorblock(k2, k1)\<close>, which
  makes sense only if these calls change \<open>k1\<close> and leave \<open>k2\<close> as it is. The model gives
  the new content of the destination block.
\<close>

definition xorblock :: "byte list \<Rightarrow> byte list \<Rightarrow> byte list" where
  "xorblock src dst = map2 (XOR) (take 16 dst) (take 16 src)"

text \<open>Lines 666 to 669: the transfer key, \<open>ctriv\<close> in the third and the MAC of MACs in the
  fourth 64-bit lane, then \<open>xorblock(filekey + KEYLENGTH, filekey)\<close>.\<close>

definition make_filekey :: "collab \<Rightarrow> slot \<Rightarrow> byte list" where
  "make_filekey c s =
     (let k0 = mem_write (filekey s) 0 (take 16 (transferkey s));
          k1 = mem_write k0 16 (bytes_of_int64 (ctriv s));
          k2 = mem_write k1 24 (bytes_of_int64 (macsmac c s (chunkmacs s)))
      in mem_write k2 0 (xorblock (drop 16 k2) k2))"

subsection \<open>\<open>REQ_SUCCESS\<close> of an upload\<close>

text \<open>The states in which the loop over the other connections takes a request's chunk
  MACs along.\<close>

definition still_open :: "req \<Rightarrow> bool" where
  "still_open r = (status r = REQ_INFLIGHT \<or> status r = REQ_SUCCESS \<or> status r = REQ_FAILURE)"

text \<open>The loop \<open>for (int j = connections; j--; )\<close> of lines 647 to 658, over the list of
  the indices it visits.\<close>

fun include_others :: "collab \<Rightarrow> nat \<Rightarrow> nat list \<Rightarrow> slot \<Rightarrow> slot" where
  "include_others c i [] s = s"
| "include_others c i (j # js) s =
     include_others c i js
       (case req_at s j of
          None \<Rightarrow> s
        | Some rj \<Rightarrow>
            if j \<noteq> i \<and> still_open rj
            then s\<lparr>progresscompleted := progresscompleted s + req_size rj,
                   chunkmacs := cm_finishedUploadChunks c (chunkmacs s) (mChunkmacs rj)\<rparr>
            else s)"

text \<open>Lines 621 to 638 and 683 to 686: the token is taken from the body. The result is
  \<open>tokenOK\<close> and the slot with the new \<open>ultoken\<close>; a token that is not accepted leaves
  \<open>ultoken\<close> null.\<close>

definition receive_token :: "collab \<Rightarrow> req \<Rightarrow> slot \<Rightarrow> bool \<times> slot" where
  "receive_token c r s =
     (let buf = (case ultoken s of None \<Rightarrow> replicate UPLOADTOKENLEN 0 | Some b \<Rightarrow> b)
      in if body_in r ! (UPLOADTOKENLEN - 1) = CHR 0x01
         then (True, s\<lparr>ultoken := Some (map of_char (take UPLOADTOKENLEN (body_in r)))\<rparr>)
         else
           (let d = atob c (body_in r) UPLOADTOKENLEN
            in if length d = OLDUPLOADTOKENLEN
               then (True, s\<lparr>ultoken := Some (mem_write buf 0 d)\<rparr>)
               else (False, s\<lparr>ultoken := None\<rparr>)))"

text \<open>Lines 642 to 681: the upload is complete. (\<open>updatecontiguousprogress\<close> only moves
  \<open>progresscontiguous\<close>, which no modelled function reads; the \<open>assert\<close> that
  \<open>progresscompleted\<close> has reached \<open>size\<close> is compiled out of a release build.)\<close>

definition finish_upload :: "collab \<Rightarrow> nat \<Rightarrow> req \<Rightarrow> slot \<Rightarrow> ctl \<times> slot" where
  "finish_upload c i r s =
     (let s1 = s\<lparr>errorcount := 0, failcount := 0\<rparr>;
          s2 = include_others c i (rev [0 ..< connections s1]) s1;
          s3 = s2\<lparr>chunkmacs := cm_finishedUploadChunks c (chunkmacs s2) (mChunkmacs r),
                  progresscompleted := progresscompleted s2 + req_size r\<rparr>;
          s4 = s3\<lparr>filekey := make_filekey c s3\<rparr>;
          s5 = emit TransferCacheAdd s4;
          s6 = (if progresscompleted s5 \<noteq> progressreported s5
                then emit Progress
                       (s5\<lparr>progressreported := progresscompleted s5, lastdata := now c\<rparr>)
                else s5)
      in (Returns, emit Complete s6))"

text \<open>Lines 689 to 722: the body is an error number.\<close>

definition upload_error :: "collab \<Rightarrow> nat \<Rightarrow> req \<Rightarrow> slot \<Rightarrow> ctl \<times> slot" where
  "upload_error c i r s =
     (let e = to_error c (atoi (body_in r))
      in if e = API_EKEY then
           (Continues,
            set_req i (r\<lparr>status := REQ_PREPARED\<rparr>)
              ((emit (SendEvent 99429) s)\<lparr>lasterror := e, errorcount := errorcount s + 1\<rparr>))
         else if e = DAEMON_EFAILED \<or>
                 (str_contains (contenttype r) ''text/html'' \<and> is_http (posturl r)) then
           (let s1 = emit NotifyChangeToHttps (s\<lparr>usehttps := True\<rparr>);
                s2 = (if e = DAEMON_EFAILED then emit (SendEvent 99440) s1 else s1);
                s3 = emit (SendEvent 99436) s2
            in (Returns, emit (Failed API_EAGAIN None) s3))
         else (Returns, emit (Failed e None) s))"

text \<open>Lines 725 to 740: a chunk is uploaded and the body is empty.\<close>

definition chunk_uploaded :: "collab \<Rightarrow> nat \<Rightarrow> req \<Rightarrow> slot \<Rightarrow> ctl \<times> slot" where
  "chunk_uploaded c i r s =
     (let s1 = s\<lparr>chunkmacs := cm_finishedUploadChunks c (chunkmacs s) (mChunkmacs r),
                 progresscompleted := progresscompleted s + req_size r\<rparr>
      in if progresscompleted s1 = xfer_size s1
         then (Returns, emit (Failed API_EINTERNAL None) (emit (SendEvent 99409) s1))
         else (Continues,
               set_req i (r\<lparr>status := REQ_READY\<rparr>)
                 (emit TransferCacheAdd (s1\<lparr>errorcount := 0, failcount := 0\<rparr>))))"

text \<open>\<open>case REQ_SUCCESS\<close> for \<open>transfer->type == PUT\<close> (lines 599 to 741; the test of
  line 592 is false for an upload). The \<open>switch\<close> is entered with \<open>reqs[i]\<close> not null.
  (\<open>transfer->lastaccesstime\<close> is not part of the modelled state.)\<close>

definition put_success :: "collab \<Rightarrow> nat \<Rightarrow> slot \<Rightarrow> ctl \<times> slot" where
  "put_success c i s =
     (case req_at s i of
        None \<Rightarrow> (Continues, s)
      | Some r \<Rightarrow>
          (let s0 = s\<lparr>lastdata := now c\<rparr>
           in if body_in r \<noteq> [] then
                (let (tokenOK, s1) =
                       (if length (body_in r) = UPLOADTOKENLEN then receive_token c r s0
                        else (False, s0))
                 in if tokenOK then finish_upload c i r s1 else upload_error c i r s1)
              else chunk_uploaded c i r s0))"

subsection \<open>\<open>REQ_FAILURE\<close>\<close>

text \<open>\<open>TransferSlot::tryRaidRecoveryFromHttpGetError\<close>.\<close>

definition wake_done :: "req option \<Rightarrow> req option" where
  "wake_done ro =
     (case ro of
        None \<Rightarrow> None
      | Some r \<Rightarrow> if status r = REQ_DONE then Some (r\<lparr>status := REQ_READY\<rparr>) else Some r)"

definition tryRaidRecoveryFromHttpGetError :: "collab \<Rightarrow> nat \<Rightarrow> slot \<Rightarrow> bool \<times> slot" where
  "tryRaidRecoveryFromHttpGetError c connectionNum s =
     (if israid s then
        (if raid_recovery c connectionNum then
           (let s1 = (case req_at s connectionNum of
                        None \<Rightarrow> s
                      | Some r \<Rightarrow> set_req connectionNum (r\<lparr>status := REQ_READY\<rparr>) s)
            in (True, s1\<lparr>reqs := map wake_done (reqs s1)\<rparr>))
         else (False, s))
      else (False, s))"

text \<open>Lines 1027 to 1054: any other failure.\<close>

definition chunk_failed :: "collab \<Rightarrow> nat \<Rightarrow> req \<Rightarrow> slot \<Rightarrow> ctl \<times> slot" where
  "chunk_failed c i r s =
     (if \<not> failure s then
        (let s1 = s\<lparr>failure := True\<rparr>;
             (changeport, s2) =
               (if xfer_type s1 = GET \<and> autodownport s1 \<and> is_http (tempURL c i)
                then (True, s1\<lparr>usealtdownport := \<not> usealtdownport s1\<rparr>)
                else if xfer_type s1 = PUT \<and> autoupport s1 \<and> is_http (tempURL c i)
                then (True, s1\<lparr>usealtupport := \<not> usealtupport s1\<rparr>)
                else (False, s1));
             s3 = emit (SetChunkFailed (posturl r)) (emit (AppTransferFailed API_EFAILED) s2);
             s4 = s3\<lparr>transferTempErrors := transferTempErrors s3 + 1\<rparr>;
             r1 = (if changeport then r\<lparr>posturl := toggleport (posturl r)\<rparr> else r)
         in (Continues, set_req i (r1\<lparr>status := REQ_PREPARED\<rparr>) s4))
      else (Continues, set_req i (r\<lparr>status := REQ_PREPARED\<rparr>) s))"

text \<open>\<open>case REQ_FAILURE\<close> (lines 964 to 1055).\<close>

definition req_failure :: "collab \<Rightarrow> nat \<Rightarrow> slot \<Rightarrow> ctl \<times> slot" where
  "req_failure c i s =
     (case req_at s i of
        None \<Rightarrow> (Continues, s)
      | Some r \<Rightarrow>
          if httpstatus r \<noteq> 0 \<and> str_contains (contenttype r) ''text/html'' \<and> is_http (posturl r)
          then (Returns,
                emit (Failed API_EAGAIN None)
                  (emit (SendEvent 99436) (emit NotifyChangeToHttps (s\<lparr>usehttps := True\<rparr>))))
          else if httpstatus r = 509 then
            (let s1 = (if timeleft r < 0 then emit (SendEvent 99408) s else s);
                 b = (if timeleft r > 0 then to_dstime c (timeleft r * 10)
                      else to_dstime c (DEFAULT_BW_OVERQUOTA_BACKOFF_SECS c * 10))
             in (Returns, emit (Failed API_EOVERQUOTA (Some b)) (s1\<lparr>doio_backoff := b\<rparr>)))
          else if httpstatus r = 429 then
            (Continues, set_req i (r\<lparr>status := REQ_PREPARED\<rparr>) (s\<lparr>doio_backoff := 5\<rparr>))
          else if httpstatus r = 503 \<and> \<not> israid s then
            (Continues, set_req i (r\<lparr>status := REQ_PREPARED\<rparr>) (s\<lparr>doio_backoff := 50\<rparr>))
          else if httpstatus r = 403 \<or> httpstatus r = 404 \<or> (httpstatus r = 503 \<and> israid s) then
            (let (recovered, s1) = tryRaidRecoveryFromHttpGetError c i s
             in if \<not> recovered then (Returns, emit (Failed API_EAGAIN None) s1)
                else (Continues, s1))
          else if httpstatus r = 0 \<and> fst (tryRaidRecoveryFromHttpGetError c i s) then
            (Continues, snd (tryRaidRecoveryFromHttpGetError c i s))
          else chunk_failed c i r s)"

subsection \<open>\<open>REQ_DECRYPTED\<close> and \<open>REQ_ASYNCIO\<close>\<close>

text \<open>A chunk is durably written (\<open>transferbuf.bufferWriteCompleted(i, true)\<close>, then lines
  842 to 866, and the same at lines 907 to 919): the result is what
  \<open>checkDownloadTransferFinished\<close> returns and the slot after it.\<close>

definition buffer_write_completed :: "collab \<Rightarrow> nat \<Rightarrow> bool \<Rightarrow> slot \<Rightarrow> slot" where
  "buffer_write_completed c i ok s =
     (let (pc, cm) = write_completed c i ok (progresscompleted s, chunkmacs s)
      in s\<lparr>progresscompleted := pc, chunkmacs := cm\<rparr>)"

definition chunk_written :: "collab \<Rightarrow> nat \<Rightarrow> slot \<Rightarrow> bool \<times> slot" where
  "chunk_written c i s =
     checkDownloadTransferFinished c
       ((buffer_write_completed c i True s)\<lparr>errorcount := 0, failcount := 0\<rparr>)"

text \<open>\<open>case REQ_DECRYPTED\<close> (lines 814 to 868).\<close>

definition req_decrypted :: "collab \<Rightarrow> nat \<Rightarrow> slot \<Rightarrow> ctl \<times> slot" where
  "req_decrypted c i s =
     (case req_at s i of
        None \<Rightarrow> (Continues, s)
      | Some r \<Rightarrow>
          (let (pos, len) = piece c i
           in if asyncavailable c then
                (let s1 = (if aio_at s i \<noteq> None then set_aio i None s else s);
                     s2 = s1\<lparr>doio_p := doio_p s1 + len\<rparr>;
                     s3 = set_aio i (Some \<lparr>finished = False, failed = False, retry = False,
                                           aio_pos = pos, aio_len = len\<rparr>)
                            (emit (AsyncWrite i pos len) s2)
                 in (Continues, set_req i (r\<lparr>status := REQ_ASYNCIO\<rparr>) s3))
              else if fwrite_ok c then
                (let (fin, s1) = chunk_written c i s
                 in if fin then (Returns, s1)
                    else (Continues, set_req i (r\<lparr>status := REQ_READY\<rparr>) (emit TransferCacheAdd s1)))
              else if \<not> fa_retry c then
                (Returns, emit (Failed API_EWRITE None) (buffer_write_completed c i False s))
              else (Continues, s\<lparr>lasterror := API_EWRITE, doio_backoff := 2\<rparr>)))"

text \<open>The URL of lines 880 to 888: the alternative port is inserted into an \<open>http:\<close>
  URL without a port when the client uses the alternative upload port.\<close>

definition finaltempurl_up :: "collab \<Rightarrow> nat \<Rightarrow> slot \<Rightarrow> string" where
  "finaltempurl_up c i s =
     (let u = tempURL c i
      in if usealtupport s \<and> is_http u then
           (case str_find u (CHR ''/'') 8 of
              None \<Rightarrow> u
            | Some idx \<Rightarrow> if str_find u (CHR '':'') 8 = None then str_insert u idx '':8080'' else u)
         else u)"

text \<open>\<open>case REQ_ASYNCIO\<close> (lines 870 to 962).\<close>

definition req_asyncio :: "collab \<Rightarrow> nat \<Rightarrow> slot \<Rightarrow> ctl \<times> slot" where
  "req_asyncio c i s =
     (case (req_at s i, aio_at s i) of
        (Some r, Some a) \<Rightarrow>
          if finished a then
            (if \<not> failed a then
               (if xfer_type s = PUT then
                  (Continues,
                   set_aio i None
                     (emit (QueueEncrypt i (finaltempurl_up c i s) (aio_pos a) (aio_pos a + aio_len a))
                        (set_req i (r\<lparr>req_pos := aio_pos a, status := REQ_ENCRYPTING\<rparr>) s)))
                else
                  (let (fin, s1) = chunk_written c i s
                   in if fin then (Returns, s1)
                      else
                        (let s2 = set_req i (r\<lparr>status := REQ_READY\<rparr>) (emit TransferCacheAdd s1)
                         in if orderdownloadedchunks s2 \<and> \<not> israid s2
                            then (Restarts, set_aio i None s2)
                            else (Continues, set_aio i None s2))))
             else if \<not> retry a then
               (Returns,
                emit (Failed (if xfer_type s = PUT then API_EREAD else API_EWRITE) None)
                  (set_aio i None (buffer_write_completed c i False s)))
             else if xfer_type s = PUT then
               (Continues,
                (set_req i (r\<lparr>status := REQ_READY\<rparr>) s)\<lparr>lasterror := API_EREAD, doio_backoff := 2\<rparr>)
             else
               (Continues,
                (set_req i (r\<lparr>status := REQ_SUCCESS\<rparr>) s)\<lparr>lasterror := API_EWRITE, doio_backoff := 2\<rparr>))
          else if xfer_type s = GET then (Continues, s\<lparr>doio_p := doio_p s + aio_len a\<rparr>)
          else (Continues, s)
      | _ \<Rightarrow> (Continues, s))"

subsection \<open>The head of \<open>doio\<close>\<close>

text \<open>Lines 479 to 534, up to the loop over the connections. \<open>Continues\<close> says that the
  loop is reached. (\<open>transfer->state\<close> is not part of the modelled state.)\<close>

definition doio_head :: "collab \<Rightarrow> slot \<Rightarrow> ctl \<times> slot" where
  "doio_head c s =
     (if \<not> fa_open s \<or> (xfer_size s \<noteq> 0 \<and> progresscompleted s = xfer_size s) \<or>
         (xfer_type s = PUT \<and> ultoken s \<noteq> None) then
        (if xfer_type s = GET \<or> ultoken s \<noteq> None then
           (if fa_open s \<and> xfer_type s = GET then
              (let s1 = s\<lparr>currentmetamac := macsmac c s (chunkmacs s), hascurrentmetamac := True\<rparr>
               in if currentmetamac s1 = metamac s1 then (Returns, emit Complete s1)
                  else (Returns,
                        emit (Failed API_EKEY None) ((emit (SendEvent 99432) s1)\<lparr>chunkmacs := []\<rparr>)))
            else (Returns, emit Complete ((emit (RetryBackoff 2) s)\<lparr>retrying := True\<rparr>)))
         else (Returns, emit (Failed API_EINTERNAL None) (emit (SendEvent 99410) s)))
      else
        (let s1 = emit RetryReset (s\<lparr>retrying := False\<rparr>);
             (created, s2) = createconnectionsonce s1
         in if \<not> created then (Returns, s2)
            else
              (let s3 = s2\<lparr>doio_backoff := 0, doio_p := 0\<rparr>
               in if errorcount s3 > 4 then (Returns, emit (Failed (lasterror s3) None) s3)
                  else (Continues, s3))))"

section \<open>The requests whose chunk MACs an upload token takes along\<close>

text \<open>In the words of the spec: the other connections (not \<open>i\<close>) among \<open>js\<close> that have a
  request in state \<open>INFLIGHT\<close>, \<open>SUCCESS\<close> or \<open>FAILURE\<close>, in the order of \<open>js\<close>.\<close>

definition other_open_reqs :: "nat \<Rightarrow> slot \<Rightarrow> nat list \<Rightarrow> req list" where
  "other_open_reqs i s js =
     concat (map (\<lambda>j. case req_at s j of
                         None \<Rightarrow> []
                       | Some rj \<Rightarrow> if j \<noteq> i \<and> still_open rj then [rj] else []) js)"

text \<open>The body is accepted as an upload token: it has the length of a token, and either
  its last byte is 1 or it decodes from base64 to the length of an old token.\<close>

definition valid_token :: "collab \<Rightarrow> string \<Rightarrow> bool" where
  "valid_token c body =
     (length body = UPLOADTOKENLEN \<and>
      (body ! (UPLOADTOKENLEN - 1) = CHR 0x01 \<or> length (atob c body UPLOADTOKENLEN) = OLDUPLOADTOKENLEN))"

section \<open>\<open>LocalNode::serialize\<close> and \<open>LocalNode::unserialize\<close>\<close>

subsection \<open>The cacheable writer and reader\<close>

text \<open>
  Modelled from the spec: the classes \<open>CacheableWriter\<close> and \<open>CacheableReader\<close> are
  defined outside the files at hand; the two functions below only call them. The spec
  gives the record bit-exact as: \<open>size\<close> (i64), \<open>fsid\<close> (u64), parent dbid (u32), node
  handle (6 bytes), local name (string with a u16 length), for files the crc (16 bytes)
  and the mtime (varint64), \<open>syncable\<close> (u8), a one-byte expansion-flag header, and the
  optional short name (string). Integers are stored least significant byte first; the
  variable-length integer is the count of its significant bytes followed by these bytes.
  A writer function gives the bytes it appends; a reader function takes the bytes that are
  left and gives the field and the bytes left behind it, or \<open>None\<close> when it returns false.
\<close>

fun le_bytes :: "nat \<Rightarrow> nat \<Rightarrow> byte list" where
  "le_bytes 0 v = []"
| "le_bytes (Suc n) v = of_nat (v mod 256) # le_bytes n (v div 256)"

fun le_nat :: "byte list \<Rightarrow> nat" where
  "le_nat [] = 0"
| "le_nat (b # bs) = unat b + 256 * le_nat bs"

function sig_bytes :: "nat \<Rightarrow> byte list" where
  "sig_bytes v = (if v = 0 then [] else of_nat (v mod 256) # sig_bytes (v div 256))"
  by pat_completeness auto
termination
  by (relation "measure id") auto

declare sig_bytes.simps [simp del]

type_synonym 'a reader = "byte list \<Rightarrow> ('a \<times> byte list) option"

definition read_le :: "nat \<Rightarrow> nat reader" where
  "read_le n inp = (if length inp < n then None else Some (le_nat (take n inp), drop n inp))"

definition serializei64 :: "64 word \<Rightarrow> byte list" where
  "serializei64 v = le_bytes 8 (unat v)"

definition unserializei64 :: "64 word reader" where
  "unserializei64 inp = map_option (\<lambda>(v, rest). (of_nat v, rest)) (read_le 8 inp)"

definition serializehandle :: "64 word \<Rightarrow> byte list" where
  "serializehandle v = le_bytes 8 (unat v)"

definition unserializehandle :: "64 word reader" where
  "unserializehandle inp = map_option (\<lambda>(v, rest). (of_nat v, rest)) (read_le 8 inp)"

definition serializeu32 :: "32 word \<Rightarrow> byte list" where
  "serializeu32 v = le_bytes 4 (unat v)"

definition unserializeu32 :: "32 word reader" where
  "unserializeu32 inp = map_option (\<lambda>(v, rest). (of_nat v, rest)) (read_le 4 inp)"

text \<open>The node handle: the six low bytes of the eight-byte handle.\<close>

definition serializenodehandle :: "64 word \<Rightarrow> byte list" where
  "serializenodehandle v = le_bytes 6 (unat v)"

definition unserializenodehandle :: "64 word reader" where
  "unserializenodehandle inp = map_option (\<lambda>(v, rest). (of_nat v, rest)) (read_le 6 inp)"

text \<open>A string with its length in an \<open>unsigned short\<close> in front (a longer string is cut to
  the length that the two bytes can hold).\<close>

definition serializestring :: "byte list \<Rightarrow> byte list" where
  "serializestring str = (let ll = length str mod 65536 in le_bytes 2 ll @ take ll str)"

definition unserializestring :: "byte list reader" where
  "unserializestring inp =
     (case read_le 2 inp of
        None \<Rightarrow> None
      | Some (len, rest) \<Rightarrow> if length rest < len then None else Some (take len rest, drop len rest))"

text \<open>\<open>serializepstr\<close> writes a null pointer as the empty string; \<open>unserializecstr\<close> with
  \<open>removeNull = false\<close> reads a string as it is.\<close>

definition serializepstr :: "byte list option \<Rightarrow> byte list" where
  "serializepstr field =
     (case field of None \<Rightarrow> le_bytes 2 0 | Some str \<Rightarrow> serializestring str)"

definition unserializecstr :: "byte list reader" where
  "unserializecstr inp = unserializestring inp"

definition serializebinary :: "byte list \<Rightarrow> nat \<Rightarrow> byte list" where
  "serializebinary data len = take len data"

definition unserializebinary :: "nat \<Rightarrow> byte list reader" where
  "unserializebinary len inp = (if length inp < len then None else Some (take len inp, drop len inp))"

definition serializecompressed64 :: "64 word \<Rightarrow> byte list" where
  "serializecompressed64 v = of_nat (length (sig_bytes (unat v))) # sig_bytes (unat v)"

definition unserializecompressed64 :: "64 word reader" where
  "unserializecompressed64 inp =
     (case inp of
        [] \<Rightarrow> None
      | cnt # rest \<Rightarrow>
          if unat cnt > 8 \<or> unat cnt \<ge> length inp then None
          else Some (of_nat (le_nat (take (unat cnt) rest)), drop (unat cnt) rest))"

definition serializebyte :: "byte \<Rightarrow> byte list" where
  "serializebyte b = [b]"

definition unserializebyte :: "byte reader" where
  "unserializebyte inp = (case inp of [] \<Rightarrow> None | b # rest \<Rightarrow> Some (b, rest))"

text \<open>The expansion flags: one byte, of which the first flag is bit 0.\<close>

definition serializeexpansionflags :: "bool \<Rightarrow> byte list" where
  "serializeexpansionflags b0 = [if b0 then 1 else 0]"

definition unserializeexpansionflags :: "bool reader" where
  "unserializeexpansionflags inp = (case inp of [] \<Rightarrow> None | b # rest \<Rightarrow> Some (bit b 0, rest))"

subsection \<open>The local node\<close>

text \<open>The enumerators of \<open>nodetype_t\<close> that a local node can have, with the values of the
  enumeration (it is declared outside the files at hand): \<open>type ? -type : size\<close> tells a
  file, whose type is 0, from the other types.\<close>

definition FILENODE :: int where
  "FILENODE = 0"

definition FOLDERNODE :: int where
  "FOLDERNODE = 1"

text \<open>
  Modelled from the spec: the class \<open>NodeHandle\<close> is declared outside the files at hand.
  The spec gives the node handle six bytes, and a \<open>NodeHandle\<close> is modelled as these six
  bytes. \<open>as8byte\<close> is the handle in eight bytes; for the undefined handle, whose six bytes
  are all \<open>0xFF\<close>, it is \<open>UNDEF\<close>, the eight bytes \<open>0xFF\<close> (line 1952 compares the handle
  with \<open>UNDEF\<close>). \<open>set6byte\<close> takes the six low bytes of its argument.
\<close>

type_synonym NodeHandle = "48 word"

definition as8byte :: "NodeHandle \<Rightarrow> 64 word" where
  "as8byte n = (if n = - 1 then - 1 else ucast n)"

definition set6byte :: "64 word \<Rightarrow> NodeHandle" where
  "set6byte h = ucast h"

record FileFingerprint =
  fp_size :: "64 word"
  mtime :: "64 word"
  crc :: "byte list"
  isvalid :: bool

text \<open>
  The members of \<open>LocalNode\<close> that \<open>serialize\<close> reads. \<open>node_type\<close> is \<open>type\<close>, \<open>parent\<close>
  is the \<open>dbid\<close> of the parent when the parent pointer is not null, the two names are the
  platform encodings of \<open>localname\<close> and of \<open>slocalname\<close> (when that pointer is not null).
\<close>

record LocalNode =
  node_type :: int
  syncedFingerprint :: FileFingerprint
  scannedFingerprint :: FileFingerprint
  fsid_lastSynced :: "64 word"
  parent :: "32 word option"
  syncedCloudNodeHandle :: NodeHandle
  localname :: "byte list"
  slocalname :: "byte list option"
  mSyncable :: bool

text \<open>The size that \<open>serialize\<close> takes (lines 2357 and 2358).\<close>

definition stored_size :: "LocalNode \<Rightarrow> 64 word" where
  "stored_size l =
     (let size = (if isvalid (syncedFingerprint l) then fp_size (syncedFingerprint l)
                  else fp_size (scannedFingerprint l))
      in if size <s 0 then 0 else size)"

text \<open>\<open>LocalNode::serialize\<close> appends to \<open>*d\<close> and returns true; the model gives the bytes
  it appends. The blocks under \<open>#ifdef DEBUG\<close> and the two \<open>assert\<close>s (the type is known;
  a file has a valid synced or scanned fingerprint) write nothing.\<close>

definition serialize :: "LocalNode \<Rightarrow> byte list" where
  "serialize l =
     serializei64 (if node_type l \<noteq> 0 then word_of_int (- node_type l) else stored_size l) @
     serializehandle (fsid_lastSynced l) @
     serializeu32 (case parent l of None \<Rightarrow> 0 | Some dbid \<Rightarrow> dbid) @
     serializenodehandle (as8byte (syncedCloudNodeHandle l)) @
     serializestring (localname l) @
     (if node_type l = FILENODE then
        (if isvalid (syncedFingerprint l)
         then serializebinary (crc (syncedFingerprint l)) 16 @
              serializecompressed64 (mtime (syncedFingerprint l))
         else serializebinary (replicate 16 0) 16 @ serializecompressed64 0)
      else []) @
     serializebyte (if mSyncable l then 1 else 0) @
     serializeexpansionflags True @
     serializepstr (slocalname l)"

text \<open>The members that \<open>unserialize\<close> sets from the record.\<close>

record unserialized =
  u_type :: int
  u_size :: "64 word"
  u_parent_dbid :: "32 word"
  u_fsid :: "64 word"
  u_localname :: "byte list"
  u_slocalname :: "byte list option"
  u_slocalname_in_db :: bool
  u_crc :: "byte list"
  u_mtime :: "64 word"
  u_isvalid :: bool
  u_handle :: NodeHandle
  u_syncable :: bool

text \<open>What a call of \<open>unserialize\<close> comes to: it returns null, it stops at an \<open>assert\<close>
  (in a build that has them), or it returns a new node.\<close>

datatype unserialize_result = Null | AssertionFailed | Unserialized unserialized

text \<open>Lines 2437 to 2445: the fields behind the type and size, each read only if the
  ones before it were read. The result is the fields and the bytes that are left, or
  \<open>None\<close> when a field fails.\<close>

definition unserialize_fields ::
  "int \<Rightarrow> byte list \<Rightarrow>
   ((64 word \<times> 32 word \<times> 64 word \<times> byte list \<times> byte list \<times> 64 word \<times> byte \<times> bool \<times> byte list)
    \<times> byte list) option" where
  "unserialize_fields type r0 =
     (case unserializehandle r0 of None \<Rightarrow> None | Some (fsid, r1) \<Rightarrow>
      case unserializeu32 r1 of None \<Rightarrow> None | Some (parent_dbid, r2) \<Rightarrow>
      case unserializenodehandle r2 of None \<Rightarrow> None | Some (h, r3) \<Rightarrow>
      case unserializestring r3 of None \<Rightarrow> None | Some (name, r4) \<Rightarrow>
      case (if type = FILENODE then unserializebinary 16 r4 else Some (replicate 16 0, r4)) of
        None \<Rightarrow> None | Some (crcbytes, r5) \<Rightarrow>
      case (if type = FILENODE then unserializecompressed64 r5 else Some (0, r5)) of
        None \<Rightarrow> None | Some (mt, r6) \<Rightarrow>
      case (if r6 \<noteq> [] then unserializebyte r6 else Some (1, r6)) of
        None \<Rightarrow> None | Some (syncable, r7) \<Rightarrow>
      case (if r7 \<noteq> [] then unserializeexpansionflags r7 else Some (False, r7)) of
        None \<Rightarrow> None | Some (flag0, r8) \<Rightarrow>
      case (if flag0 then unserializecstr r8 else Some ([], r8)) of
        None \<Rightarrow> None | Some (shortname, r9) \<Rightarrow>
      Some ((fsid, parent_dbid, h, name, crcbytes, mt, syncable, flag0, shortname), r9))"

text \<open>\<open>LocalNode::unserialize\<close>. \<open>asserts\<close> says that the build has its \<open>assert\<close>s (it
  is false for a release build, where they are compiled out). \<open>set6byte\<close> keeps the six
  low bytes that were read.\<close>

definition unserialize :: "bool \<Rightarrow> byte list \<Rightarrow> unserialize_result" where
  "unserialize asserts d =
     (if length d < 8 + 8 + 4 + 6 + 2 then Null
      else
        case unserializei64 d of
          None \<Rightarrow> Null
        | Some (size0, r0) \<Rightarrow>
            (let folder = (size0 <s 0 \<and> sint size0 \<ge> - FOLDERNODE);
                 type = (if folder then - sint size0 else FILENODE);
                 size = (if folder then 0 else size0)
             in case unserialize_fields type r0 of
                  None \<Rightarrow> if asserts then AssertionFailed else Null
                | Some ((fsid, parent_dbid, h, name, crcbytes, mt, syncable, flag0, shortname), rest) \<Rightarrow>
                    if asserts \<and> rest \<noteq> [] then AssertionFailed
                    else Unserialized
                      \<lparr>u_type = type, u_size = size, u_parent_dbid = parent_dbid, u_fsid = fsid,
                       u_localname = name,
                       u_slocalname = (if shortname = [] then None else Some shortname),
                       u_slocalname_in_db = flag0, u_crc = crcbytes, u_mtime = mt,
                       u_isvalid = (mt \<noteq> 0), u_handle = set6byte h,
                       u_syncable = (syncable = 1)\<rparr>))"

text \<open>
  A record is valid when it is one that \<open>serialize\<close> stores in full: the node is a file
  or a folder; a file has a valid synced fingerprint, whose size is not negative; a folder
  carries no fingerprint, as a folder that \<open>unserialize\<close> returns (lines 2416 to 2420, 2456
  and 2469 to 2471): not valid, size, crc and mtime zero; the crc has its 16 bytes; each name
  fits the two bytes of its length, and a short name that is present is not empty (as the
  check of \<open>serialize\<close> under \<open>#ifdef DEBUG\<close> has it). Every node handle is allowed, the
  undefined one too.
\<close>

definition blank_fingerprint :: "FileFingerprint \<Rightarrow> bool" where
  "blank_fingerprint f = (\<not> isvalid f \<and> crc f = replicate 16 0 \<and> mtime f = 0)"

definition valid_LocalNode :: "LocalNode \<Rightarrow> bool" where
  "valid_LocalNode l =
     ((node_type l = FILENODE \<or> node_type l = FOLDERNODE) \<and>
      (node_type l = FILENODE \<longrightarrow>
         isvalid (syncedFingerprint l) \<and> \<not> fp_size (syncedFingerprint l) <s 0) \<and>
      (node_type l = FOLDERNODE \<longrightarrow>
         blank_fingerprint (syncedFingerprint l) \<and> fp_size (syncedFingerprint l) = 0) \<and>
      length (crc (syncedFingerprint l)) = 16 \<and>
      length (localname l) < 65536 \<and>
      (case slocalname l of None \<Rightarrow> True | Some sn \<Rightarrow> sn \<noteq> [] \<and> length sn < 65536))"

text \<open>The fields of the record, in the members that \<open>unserialize\<close> sets: the size, the
  crc and the mtime are those of the synced fingerprint.\<close>

definition record_fields :: "LocalNode \<Rightarrow> unserialized" where
  "record_fields l =
     \<lparr>u_type = node_type l, u_size = fp_size (syncedFingerprint l),
      u_parent_dbid = (case parent l of None \<Rightarrow> 0 | Some dbid \<Rightarrow> dbid),
      u_fsid = fsid_lastSynced l, u_localname = localname l, u_slocalname = slocalname l,
      u_slocalname_in_db = True, u_crc = crc (syncedFingerprint l),
      u_mtime = mtime (syncedFingerprint l), u_isvalid = (mtime (syncedFingerprint l) \<noteq> 0),
      u_handle = syncedCloudNodeHandle l, u_syncable = mSyncable l\<rparr>"


definition folder_node :: LocalNode where
  "folder_node = \<lparr>node_type = 1,
     syncedFingerprint = \<lparr>fp_size = 0, mtime = 0, crc = replicate 16 0, isvalid = False\<rparr>,
     scannedFingerprint = \<lparr>fp_size = - 1, mtime = 0, crc = replicate 16 0, isvalid = False\<rparr>,
     fsid_lastSynced = 8, parent = None, syncedCloudNodeHandle = 0x010203040506,
     localname = [0x64, 0x6F, 0x63, 0x73], slocalname = None, mSyncable = True\<rparr>"


section \<open>Reading the trace\<close>

text \<open>The calls that end a transfer on this slot are \<open>transfer->complete\<close> and
  \<open>transfer->failed\<close>.\<close>

fun is_final :: "event \<Rightarrow> bool" where
  "is_final Complete = True"
| "is_final (Failed e b) = True"
| "is_final x = False"

definition new_events :: "slot \<Rightarrow> slot \<Rightarrow> event list" where
  "new_events s s' = drop (length (events s)) (events s')"

text \<open>\<open>ends_with s s' e\<close>: between \<open>s\<close> and \<open>s'\<close> the trace has grown, its last new entry is
  \<open>e\<close>, and no earlier new entry completes or fails the transfer.\<close>

definition ends_with :: "slot \<Rightarrow> slot \<Rightarrow> event \<Rightarrow> bool" where
  "ends_with s s' e =
     (let n = new_events s s'
      in events s' = events s @ n \<and> n \<noteq> [] \<and> last n = e \<and> list_all (\<lambda>x. \<not> is_final x) (butlast n))"

section \<open>A stand-in for the collaborators\<close>

text \<open>
  To evaluate the model on concrete inputs the collaborators need values. \<open>toy_collab\<close>
  is a stand-in with the shape the spec gives to the MAC of MACs (start from zero; for each
  entry in offset order that is not in a gap, XOR the chunk's MAC into the accumulator and
  encrypt the accumulator), over a 64-bit accumulator and with \<open>x \<mapsto> 5 * x + 1\<close> in the
  place of the cipher. No property below depends on it: the theorems hold for every
  \<open>collab\<close>.
\<close>

definition toy_mac_step :: "nat \<Rightarrow> nat \<Rightarrow> nat \<Rightarrow> nat \<Rightarrow> nat \<times> (int \<times> byte list \<times> bool) \<Rightarrow> 64 word \<Rightarrow> 64 word" where
  "toy_mac_step g1 g2 g3 g4 e acc =
     (if (g1 \<le> fst e \<and> fst e < g2) \<or> (g3 \<le> fst e \<and> fst e < g4) then acc
      else 5 * (acc XOR ucast (hd (fst (snd (snd e)) @ [0]))) + 1)"

definition toy_macsmac_gaps :: "byte list \<Rightarrow> chunkmac_map \<Rightarrow> nat \<Rightarrow> nat \<Rightarrow> nat \<Rightarrow> nat \<Rightarrow> 64 word" where
  "toy_macsmac_gaps key m g1 g2 g3 g4 = fold (toy_mac_step g1 g2 g3 g4) (enumerate 0 m) 0"

definition toy_macsmac :: "byte list \<Rightarrow> chunkmac_map \<Rightarrow> 64 word" where
  "toy_macsmac key m = toy_macsmac_gaps key m (length m) (length m) (length m) (length m)"

text \<open>The numeric replies of the storage server that the stand-in knows: \<open>-4\<close> is the
  code of which the code's own comment says that megad returns it (\<open>DAEMON_EFAILED\<close>);
  \<open>-3\<close> and \<open>-14\<close> are the public API numbers of \<open>EAGAIN\<close> and \<open>EKEY\<close>.\<close>

definition toy_to_error :: "int \<Rightarrow> error" where
  "toy_to_error n =
     (if n = 0 then API_OK else if n = - 3 then API_EAGAIN else if n = - 4 then DAEMON_EFAILED
      else if n = - 14 then API_EKEY else API_OTHER n)"

definition toy_write_completed :: "nat \<Rightarrow> bool \<Rightarrow> int \<times> chunkmac_map \<Rightarrow> int \<times> chunkmac_map" where
  "toy_write_completed i ok pc = pc"

definition toy_piece :: "nat \<Rightarrow> int \<times> int" where
  "toy_piece i = (0, 16)"

definition toy_tempURL :: "nat \<Rightarrow> string" where
  "toy_tempURL i = ''https://gfs.example/dl/abc''"

definition toy_atob :: "string \<Rightarrow> nat \<Rightarrow> byte list" where
  "toy_atob body n = []"

definition toy_raid_recovery :: "nat \<Rightarrow> bool" where
  "toy_raid_recovery i = False"

definition toy_to_dstime :: "int \<Rightarrow> nat" where
  "toy_to_dstime x = nat (x mod 2 ^ 32)"

definition toy_finishedUploadChunks :: "chunkmac_map \<Rightarrow> chunkmac_map \<Rightarrow> chunkmac_map" where
  "toy_finishedUploadChunks m other = m @ other"

definition toy_collab :: collab where
  "toy_collab = \<lparr>cm_macsmac = toy_macsmac, cm_macsmac_gaps = toy_macsmac_gaps,
     cm_finishedUploadChunks = toy_finishedUploadChunks, atob = toy_atob,
     to_error = toy_to_error, to_dstime = toy_to_dstime,
     DEFAULT_BW_OVERQUOTA_BACKOFF_SECS = 3600, now = 1000,
     raid_recovery = toy_raid_recovery, tempURL = toy_tempURL,
     asyncavailable = False, fwrite_ok = True, fa_retry = False,
     piece = toy_piece, write_completed = toy_write_completed\<rparr>"

text \<open>A finished download of three chunks whose \<open>metamac\<close> is the MAC of the first and the
  third chunk MAC only (the second one is the gap): \<open>5 * (0 XOR 1) + 1 = 6\<close>, then
  \<open>5 * (6 XOR 3) + 1 = 26\<close>. The full MAC of MACs is \<open>111\<close>.\<close>

definition gap_slot :: slot where
  "gap_slot = (fresh_slot 786432)\<lparr>progresscompleted := 786432,
     chunkmacs := [(0, [1], True), (131072, [2], True), (393216, [3], True)],
     metamac := 26\<rparr>"

text \<open>A finished download of one chunk whose \<open>metamac\<close> is neither the MAC of its chunk MAC
  (which is \<open>6\<close>) nor the MAC of nothing (which is \<open>0\<close>).\<close>

definition bad_slot :: slot where
  "bad_slot = (fresh_slot 131072)\<lparr>progresscompleted := 131072,
     chunkmacs := [(0, [1], True)], metamac := 7\<rparr>"

section \<open>An upload with a late connection\<close>

text \<open>
  The second scenario of the spec in small: an upload of 150 bytes over two connections.
  Connection 0 has sent the first 100 bytes and is still \<open>INFLIGHT\<close> at this end;
  connection 1 has sent the last 50 bytes and its reply, in state \<open>SUCCESS\<close>, carries the
  body given. \<open>token36\<close> is a new-style upload token (36 bytes, the last one is 1).
\<close>

definition token36 :: string where
  "token36 = replicate 35 (CHR ''a'') @ [CHR 0x01]"

definition early_req :: req where
  "early_req = \<lparr>status = REQ_INFLIGHT, httpstatus = 0, contenttype = [],
     posturl = ''https://gfs.example/ul/abc/0'', body_in = [], req_size = 100, req_pos = 0,
     timeleft = 0, mChunkmacs = [(0, [9], True)]\<rparr>"

definition late_req :: "string \<Rightarrow> req" where
  "late_req body = \<lparr>status = REQ_SUCCESS, httpstatus = 200, contenttype = ''application/octet-stream'',
     posturl = ''https://gfs.example/ul/abc/100'', body_in = body, req_size = 50, req_pos = 100,
     timeleft = 0, mChunkmacs = [(100, [7], True)]\<rparr>"

definition put_slot :: "string \<Rightarrow> slot" where
  "put_slot body = (fresh_slot 150)\<lparr>xfer_type := PUT, connections := 2,
     reqs := [Some early_req, Some (late_req body)], asyncIO := Some [None, None],
     transferkey := [1, 2, 3, 4, 5, 6, 7, 8, 9, 10, 11, 12, 13, 14, 15, 16],
     ctriv := 0x0807060504030201\<rparr>"

section \<open>A download with a failed request\<close>

text \<open>A non-RAID download over one connection whose request has failed with the given
  HTTP status, content type and \<open>timeleft\<close>, on an \<open>http:\<close> URL.\<close>

definition failed_req :: "int \<Rightarrow> string \<Rightarrow> int \<Rightarrow> req" where
  "failed_req st ct left = \<lparr>status = REQ_FAILURE, httpstatus = st, contenttype = ct,
     posturl = ''http://gfs.example/dl/abc/0-1023'', body_in = [], req_size = 1024, req_pos = 0,
     timeleft = left, mChunkmacs = []\<rparr>"

definition get_slot :: "req \<Rightarrow> slot" where
  "get_slot r = (fresh_slot 1024)\<lparr>connections := 1, reqs := [Some r], asyncIO := Some [None]\<rparr>"

section \<open>Slots with five errors\<close>

text \<open>A slot in the middle of a download that has counted five errors, the last one a
  read error.\<close>

definition tired_slot :: slot where
  "tired_slot = (get_slot (failed_req 0 [] 0))\<lparr>errorcount := 5, lasterror := API_EREAD\<rparr>"

text \<open>A slot whose only request has its chunk decrypted and ready to be written, after
  three errors.\<close>

definition writing_slot :: slot where
  "writing_slot = (get_slot ((failed_req 200 [] 0)\<lparr>status := REQ_DECRYPTED\<rparr>))\<lparr>errorcount := 3\<rparr>"

text \<open>The same slot once the asynchronous write of the chunk has finished without
  failure.\<close>

definition written_slot :: slot where
  "written_slot = (get_slot ((failed_req 200 [] 0)\<lparr>status := REQ_ASYNCIO\<rparr>))
     \<lparr>errorcount := 3,
      asyncIO := Some [Some \<lparr>finished = True, failed = False, retry = False,
                              aio_pos = 0, aio_len = 1024\<rparr>]\<rparr>"

section \<open>Properties\<close>

subsection \<open>Helper facts on \<open>find\<close>\<close>

lemma find_upt_Some:
  "List.find P [a ..< b] = Some i \<longleftrightarrow> a \<le> i \<and> i < b \<and> P i \<and> (\<forall>j. a \<le> j \<and> j < i \<longrightarrow> \<not> P j)"
proof -
  have "List.find P [a ..< b] = Some i \<longleftrightarrow>
        (\<exists>k < length [a ..< b]. P ([a ..< b] ! k) \<and> i = [a ..< b] ! k \<and> (\<forall>j < k. \<not> P ([a ..< b] ! j)))"
    by (simp add: find_Some_iff)
  also have "\<dots> \<longleftrightarrow> a \<le> i \<and> i < b \<and> P i \<and> (\<forall>j. a \<le> j \<and> j < i \<longrightarrow> \<not> P j)"
  proof
    assume "\<exists>k < length [a ..< b]. P ([a ..< b] ! k) \<and> i = [a ..< b] ! k \<and> (\<forall>j < k. \<not> P ([a ..< b] ! j))"
    then obtain k where k: "k < b - a" "P (a + k)" "i = a + k" "\<forall>j < k. \<not> P ([a ..< b] ! j)"
      by auto
    have "\<not> P j" if "a \<le> j" "j < i" for j
    proof -
      from that k have "j - a < k" by arith
      with k(4) have "\<not> P ([a ..< b] ! (j - a))" by blast
      moreover from that k have "[a ..< b] ! (j - a) = j" by simp
      ultimately show ?thesis by simp
    qed
    with k show "a \<le> i \<and> i < b \<and> P i \<and> (\<forall>j. a \<le> j \<and> j < i \<longrightarrow> \<not> P j)" by auto
  next
    assume r: "a \<le> i \<and> i < b \<and> P i \<and> (\<forall>j. a \<le> j \<and> j < i \<longrightarrow> \<not> P j)"
    then have "i - a < length [a ..< b]" "P ([a ..< b] ! (i - a))" "i = [a ..< b] ! (i - a)"
      by auto
    moreover from r have "\<forall>j < i - a. \<not> P ([a ..< b] ! j)" by auto
    ultimately show "\<exists>k < length [a ..< b]. P ([a ..< b] ! k) \<and> i = [a ..< b] ! k \<and> (\<forall>j < k. \<not> P ([a ..< b] ! j))"
      by blast
  qed
  finally show ?thesis .
qed

lemma find_upt_None:
  "List.find P [a ..< b] = None \<longleftrightarrow> (\<forall>j. a \<le> j \<and> j < b \<longrightarrow> \<not> P j)"
  by (auto simp: find_None_iff)

lemma str_find_Some:
  "str_find s c pos = Some i \<longleftrightarrow>
     pos \<le> i \<and> i < length s \<and> s ! i = c \<and> (\<forall>j. pos \<le> j \<and> j < i \<longrightarrow> s ! j \<noteq> c)"
  unfolding str_find_def by (rule find_upt_Some)

lemma str_find_None:
  "str_find s c pos = None \<longleftrightarrow> (\<forall>j. pos \<le> j \<and> j < length s \<longrightarrow> s ! j \<noteq> c)"
  unfolding str_find_def by (rule find_upt_None)


subsection \<open>Helper facts on \<open>toggleport\<close>\<close>

lemma is_http_append: "is_http p \<Longrightarrow> is_http (p @ r)"
proof -
  assume "is_http p"
  then have t: "take 5 p = ''http:''" by (simp add: is_http_def)
  then have "length (take 5 p) = 5" by simp
  then have "5 \<le> length p" by simp
  with t show ?thesis by (simp add: is_http_def)
qed

lemma nth_drop_mem: "n \<le> j \<Longrightarrow> j < length p \<Longrightarrow> p ! j \<in> set (drop n p)"
proof -
  assume a: "n \<le> j" "j < length p"
  then have "drop n p ! (j - n) = p ! j" by simp
  moreover from a have "j - n < length (drop n p)" by simp
  ultimately show ?thesis by (metis nth_mem)
qed

lemma find_slash_after_host:
  assumes "8 \<le> length p" "c \<notin> set (drop 8 p)"
  shows "str_find (p @ c # r) c 8 = Some (length p)"
proof -
  have "(p @ c # r) ! j \<noteq> c" if "8 \<le> j" "j < length p" for j
    using that assms(2) nth_drop_mem [of 8 j p] by (auto simp: nth_append)
  with assms(1) show ?thesis by (simp add: str_find_Some)
qed

lemma find_none_after_host:
  assumes "c \<notin> set (drop 8 p)" "c \<notin> set r"
  shows "str_find (p @ r) c 8 = None"
proof -
  have "(p @ r) ! j \<noteq> c" if "8 \<le> j" "j < length (p @ r)" for j
  proof (cases "j < length p")
    case True
    with that assms(1) nth_drop_mem [of 8 j p] show ?thesis by (auto simp: nth_append)
  next
    case False
    with that have "j - length p < length r" by simp
    then have "r ! (j - length p) \<in> set r" by (rule nth_mem)
    with False assms(2) show ?thesis by (auto simp: nth_append)
  qed
  then show ?thesis by (simp add: str_find_None)
qed

lemma toggleport_enable:
  assumes "is_http p" "8 \<le> length p" "CHR ''/'' \<notin> set (drop 8 p)" "CHR '':'' \<notin> set (drop 8 p)"
    "CHR '':'' \<notin> set r"
  shows "toggleport (p @ CHR ''/'' # r) = p @ '':8080'' @ CHR ''/'' # r"
proof -
  have e: "str_find (p @ CHR ''/'' # r) (CHR ''/'') 8 = Some (length p)"
    using assms(2,3) by (rule find_slash_after_host)
  have s: "str_find (p @ CHR ''/'' # r) (CHR '':'') 8 = None"
    using assms(4,5) find_none_after_host [of "CHR '':''" p "CHR ''/'' # r"] by simp
  show ?thesis
    using is_http_append [OF assms(1)] e s by (simp add: toggleport_def str_insert_def)
qed

lemma toggleport_disable:
  assumes "is_http p" "8 \<le> length p" "CHR ''/'' \<notin> set (drop 8 p)" "CHR '':'' \<notin> set (drop 8 p)"
    "CHR ''/'' \<notin> set q"
  shows "toggleport (p @ CHR '':'' # q @ CHR ''/'' # r) = p @ CHR ''/'' # r"
proof -
  have s: "str_find (p @ CHR '':'' # q @ CHR ''/'' # r) (CHR '':'') 8 = Some (length p)"
    using assms(2,4) by (rule find_slash_after_host)
  have "CHR ''/'' \<notin> set (drop 8 (p @ CHR '':'' # q))"
    using assms(2,3,5) by simp
  moreover have "8 \<le> length (p @ CHR '':'' # q)" using assms(2) by simp
  ultimately have "str_find ((p @ CHR '':'' # q) @ CHR ''/'' # r) (CHR ''/'') 8 = Some (length (p @ CHR '':'' # q))"
    by (rule find_slash_after_host [rotated])
  then have e: "str_find (p @ CHR '':'' # q @ CHR ''/'' # r) (CHR ''/'') 8 = Some (length p + Suc (length q))"
    by simp
  show ?thesis
    using is_http_append [OF assms(1)] e s
    by (simp add: toggleport_def str_erase_def size_t_sub_def)
qed

lemma toggleport_not_http: "\<not> is_http u \<Longrightarrow> toggleport u = u"
  by (simp add: toggleport_def)

subsection \<open>The alternative port\<close>

text \<open>
  C10 (as amended). \<open>toggleport\<close> leaves every URL that does not begin with \<open>http:\<close>
  unchanged. For an \<open>http:\<close> URL \<open>p @ rest\<close> whose prefix \<open>p\<close> (scheme and host, at least
  eight characters) has neither \<open>/\<close> nor \<open>:\<close> from index 8 on: when \<open>rest\<close> is a port
  \<open>:q\<close> followed by the path, the port is removed; when \<open>rest\<close> is a path without
  any \<open>:\<close>, the text \<open>:8080\<close> is inserted after the host, and toggling twice gives the
  URL back, both from the URL without a port and from the URL with port 8080.
\<close>

theorem toggleport_alt_port:
  "(\<not> is_http u \<longrightarrow> toggleport u = u) \<and>
   (is_http p \<and> 8 \<le> length p \<and> CHR ''/'' \<notin> set (drop 8 p) \<and> CHR '':'' \<notin> set (drop 8 p) \<longrightarrow>
      (CHR ''/'' \<notin> set q \<longrightarrow> toggleport (p @ CHR '':'' # q @ CHR ''/'' # r) = p @ CHR ''/'' # r) \<and>
      (CHR '':'' \<notin> set r \<longrightarrow>
         toggleport (p @ CHR ''/'' # r) = p @ '':8080'' @ CHR ''/'' # r \<and>
         toggleport (toggleport (p @ CHR ''/'' # r)) = p @ CHR ''/'' # r \<and>
         toggleport (toggleport (p @ '':8080'' @ CHR ''/'' # r)) = p @ '':8080'' @ CHR ''/'' # r))"
proof -
  have d: "toggleport (p @ '':8080'' @ CHR ''/'' # r) = p @ CHR ''/'' # r"
    if "is_http p" "8 \<le> length p" "CHR ''/'' \<notin> set (drop 8 p)" "CHR '':'' \<notin> set (drop 8 p)"
  proof -
    have "CHR ''/'' \<notin> set ''8080''" by simp
    from toggleport_disable [OF that this, of r] show ?thesis by simp
  qed
  show ?thesis
    using toggleport_not_http [of u] toggleport_disable [of p q r] toggleport_enable [of p r] d
    by simp
qed

theorem toggleport_alt_port_witness:
  "\<not> is_http ''ftp://host/x'' \<and> toggleport ''ftp://host/x'' = ''ftp://host/x'' \<and>
   is_http ''http://host'' \<and> toggleport ''http://host:1234/path'' = ''http://host/path'' \<and>
   toggleport ''http://host/path'' = ''http://host:8080/path'' \<and>
   toggleport ''http://host:8080/path'' = ''http://host/path''"
  using toggleport_alt_port [of "''ftp://host/x''" "''http://host''" "''1234''" "''path''"]
  by (auto simp: is_http_def)

text \<open>C10 as stated fails: a port other than 8080 is removed by the first call and
  replaced by 8080 by the second.\<close>

theorem toggleport_twice_counterexample:
  "toggleport (toggleport ''http://host:1234/path'') \<noteq> ''http://host:1234/path''"
  by code_simp



subsection \<open>The number of connections\<close>

text \<open>
  C4 (as amended). On a slot whose connections are not yet created, once the temporary
  URL vector is known, \<open>createconnectionsonce\<close> returns true and sets the connection
  count to 6 for a RAID transfer, otherwise to 1 when the file size is at most 131072
  bytes, otherwise to the client's configured count for the direction of the transfer;
  while the URL vector is empty it returns false and changes nothing. In particular a
  non-RAID file of 131071 bytes gets exactly one connection.
\<close>

theorem createconnectionsonce_count:
  "connections s = 0 \<and> reqs s = [] \<and> asyncIO s = None \<longrightarrow>
     (tempurls s = [] \<longrightarrow> createconnectionsonce s = (False, s)) \<and>
     (tempurls s \<noteq> [] \<longrightarrow>
        fst (createconnectionsonce s) \<and>
        connections (snd (createconnectionsonce s)) =
          (if israid s then 6
           else if xfer_size s \<le> 131072 then 1
           else client_connections s (xfer_type s)))"
  by (simp add: createconnectionsonce_def RAIDPARTS_def Let_def)

theorem createconnectionsonce_count_witness:
  "connections (fresh_slot 131071) = 0 \<and> reqs (fresh_slot 131071) = [] \<and>
   asyncIO (fresh_slot 131071) = None \<and> tempurls (fresh_slot 131071) \<noteq> [] \<and>
   \<not> israid (fresh_slot 131071) \<and>
   fst (createconnectionsonce (fresh_slot 131071)) \<and>
   connections (snd (createconnectionsonce (fresh_slot 131071))) = 1"
  using createconnectionsonce_count [of "fresh_slot 131071"]
  by (simp add: fresh_slot_def)

text \<open>C4 as stated fails at the boundary: a non-RAID file of exactly 131072 bytes is not
  below 128 KiB, yet it gets one connection and not the four the client is configured
  with.\<close>

theorem createconnectionsonce_boundary_counterexample:
  "\<not> israid (fresh_slot 131072) \<and> \<not> xfer_size (fresh_slot 131072) < 131072 \<and>
   client_connections (fresh_slot 131072) (xfer_type (fresh_slot 131072)) = 4 \<and>
   connections (snd (createconnectionsonce (fresh_slot 131072))) = 1"
  by (simp add: createconnectionsonce_def fresh_slot_def four_connections_def)


subsection \<open>The gaps that the legacy recovery tries\<close>

lemma set_takeWhile_upt:
  assumes "\<And>i j. a \<le> i \<Longrightarrow> i \<le> j \<Longrightarrow> j < b \<Longrightarrow> P j \<Longrightarrow> P i"
  shows "set (takeWhile P [a ..< b]) = {i. a \<le> i \<and> i < b \<and> P i}"
proof -
  have "\<not> P x" if "x \<in> set (dropWhile P [a ..< b])" for x
  proof -
    from that have ne: "dropWhile P [a ..< b] \<noteq> []" by (auto simp del: dropWhile_eq_Nil_conv)
    then have h: "\<not> P (hd (dropWhile P [a ..< b]))" by (rule hd_dropWhile)
    have "sorted (dropWhile P [a ..< b])" by (rule sorted_dropWhile) simp
    with that ne have "hd (dropWhile P [a ..< b]) \<le> x"
      by (cases "dropWhile P [a ..< b]") auto
    moreover from ne have "hd (dropWhile P [a ..< b]) \<in> set (dropWhile P [a ..< b])"
      by (rule hd_in_set)
    then have "a \<le> hd (dropWhile P [a ..< b])"
      using set_dropWhileD [of _ P "[a ..< b]"] by fastforce
    moreover from that have "x < b"
      using set_dropWhileD [of x P "[a ..< b]"] by simp
    ultimately show ?thesis using h assms by blast
  qed
  then have "takeWhile P [a ..< b] = filter P [a ..< b]" by (rule takeWhile_eq_filter)
  then show ?thesis by auto
qed

lemma narrow_small:
  "n < 2 ^ 31 \<Longrightarrow> size_t_of_int (min k (int_of_size_t n)) = nat (min k (int n))"
  if "0 \<le> k" "k < 2 ^ 31" for k
proof -
  assume n: "n < 2 ^ 31"
  then have "n mod 2 ^ 32 = n" by simp
  with n have "int_of_size_t n = int n" by (simp add: int_of_size_t_def Let_def)
  moreover have "min k (int n) mod 2 ^ 64 = min k (int n)" using that n by (simp add: min_def)
  ultimately show ?thesis by (simp add: size_t_of_int_def)
qed

lemma size_t_add_small: "a + b < 2 ^ 64 \<Longrightarrow> size_t_add a b = a + b"
  by (simp add: size_t_add_def)

lemma size_t_sub_small: "b \<le> a \<Longrightarrow> size_t_sub a b = a - b"
  by (simp add: size_t_sub_def)


lemma set_gap_lens:
  assumes "s + k < 2 ^ 64"
  shows "set (takeWhile (\<lambda>len. size_t_add s len \<le> N) [1 ..< k]) = {l. 1 \<le> l \<and> l < k \<and> s + l \<le> N}"
proof -
  have "takeWhile (\<lambda>len. size_t_add s len \<le> N) [1 ..< k] = takeWhile (\<lambda>len. s + len \<le> N) [1 ..< k]"
    using assms by (intro takeWhile_cong) (auto simp: size_t_add_small)
  moreover have "set (takeWhile (\<lambda>len. s + len \<le> N) [1 ..< k]) = {l. 1 \<le> l \<and> l < k \<and> s + l \<le> N}"
    by (rule set_takeWhile_upt) simp
  ultimately show ?thesis by simp
qed

lemma in_concat_map: "x \<in> set (concat (map f xs)) \<longleftrightarrow> (\<exists>y\<in>set xs. x \<in> set (f y))"
  by auto

lemma in_map_pair: "(a, b) \<in> set (map (\<lambda>l. (a', l)) ls) \<longleftrightarrow> a = a' \<and> b \<in> set ls"
  by auto

lemma single_gaps_iff:
  assumes "N < 2 ^ 31"
  shows "(s, l) \<in> set (single_gaps N) \<longleftrightarrow>
    N - min 96 N \<le> s \<and> s < N \<and> 1 \<le> l \<and> l \<le> 64 \<and> s + l \<le> N"
proof -
  have fin: "size_t_of_int (min (32 * 3) (int_of_size_t N)) = min 96 N"
    using narrow_small [of 96 N] assms by (simp add: min_def)
  have "(s, l) \<in> set (single_gaps N) \<longleftrightarrow>
     (\<exists>cb \<in> set [1 ..< Suc (min 96 N)]. s = size_t_sub N cb \<and>
        l \<in> set (takeWhile (\<lambda>len. size_t_add (size_t_sub N cb) len \<le> N) [1 ..< 65]))"
    by (simp only: single_gaps_def fin Let_def in_concat_map in_map_pair)
  also have "\<dots> \<longleftrightarrow> (\<exists>cb. 1 \<le> cb \<and> cb \<le> min 96 N \<and> s = size_t_sub N cb \<and>
        l \<in> set (takeWhile (\<lambda>len. size_t_add (size_t_sub N cb) len \<le> N) [1 ..< 65]))"
    by (simp only: set_upt Bex_def atLeastLessThan_iff less_Suc_eq_le conj_assoc)
  also have "\<dots> \<longleftrightarrow> (\<exists>cb. 1 \<le> cb \<and> cb \<le> min 96 N \<and> s = N - cb \<and> 1 \<le> l \<and> l < 65 \<and> N - cb + l \<le> N)"
  proof -
    have "set (takeWhile (\<lambda>len. size_t_add (size_t_sub N cb) len \<le> N) [1 ..< 65]) =
          {l. 1 \<le> l \<and> l < 65 \<and> N - cb + l \<le> N}" if "cb \<le> min 96 N" for cb
    proof -
      from that have "size_t_sub N cb = N - cb" by (simp add: size_t_sub_small)
      moreover from assms have "N - cb + 65 < 2 ^ 64" by simp
      ultimately show ?thesis using set_gap_lens [of "N - cb" 65 N] by simp
    qed
    moreover have "size_t_sub N cb = N - cb" if "cb \<le> min 96 N" for cb
      using that by (simp add: size_t_sub_small)
    ultimately show ?thesis by auto
  qed
  also have "\<dots> \<longleftrightarrow> N - min 96 N \<le> s \<and> s < N \<and> 1 \<le> l \<and> l \<le> 64 \<and> s + l \<le> N"
  proof
    assume "\<exists>cb. 1 \<le> cb \<and> cb \<le> min 96 N \<and> s = N - cb \<and> 1 \<le> l \<and> l < 65 \<and> N - cb + l \<le> N"
    then show "N - min 96 N \<le> s \<and> s < N \<and> 1 \<le> l \<and> l \<le> 64 \<and> s + l \<le> N" by auto
  next
    assume r: "N - min 96 N \<le> s \<and> s < N \<and> 1 \<le> l \<and> l \<le> 64 \<and> s + l \<le> N"
    then have "1 \<le> N - s \<and> N - s \<le> min 96 N \<and> s = N - (N - s) \<and> 1 \<le> l \<and> l < 65 \<and> N - (N - s) + l \<le> N"
      by auto
    then show "\<exists>cb. 1 \<le> cb \<and> cb \<le> min 96 N \<and> s = N - cb \<and> 1 \<le> l \<and> l < 65 \<and> N - cb + l \<le> N"
      by blast
  qed
  finally show ?thesis .
qed

lemma in_map_quad: "(a, b, c, d) \<in> set (map (\<lambda>l. (a', b', c', l)) ls) \<longleftrightarrow> a = a' \<and> b = b' \<and> c = c' \<and> d \<in> set ls"
  by auto

lemma double_gaps_iff:
  assumes "N < 2 ^ 31"
  shows "(s1, l1, s2, l2) \<in> set (double_gaps N) \<longleftrightarrow>
    N - min 40 N \<le> s1 \<and> s1 < N \<and> 1 \<le> l1 \<and> l1 \<le> 16 \<and> s1 + l1 \<le> N \<and>
    s1 + l1 < s2 \<and> s2 < N \<and> 1 \<le> l2 \<and> l2 \<le> 16 \<and> s2 + l2 \<le> N"
proof -
  have fin: "size_t_of_int (min (16 * 2 + 8) (int_of_size_t N)) = min 40 N"
    using narrow_small [of 40 N] assms by (simp add: min_def)
  have sub: "size_t_sub N (min 40 N) = N - min 40 N"
    by (simp add: size_t_sub_small)
  have lens: "set (takeWhile (\<lambda>len. size_t_add a len \<le> N) [1 ..< 17]) =
          {l. 1 \<le> l \<and> l < 17 \<and> a + l \<le> N}" if "a < N" for a
    using set_gap_lens [of a 17 N] that assms by simp
  have st2: "size_t_add (size_t_add a l) 1 = a + l + 1" if "a < N" "l < 17" for a l
    using that assms by (simp add: size_t_add_small)
  have "(s1, l1, s2, l2) \<in> set (double_gaps N) \<longleftrightarrow>
     (\<exists>a \<in> set [N - min 40 N ..< N].
        \<exists>b \<in> set (takeWhile (\<lambda>len. size_t_add a len \<le> N) [1 ..< 17]).
          \<exists>c \<in> set [size_t_add (size_t_add a b) 1 ..< N].
             s1 = a \<and> l1 = b \<and> s2 = c \<and>
             l2 \<in> set (takeWhile (\<lambda>len. size_t_add c len \<le> N) [1 ..< 17]))"
    by (simp only: double_gaps_def fin sub Let_def in_concat_map in_map_quad)
  also have "\<dots> \<longleftrightarrow>
     (N - min 40 N \<le> s1 \<and> s1 < N \<and>
      l1 \<in> set (takeWhile (\<lambda>len. size_t_add s1 len \<le> N) [1 ..< 17]) \<and>
      size_t_add (size_t_add s1 l1) 1 \<le> s2 \<and> s2 < N \<and>
      l2 \<in> set (takeWhile (\<lambda>len. size_t_add s2 len \<le> N) [1 ..< 17]))"
    unfolding set_upt Bex_def atLeastLessThan_iff by blast
  also have "\<dots> \<longleftrightarrow> N - min 40 N \<le> s1 \<and> s1 < N \<and> 1 \<le> l1 \<and> l1 \<le> 16 \<and> s1 + l1 \<le> N \<and>
    s1 + l1 < s2 \<and> s2 < N \<and> 1 \<le> l2 \<and> l2 \<le> 16 \<and> s2 + l2 \<le> N"
    using lens st2 by auto
  finally show ?thesis .
qed



lemma list_ex_pairs: "list_ex (\<lambda>(a, b). P a b) xs \<longleftrightarrow> (\<exists>a b. (a, b) \<in> set xs \<and> P a b)"
  by (auto simp: list_ex_iff)

lemma list_ex_quads:
  "list_ex (\<lambda>(a, b, c, d). P a b c d) xs \<longleftrightarrow> (\<exists>a b c d. (a, b, c, d) \<in> set xs \<and> P a b c d)"
  by (auto simp: list_ex_iff)

lemma checkMeta_fst:
  assumes "N = length (chunkmacs s)" "N < 2 ^ 31"
  shows "fst (checkMetaMacWithMissingLateEntries c s) \<longleftrightarrow>
     (\<exists>start1 len1. N - min 96 N \<le> start1 \<and> start1 < N \<and> 1 \<le> len1 \<and> len1 \<le> 64 \<and>
         start1 + len1 \<le> N \<and>
         metamac s = macsmac_gaps c s (chunkmacs s) start1 (start1 + len1) N N) \<or>
     (\<exists>start1 len1 start2 len2.
         N - min 40 N \<le> start1 \<and> start1 < N \<and> 1 \<le> len1 \<and> len1 \<le> 16 \<and> start1 + len1 \<le> N \<and>
         start1 + len1 < start2 \<and> start2 < N \<and> 1 \<le> len2 \<and> len2 \<le> 16 \<and> start2 + len2 \<le> N \<and>
         metamac s = macsmac_gaps c s (chunkmacs s) start1 (start1 + len1) start2 (start2 + len2))"
proof -
  have add: "size_t_add a b = a + b" if "a < N" "b \<le> 64" for a b
    using that assms(2) by (simp add: size_t_add_small)
  let ?G = "macsmac_gaps c s (chunkmacs s)"
  let ?R1 = "\<exists>start1 len1. N - min 96 N \<le> start1 \<and> start1 < N \<and> 1 \<le> len1 \<and> len1 \<le> 64 \<and>
         start1 + len1 \<le> N \<and> metamac s = ?G start1 (start1 + len1) N N"
  let ?R2 = "\<exists>start1 len1 start2 len2.
         N - min 40 N \<le> start1 \<and> start1 < N \<and> 1 \<le> len1 \<and> len1 \<le> 16 \<and> start1 + len1 \<le> N \<and>
         start1 + len1 < start2 \<and> start2 < N \<and> 1 \<le> len2 \<and> len2 \<le> 16 \<and> start2 + len2 \<le> N \<and>
         metamac s = ?G start1 (start1 + len1) start2 (start2 + len2)"
  have one: "list_ex (\<lambda>(start1, len1). metamac s = ?G start1 (size_t_add start1 len1) N N)
            (single_gaps N) \<longleftrightarrow> ?R1" (is "?L1 \<longleftrightarrow> _")
  proof
    assume ?L1
    then obtain a b where ab: "(a, b) \<in> set (single_gaps N)"
      and m: "metamac s = ?G a (size_t_add a b) N N"
      unfolding list_ex_pairs by blast
    from ab have bs: "N - min 96 N \<le> a \<and> a < N \<and> 1 \<le> b \<and> b \<le> 64 \<and> a + b \<le> N"
      by (simp only: single_gaps_iff [OF assms(2)])
    with m add [of a b] have "metamac s = ?G a (a + b) N N" by simp
    with bs show ?R1 by blast
  next
    assume ?R1
    then obtain a b where bs: "N - min 96 N \<le> a \<and> a < N \<and> 1 \<le> b \<and> b \<le> 64 \<and> a + b \<le> N"
      and m: "metamac s = ?G a (a + b) N N" by blast
    from bs have ab: "(a, b) \<in> set (single_gaps N)"
      by (simp only: single_gaps_iff [OF assms(2)])
    from m bs add [of a b] have "metamac s = ?G a (size_t_add a b) N N" by simp
    with ab show ?L1 unfolding list_ex_pairs by blast
  qed
  have two: "list_ex (\<lambda>(start1, len1, start2, len2).
              metamac s = ?G start1 (size_t_add start1 len1) start2 (size_t_add start2 len2))
            (double_gaps N) \<longleftrightarrow> ?R2" (is "?L2 \<longleftrightarrow> _")
  proof
    assume ?L2
    then obtain a b a' b' where ab: "(a, b, a', b') \<in> set (double_gaps N)"
      and m: "metamac s = ?G a (size_t_add a b) a' (size_t_add a' b')"
      unfolding list_ex_quads by blast
    from ab have bs: "N - min 40 N \<le> a \<and> a < N \<and> 1 \<le> b \<and> b \<le> 16 \<and> a + b \<le> N \<and>
         a + b < a' \<and> a' < N \<and> 1 \<le> b' \<and> b' \<le> 16 \<and> a' + b' \<le> N"
      by (simp only: double_gaps_iff [OF assms(2)])
    with m add [of a b] add [of a' b'] have "metamac s = ?G a (a + b) a' (a' + b')" by simp
    with bs show ?R2 by blast
  next
    assume ?R2
    then obtain a b a' b' where bs: "N - min 40 N \<le> a \<and> a < N \<and> 1 \<le> b \<and> b \<le> 16 \<and> a + b \<le> N \<and>
         a + b < a' \<and> a' < N \<and> 1 \<le> b' \<and> b' \<le> 16 \<and> a' + b' \<le> N"
      and m: "metamac s = ?G a (a + b) a' (a' + b')" by blast
    from bs have ab: "(a, b, a', b') \<in> set (double_gaps N)"
      by (simp only: double_gaps_iff [OF assms(2)])
    from m bs add [of a b] add [of a' b']
    have "metamac s = ?G a (size_t_add a b) a' (size_t_add a' b')" by simp
    with ab show ?L2 unfolding list_ex_quads by blast
  qed
  show ?thesis
    unfolding one [symmetric] two [symmetric]
    by (simp add: checkMetaMacWithMissingLateEntries_def Let_def assms(1))
qed

lemma checkMeta_snd:
  "snd (checkMetaMacWithMissingLateEntries c s) =
     (if fst (checkMetaMacWithMissingLateEntries c s)
      then s\<lparr>currentmetamac := macsmac c s (chunkmacs s), metamac := macsmac c s (chunkmacs s)\<rparr>
      else s)"
  by (simp add: checkMetaMacWithMissingLateEntries_def Let_def adopt_correct_mac_def)


lemma checkMeta_fst_current:
  "fst (checkMetaMacWithMissingLateEntries c (s\<lparr>currentmetamac := x, hascurrentmetamac := y\<rparr>)) =
   fst (checkMetaMacWithMissingLateEntries c s)"
  by (simp add: checkMetaMacWithMissingLateEntries_def Let_def macsmac_gaps_def)

text \<open>
  C5. With \<open>N\<close> chunk MACs (a number that fits the \<open>int\<close> to which the code narrows it),
  \<open>checkMetaMacWithMissingLateEntries\<close> returns true if and only if \<open>metamac\<close> equals
  \<open>macsmac_gaps\<close> over \<open>chunkmacs\<close> with one gap omitted that starts among the last
  \<open>min(96, N)\<close> entries and has a length in \<open>[1, 64]\<close>, or with two gaps omitted (the second
  one starting after the first, at least one entry apart) that lie within the last
  \<open>min(40, N)\<close> entries and have a length in \<open>[1, 16]\<close> each; every gap ends within the
  map. When it returns true, \<open>metamac\<close> and \<open>currentmetamac\<close> are both the full \<open>macsmac\<close>
  of \<open>chunkmacs\<close> and nothing else has changed; when it returns false nothing has changed.
\<close>

theorem checkMetaMacWithMissingLateEntries_spec:
  assumes "N = length (chunkmacs s)" "N < 2 ^ 31"
  shows "(fst (checkMetaMacWithMissingLateEntries c s) \<longleftrightarrow>
     (\<exists>start1 len1. N - min 96 N \<le> start1 \<and> start1 < N \<and> 1 \<le> len1 \<and> len1 \<le> 64 \<and>
         start1 + len1 \<le> N \<and>
         metamac s = macsmac_gaps c s (chunkmacs s) start1 (start1 + len1) N N) \<or>
     (\<exists>start1 len1 start2 len2.
         N - min 40 N \<le> start1 \<and> start1 < N \<and> 1 \<le> len1 \<and> len1 \<le> 16 \<and> start1 + len1 \<le> N \<and>
         start1 + len1 < start2 \<and> start2 < N \<and> 1 \<le> len2 \<and> len2 \<le> 16 \<and> start2 + len2 \<le> N \<and>
         metamac s = macsmac_gaps c s (chunkmacs s) start1 (start1 + len1) start2 (start2 + len2))) \<and>
   snd (checkMetaMacWithMissingLateEntries c s) =
     (if fst (checkMetaMacWithMissingLateEntries c s)
      then s\<lparr>currentmetamac := macsmac c s (chunkmacs s), metamac := macsmac c s (chunkmacs s)\<rparr>
      else s)"
  using checkMeta_fst [OF assms, of c] checkMeta_snd [of c s] by blast

theorem checkMetaMacWithMissingLateEntries_spec_witness:
  "length (chunkmacs gap_slot) < 2 ^ 31 \<and>
   metamac gap_slot = macsmac_gaps toy_collab gap_slot (chunkmacs gap_slot) 1 2 3 3 \<and>
   fst (checkMetaMacWithMissingLateEntries toy_collab gap_slot) \<and>
   metamac (snd (checkMetaMacWithMissingLateEntries toy_collab gap_slot)) = 111 \<and>
   currentmetamac (snd (checkMetaMacWithMissingLateEntries toy_collab gap_slot)) = 111"
proof -
  have n: "3 = length (chunkmacs gap_slot)" "(3::nat) < 2 ^ 31"
    by (simp_all add: gap_slot_def)
  have g: "metamac gap_slot = macsmac_gaps toy_collab gap_slot (chunkmacs gap_slot) 1 (1 + 1) 3 3"
    by (simp add: gap_slot_def fresh_slot_def macsmac_gaps_def toy_collab_def toy_macsmac_gaps_def
        toy_mac_step_def)
  have m: "macsmac toy_collab gap_slot (chunkmacs gap_slot) = 111"
    by (simp add: gap_slot_def fresh_slot_def macsmac_def toy_collab_def toy_macsmac_def
        toy_macsmac_gaps_def toy_mac_step_def)
  have "(3::nat) - min 96 3 \<le> 1 \<and> (1::nat) < 3 \<and> (1::nat) \<le> 1 \<and> (1::nat) \<le> 64 \<and> (1::nat) + 1 \<le> 3 \<and>
      metamac gap_slot = macsmac_gaps toy_collab gap_slot (chunkmacs gap_slot) 1 (1 + 1) 3 3"
    using g by simp
  then have "\<exists>start1 len1. 3 - min 96 3 \<le> start1 \<and> start1 < 3 \<and> 1 \<le> len1 \<and> len1 \<le> 64 \<and>
      start1 + len1 \<le> 3 \<and>
      metamac gap_slot = macsmac_gaps toy_collab gap_slot (chunkmacs gap_slot) start1 (start1 + len1) 3 3"
    by blast
  with checkMetaMacWithMissingLateEntries_spec [OF n, of toy_collab]
  have f: "fst (checkMetaMacWithMissingLateEntries toy_collab gap_slot)"
    and s: "snd (checkMetaMacWithMissingLateEntries toy_collab gap_slot) =
      gap_slot\<lparr>currentmetamac := macsmac toy_collab gap_slot (chunkmacs gap_slot),
               metamac := macsmac toy_collab gap_slot (chunkmacs gap_slot)\<rparr>"
    by simp_all
  from g have g': "metamac gap_slot = macsmac_gaps toy_collab gap_slot (chunkmacs gap_slot) 1 2 3 3"
    by (simp only: one_add_one)
  from n f s m g' show ?thesis by simp
qed



subsection \<open>Completion of a download\<close>

lemma ends_withI:
  "events s' = events s @ n \<Longrightarrow> n \<noteq> [] \<Longrightarrow> last n = e \<Longrightarrow> list_all (\<lambda>x. \<not> is_final x) (butlast n)
   \<Longrightarrow> ends_with s s' e"
  by (simp add: ends_with_def new_events_def)

lemma checkMeta_pair:
  "checkMetaMacWithMissingLateEntries c s =
     (fst (checkMetaMacWithMissingLateEntries c s),
      if fst (checkMetaMacWithMissingLateEntries c s)
      then s\<lparr>currentmetamac := macsmac c s (chunkmacs s), metamac := macsmac c s (chunkmacs s)\<rparr>
      else s)"
  by (subst checkMeta_snd [symmetric]) simp

lemma cdtf_not_finished:
  "progresscompleted s \<noteq> xfer_size s \<Longrightarrow> checkDownloadTransferFinished c s = (False, s)"
  by (simp add: checkDownloadTransferFinished_def)

lemma cdtf_fst: "fst (checkDownloadTransferFinished c s) = (progresscompleted s = xfer_size s)"
  by (simp add: checkDownloadTransferFinished_def Let_def split: prod.splits)

lemma download_verified_events:
  "events (download_verified c s) =
     events s @ [TransferCacheAdd] @
       (if progresscompleted s \<noteq> progressreported s then [Progress] else []) @ [Complete]"
  by (simp add: download_verified_def emit_def Let_def)

lemma download_verified_chunkmacs: "chunkmacs (download_verified c s) = chunkmacs s"
  by (simp add: download_verified_def emit_def Let_def)

lemma download_verified_ends:
  assumes "events s' = events s" "chunkmacs s' = chunkmacs s"
  shows "ends_with s (download_verified c s') Complete \<and> chunkmacs (download_verified c s') = chunkmacs s"
proof -
  let ?n = "[TransferCacheAdd] @
       (if progresscompleted s' \<noteq> progressreported s' then [Progress] else []) @ [Complete]"
  have "events (download_verified c s') = events s @ ?n"
    using assms(1) by (simp only: download_verified_events)
  moreover have "?n \<noteq> []" "last ?n = Complete" "list_all (\<lambda>x. \<not> is_final x) (butlast ?n)"
    by simp_all
  ultimately have "ends_with s (download_verified c s') Complete" by (rule ends_withI)
  with assms(2) show ?thesis by (simp add: download_verified_chunkmacs)
qed

lemma download_mac_failed_ends:
  assumes "events s' = events s"
  shows "ends_with s (download_mac_failed s') (Failed API_EKEY None) \<and>
         chunkmacs (download_mac_failed s') = []"
proof -
  have "events (download_mac_failed s') = events s @ [SendEvent 99431, Failed API_EKEY None]"
    using assms by (simp add: download_mac_failed_def emit_def)
  then have "ends_with s (download_mac_failed s') (Failed API_EKEY None)"
    by (rule ends_withI) simp_all
  then show ?thesis by (simp add: download_mac_failed_def emit_def)
qed

lemma cdtf_empty:
  assumes "progresscompleted s = xfer_size s" "xfer_size s = 0"
  shows "ends_with s (snd (checkDownloadTransferFinished c s)) Complete \<and>
         chunkmacs (snd (checkDownloadTransferFinished c s)) = chunkmacs s"
proof -
  have "snd (checkDownloadTransferFinished c s) = download_verified c s"
    using assms by (simp add: checkDownloadTransferFinished_def)
  then show ?thesis using download_verified_ends [of s s c] by simp
qed

lemma cdtf_match:
  assumes "progresscompleted s = xfer_size s" "xfer_size s \<noteq> 0"
    "macsmac c s (chunkmacs s) = metamac s"
  shows "ends_with s (snd (checkDownloadTransferFinished c s)) Complete \<and>
         chunkmacs (snd (checkDownloadTransferFinished c s)) = chunkmacs s"
proof -
  let ?s1 = "s\<lparr>currentmetamac := macsmac c s (chunkmacs s), hascurrentmetamac := True\<rparr>"
  have "snd (checkDownloadTransferFinished c s) = download_verified c ?s1"
    using assms by (simp add: checkDownloadTransferFinished_def)
  then show ?thesis using download_verified_ends [of ?s1 s c] by simp
qed

lemma cdtf_recovered:
  assumes "progresscompleted s = xfer_size s" "xfer_size s \<noteq> 0"
    "macsmac c s (chunkmacs s) \<noteq> metamac s" "fst (checkMetaMacWithMissingLateEntries c s)"
  shows "ends_with s (snd (checkDownloadTransferFinished c s)) Complete \<and>
         chunkmacs (snd (checkDownloadTransferFinished c s)) = chunkmacs s"
proof -
  let ?s1 = "s\<lparr>currentmetamac := macsmac c s (chunkmacs s), hascurrentmetamac := True\<rparr>"
  let ?s2 = "?s1\<lparr>currentmetamac := macsmac c ?s1 (chunkmacs ?s1), metamac := macsmac c ?s1 (chunkmacs ?s1)\<rparr>"
  from assms(4) have f: "fst (checkMetaMacWithMissingLateEntries c ?s1)"
    by (simp add: checkMeta_fst_current)
  have p: "checkMetaMacWithMissingLateEntries c ?s1 = (True, ?s2)"
    using checkMeta_pair [of c ?s1] f by simp
  have "snd (checkDownloadTransferFinished c s) = download_verified c ?s2"
    using assms(1-3) by (simp add: checkDownloadTransferFinished_def p Let_def)
  then show ?thesis using download_verified_ends [of ?s2 s c] by simp
qed

lemma cdtf_mismatch:
  assumes "progresscompleted s = xfer_size s" "xfer_size s \<noteq> 0"
    "macsmac c s (chunkmacs s) \<noteq> metamac s" "\<not> fst (checkMetaMacWithMissingLateEntries c s)"
  shows "ends_with s (snd (checkDownloadTransferFinished c s)) (Failed API_EKEY None) \<and>
         chunkmacs (snd (checkDownloadTransferFinished c s)) = []"
proof -
  let ?s1 = "s\<lparr>currentmetamac := macsmac c s (chunkmacs s), hascurrentmetamac := True\<rparr>"
  from assms(4) have f: "\<not> fst (checkMetaMacWithMissingLateEntries c ?s1)"
    by (simp add: checkMeta_fst_current)
  have p: "checkMetaMacWithMissingLateEntries c ?s1 = (False, ?s1)"
    using checkMeta_pair [of c ?s1] f by simp
  have "snd (checkDownloadTransferFinished c s) = download_mac_failed ?s1"
    using assms(1-3) by (simp add: checkDownloadTransferFinished_def p)
  then show ?thesis using download_mac_failed_ends [of ?s1 s] by simp
qed

text \<open>
  C1. When \<open>progresscompleted\<close> equals \<open>size\<close>, \<open>checkDownloadTransferFinished\<close> returns
  true, and the transfer completes (with \<open>chunkmacs\<close> untouched) if and only if the size is
  zero, or the MAC of MACs over \<open>chunkmacs\<close> equals \<open>metamac\<close>, or
  \<open>checkMetaMacWithMissingLateEntries\<close> succeeds; in every other case \<open>chunkmacs\<close> is
  cleared and the transfer fails with \<open>API_EKEY\<close>. When \<open>progresscompleted\<close> differs from
  \<open>size\<close> the function returns false and changes nothing.
\<close>

theorem checkDownloadTransferFinished_spec:
  "(progresscompleted s = xfer_size s \<longrightarrow>
      fst (checkDownloadTransferFinished c s) \<and>
      (if xfer_size s = 0 \<or> macsmac c s (chunkmacs s) = metamac s \<or>
          fst (checkMetaMacWithMissingLateEntries c s)
       then ends_with s (snd (checkDownloadTransferFinished c s)) Complete \<and>
            chunkmacs (snd (checkDownloadTransferFinished c s)) = chunkmacs s
       else ends_with s (snd (checkDownloadTransferFinished c s)) (Failed API_EKEY None) \<and>
            chunkmacs (snd (checkDownloadTransferFinished c s)) = [])) \<and>
   (progresscompleted s \<noteq> xfer_size s \<longrightarrow> checkDownloadTransferFinished c s = (False, s))"
  using cdtf_fst [of c s] cdtf_not_finished [of s c] cdtf_empty [of s c] cdtf_match [of s c]
    cdtf_recovered [of s c] cdtf_mismatch [of s c]
  by (cases "xfer_size s = 0"; cases "macsmac c s (chunkmacs s) = metamac s";
      cases "fst (checkMetaMacWithMissingLateEntries c s)") simp_all



lemma bad_slot_no_recovery: "\<not> fst (checkMetaMacWithMissingLateEntries toy_collab bad_slot)"
proof -
  have n: "1 = length (chunkmacs bad_slot)" "(1::nat) < 2 ^ 31"
    by (simp_all add: bad_slot_def)
  have g: "macsmac_gaps toy_collab bad_slot (chunkmacs bad_slot) 0 1 1 1 = 0"
    by (simp add: bad_slot_def fresh_slot_def macsmac_gaps_def toy_collab_def toy_macsmac_gaps_def
        toy_mac_step_def)
  have m: "metamac bad_slot = 7" by (simp add: bad_slot_def)
  have one: "start1 = 0 \<and> len1 = 1" if "start1 < 1" "1 \<le> len1" "start1 + len1 \<le> 1" for start1 len1 :: nat
    using that by arith
  have two: "\<not> (start1 + len1 < start2 \<and> start2 < 1 \<and> 1 \<le> len1)" for start1 len1 start2 :: nat
    by arith
  show ?thesis
    unfolding checkMeta_fst [OF n, of toy_collab]
  proof (intro notI, elim disjE exE conjE)
    fix start1 len1
    assume "start1 < 1" "1 \<le> len1" "start1 + len1 \<le> 1"
      and e: "metamac bad_slot = macsmac_gaps toy_collab bad_slot (chunkmacs bad_slot) start1 (start1 + len1) 1 1"
    then have "start1 = 0 \<and> len1 = 1" by (intro one)
    with e g m show False by simp
  next
    fix start1 len1 start2 len2 :: nat
    assume "start1 + len1 < start2" "start2 < 1" "1 \<le> len1"
    with two [of start1 len1 start2] show False by simp
  qed
qed

theorem checkDownloadTransferFinished_spec_witness:
  "progresscompleted gap_slot = xfer_size gap_slot \<and>
   fst (checkMetaMacWithMissingLateEntries toy_collab gap_slot) \<and>
   fst (checkDownloadTransferFinished toy_collab gap_slot) \<and>
   ends_with gap_slot (snd (checkDownloadTransferFinished toy_collab gap_slot)) Complete \<and>
   progresscompleted bad_slot = xfer_size bad_slot \<and>
   fst (checkDownloadTransferFinished toy_collab bad_slot) \<and>
   ends_with bad_slot (snd (checkDownloadTransferFinished toy_collab bad_slot)) (Failed API_EKEY None) \<and>
   chunkmacs (snd (checkDownloadTransferFinished toy_collab bad_slot)) = [] \<and>
   progresscompleted (fresh_slot 10) \<noteq> xfer_size (fresh_slot 10) \<and>
   checkDownloadTransferFinished toy_collab (fresh_slot 10) = (False, fresh_slot 10)"
proof -
  have n: "3 = length (chunkmacs gap_slot)" "(3::nat) < 2 ^ 31"
    by (simp_all add: gap_slot_def)
  have "metamac gap_slot = macsmac_gaps toy_collab gap_slot (chunkmacs gap_slot) 1 (1 + 1) 3 3"
    by (simp add: gap_slot_def fresh_slot_def macsmac_gaps_def toy_collab_def toy_macsmac_gaps_def
        toy_mac_step_def)
  then have "(3::nat) - min 96 3 \<le> 1 \<and> (1::nat) < 3 \<and> (1::nat) \<le> 1 \<and> (1::nat) \<le> 64 \<and> (1::nat) + 1 \<le> 3 \<and>
      metamac gap_slot = macsmac_gaps toy_collab gap_slot (chunkmacs gap_slot) 1 (1 + 1) 3 3"
    by simp
  then have "\<exists>start1 len1. 3 - min 96 3 \<le> start1 \<and> start1 < 3 \<and> 1 \<le> len1 \<and> len1 \<le> 64 \<and>
      start1 + len1 \<le> 3 \<and>
      metamac gap_slot = macsmac_gaps toy_collab gap_slot (chunkmacs gap_slot) start1 (start1 + len1) 3 3"
    by blast
  then have r: "fst (checkMetaMacWithMissingLateEntries toy_collab gap_slot)"
    unfolding checkMeta_fst [OF n, of toy_collab] by blast
  have b: "xfer_size bad_slot \<noteq> 0" "macsmac toy_collab bad_slot (chunkmacs bad_slot) \<noteq> metamac bad_slot"
    by (simp_all add: bad_slot_def fresh_slot_def macsmac_def toy_collab_def toy_macsmac_def
        toy_macsmac_gaps_def toy_mac_step_def)
  have p: "progresscompleted gap_slot = xfer_size gap_slot"
    "progresscompleted bad_slot = xfer_size bad_slot"
    "progresscompleted (fresh_slot 10) \<noteq> xfer_size (fresh_slot 10)"
    by (simp_all add: gap_slot_def bad_slot_def fresh_slot_def)
  show ?thesis
    using checkDownloadTransferFinished_spec [of gap_slot toy_collab]
      checkDownloadTransferFinished_spec [of bad_slot toy_collab]
      checkDownloadTransferFinished_spec [of "fresh_slot 10" toy_collab]
      r b p bad_slot_no_recovery
    by simp
qed



subsection \<open>The upload token\<close>

lemma req_at_reqs_cong: "reqs s' = reqs s \<Longrightarrow> req_at s' j = req_at s j"
  by (simp add: req_at_def)

lemma other_open_reqs_cong: "reqs s' = reqs s \<Longrightarrow> other_open_reqs i s' js = other_open_reqs i s js"
  by (simp add: other_open_reqs_def req_at_reqs_cong [of s' s])

lemma other_open_reqs_Cons:
  "other_open_reqs i s (j # js) =
     (case req_at s j of None \<Rightarrow> [] | Some rj \<Rightarrow> if j \<noteq> i \<and> still_open rj then [rj] else [])
     @ other_open_reqs i s js"
  by (simp add: other_open_reqs_def)

lemma include_others_reqs: "reqs (include_others c i js s) = reqs s"
  by (induction js arbitrary: s) (auto split: option.splits)

lemma include_others_chunkmacs:
  "chunkmacs (include_others c i js s) =
     foldl (cm_finishedUploadChunks c) (chunkmacs s) (map mChunkmacs (other_open_reqs i s js))"
proof (induction js arbitrary: s)
  case Nil
  then show ?case by (simp add: other_open_reqs_def)
next
  case (Cons j js)
  show ?case
  proof (cases "req_at s j")
    case None
    with Cons show ?thesis by (simp add: other_open_reqs_Cons)
  next
    case (Some rj)
    show ?thesis
    proof (cases "j \<noteq> i \<and> still_open rj")
      case True
      let ?s' = "s\<lparr>progresscompleted := progresscompleted s + req_size rj,
                   chunkmacs := cm_finishedUploadChunks c (chunkmacs s) (mChunkmacs rj)\<rparr>"
      have "other_open_reqs i ?s' js = other_open_reqs i s js"
        by (rule other_open_reqs_cong) simp
      with Cons [of ?s'] Some True show ?thesis by (simp add: other_open_reqs_Cons)
    next
      case False
      with Cons [of s] Some show ?thesis by (auto simp: other_open_reqs_Cons)
    qed
  qed
qed

lemma include_others_progresscompleted:
  "progresscompleted (include_others c i js s) =
     progresscompleted s + sum_list (map req_size (other_open_reqs i s js))"
proof (induction js arbitrary: s)
  case Nil
  then show ?case by (simp add: other_open_reqs_def)
next
  case (Cons j js)
  show ?case
  proof (cases "req_at s j")
    case None
    with Cons show ?thesis by (simp add: other_open_reqs_Cons)
  next
    case (Some rj)
    show ?thesis
    proof (cases "j \<noteq> i \<and> still_open rj")
      case True
      let ?s' = "s\<lparr>progresscompleted := progresscompleted s + req_size rj,
                   chunkmacs := cm_finishedUploadChunks c (chunkmacs s) (mChunkmacs rj)\<rparr>"
      have "other_open_reqs i ?s' js = other_open_reqs i s js"
        by (rule other_open_reqs_cong) simp
      with Cons [of ?s'] Some True show ?thesis by (simp add: other_open_reqs_Cons)
    next
      case False
      with Cons [of s] Some show ?thesis by (auto simp: other_open_reqs_Cons)
    qed
  qed
qed

text \<open>Everything but the two fields is left alone by the loop.\<close>

lemma include_others_rest:
  "include_others c i js s =
     s\<lparr>progresscompleted := progresscompleted (include_others c i js s),
       chunkmacs := chunkmacs (include_others c i js s)\<rparr>"
proof (induction js arbitrary: s)
  case Nil
  then show ?case by simp
next
  case (Cons j js)
  show ?case
  proof (cases "req_at s j")
    case None
    with Cons [of s] show ?thesis by simp
  next
    case (Some rj)
    show ?thesis
    proof (cases "j \<noteq> i \<and> still_open rj")
      case True
      let ?s' = "s\<lparr>progresscompleted := progresscompleted s + req_size rj,
                   chunkmacs := cm_finishedUploadChunks c (chunkmacs s) (mChunkmacs rj)\<rparr>"
      from Cons [of ?s'] Some True show ?thesis by simp
    next
      case False
      with Cons [of s] Some show ?thesis by auto
    qed
  qed
qed


lemma include_others_eq:
  "include_others c i js s =
     s\<lparr>progresscompleted := progresscompleted s + sum_list (map req_size (other_open_reqs i s js)),
       chunkmacs := foldl (cm_finishedUploadChunks c) (chunkmacs s)
                      (map mChunkmacs (other_open_reqs i s js))\<rparr>"
  by (subst include_others_rest)
     (simp only: include_others_progresscompleted include_others_chunkmacs)

lemma length_bytes_of_int64: "length (bytes_of_int64 w) = 8"
  by (simp add: bytes_of_int64_def)

lemma make_filekey_assembled:
  assumes "length (transferkey s) = 16" "length (filekey s) = 32"
  shows "make_filekey c s =
     (let K = transferkey s @ bytes_of_int64 (ctriv s) @ bytes_of_int64 (macsmac c s (chunkmacs s))
      in mem_write K 0 (xorblock (drop 16 K) K))"
  using assms by (simp add: make_filekey_def mem_write_def Let_def length_bytes_of_int64)

lemma make_filekey_layout:
  assumes "length (transferkey s) = 16" "length (filekey s) = 32"
  shows "make_filekey c s =
     map2 (XOR) (transferkey s) (bytes_of_int64 (ctriv s) @ bytes_of_int64 (macsmac c s (chunkmacs s)))
     @ bytes_of_int64 (ctriv s) @ bytes_of_int64 (macsmac c s (chunkmacs s))"
  using assms
  by (simp add: make_filekey_assembled mem_write_def xorblock_def Let_def length_bytes_of_int64)

lemma make_filekey_cong:
  "filekey a = filekey b \<Longrightarrow> transferkey a = transferkey b \<Longrightarrow> ctriv a = ctriv b \<Longrightarrow>
   chunkmacs a = chunkmacs b \<Longrightarrow> make_filekey c a = make_filekey c b"
  by (simp add: make_filekey_def macsmac_def)

lemma receive_token_valid:
  assumes "valid_token c (body_in r)"
  shows "fst (receive_token c r s) \<and>
         (\<exists>t. snd (receive_token c r s) = s\<lparr>ultoken := Some t\<rparr>)"
  using assms by (auto simp: valid_token_def receive_token_def Let_def)

lemma receive_token_invalid:
  assumes "length (body_in r) = UPLOADTOKENLEN" "\<not> valid_token c (body_in r)"
  shows "receive_token c r s = (False, s\<lparr>ultoken := None\<rparr>)"
  using assms by (auto simp: valid_token_def receive_token_def Let_def)



lemma finish_upload_fields:
  assumes "reqs s1 = reqs s" "connections s1 = connections s" "chunkmacs s1 = chunkmacs s"
    "progresscompleted s1 = progresscompleted s" "events s1 = events s"
    "filekey s1 = filekey s" "transferkey s1 = transferkey s" "ctriv s1 = ctriv s"
    and others_def: "others = other_open_reqs i s (rev [0 ..< connections s])"
    and s'_def: "s' = snd (finish_upload c i r s1)"
  shows "fst (finish_upload c i r s1) = Returns"
    and "errorcount s' = 0"
    and "chunkmacs s' =
           cm_finishedUploadChunks c
             (foldl (cm_finishedUploadChunks c) (chunkmacs s) (map mChunkmacs others)) (mChunkmacs r)"
    and "progresscompleted s' = progresscompleted s + sum_list (map req_size others) + req_size r"
    and "filekey s' = make_filekey c (s\<lparr>chunkmacs := chunkmacs s'\<rparr>)"
    and "ends_with s s' Complete"
proof -
  have o: "other_open_reqs i (s1\<lparr>errorcount := 0, failcount := 0\<rparr>) (rev [0 ..< connections s]) = others"
    unfolding others_def using assms(1) by (intro other_open_reqs_cong) simp
  show "fst (finish_upload c i r s1) = Returns"
    by (simp add: finish_upload_def Let_def)
  show "errorcount s' = 0"
    unfolding s'_def
    by (simp add: finish_upload_def Let_def emit_def include_others_eq)
  show cm: "chunkmacs s' =
           cm_finishedUploadChunks c
             (foldl (cm_finishedUploadChunks c) (chunkmacs s) (map mChunkmacs others)) (mChunkmacs r)"
    unfolding s'_def using assms(2,3) o
    by (simp add: finish_upload_def Let_def emit_def include_others_eq)
  show "progresscompleted s' = progresscompleted s + sum_list (map req_size others) + req_size r"
    unfolding s'_def using assms(2,4) o
    by (simp add: finish_upload_def Let_def emit_def include_others_eq)
  have "filekey s' = make_filekey c
      ((include_others c i (rev [0 ..< connections s]) (s1\<lparr>errorcount := 0, failcount := 0\<rparr>))
        \<lparr>chunkmacs := chunkmacs s', progresscompleted := progresscompleted s'\<rparr>)"
    unfolding s'_def using assms(2)
    by (simp add: finish_upload_def Let_def emit_def)
  also have "\<dots> = make_filekey c (s\<lparr>chunkmacs := chunkmacs s'\<rparr>)"
    using assms(6-8) by (intro make_filekey_cong) (simp_all add: include_others_eq)
  finally show "filekey s' = make_filekey c (s\<lparr>chunkmacs := chunkmacs s'\<rparr>)" .
  let ?n = "[TransferCacheAdd] @
       (if progresscompleted s' \<noteq> progressreported s1 then [Progress] else []) @ [Complete]"
  have "events s' = events s @ ?n"
    unfolding s'_def using assms(5)
    by (simp add: finish_upload_def Let_def emit_def include_others_eq)
  then show "ends_with s s' Complete" by (rule ends_withI) simp_all
qed


lemma put_success_valid:
  assumes "req_at s i = Some r" "valid_token c (body_in r)"
  shows "\<exists>t. put_success c i s = finish_upload c i r (s\<lparr>lastdata := now c, ultoken := Some t\<rparr>)"
proof -
  from assms(2) have l: "length (body_in r) = UPLOADTOKENLEN" by (simp add: valid_token_def)
  then have ne: "body_in r \<noteq> []" by (auto simp: UPLOADTOKENLEN_def)
  from receive_token_valid [OF assms(2), of "s\<lparr>lastdata := now c\<rparr>"]
  obtain t where t: "receive_token c r (s\<lparr>lastdata := now c\<rparr>) = (True, s\<lparr>lastdata := now c, ultoken := Some t\<rparr>)"
    by (metis prod.collapse)
  show ?thesis
    using assms(1) l ne t by (auto simp: put_success_def Let_def)
qed

lemma put_success_invalid:
  assumes "req_at s i = Some r" "body_in r \<noteq> []" "\<not> valid_token c (body_in r)"
  shows "\<exists>s1. put_success c i s = upload_error c i r s1 \<and> events s1 = events s \<and>
           errorcount s1 = errorcount s \<and> reqs s1 = reqs s"
proof (cases "length (body_in r) = UPLOADTOKENLEN")
  case True
  with assms show ?thesis
    by (auto simp: put_success_def Let_def receive_token_invalid)
next
  case False
  with assms show ?thesis
    by (auto simp: put_success_def Let_def)
qed

lemma req_at_set_req:
  "i < length (reqs s) \<Longrightarrow> req_at (set_req i r s) i = Some r"
  by (simp add: req_at_def set_req_def)

lemma req_at_Some_length: "req_at s i = Some r \<Longrightarrow> i < length (reqs s)"
  by (simp add: req_at_def split: if_splits)

lemma upload_error_ekey:
  assumes "to_error c (atoi (body_in r)) = API_EKEY" "i < length (reqs s1)"
  shows "fst (upload_error c i r s1) = Continues"
    and "errorcount (snd (upload_error c i r s1)) = errorcount s1 + 1"
    and "lasterror (snd (upload_error c i r s1)) = API_EKEY"
    and "req_at (snd (upload_error c i r s1)) i = Some (r\<lparr>status := REQ_PREPARED\<rparr>)"
    and "events (snd (upload_error c i r s1)) = events s1 @ [SendEvent 99429]"
  using assms
  by (simp_all add: upload_error_def Let_def emit_def req_at_def set_req_def)

lemma upload_error_https:
  assumes "to_error c (atoi (body_in r)) \<noteq> API_EKEY"
    "to_error c (atoi (body_in r)) = DAEMON_EFAILED \<or>
       (str_contains (contenttype r) ''text/html'' \<and> is_http (posturl r))"
    "events s1 = events s"
  shows "fst (upload_error c i r s1) = Returns"
    and "usehttps (snd (upload_error c i r s1))"
    and "ends_with s (snd (upload_error c i r s1)) (Failed API_EAGAIN None)"
proof -
  let ?n = "[NotifyChangeToHttps] @
      (if to_error c (atoi (body_in r)) = DAEMON_EFAILED then [SendEvent 99440] else []) @
      [SendEvent 99436, Failed API_EAGAIN None]"
  show "fst (upload_error c i r s1) = Returns" "usehttps (snd (upload_error c i r s1))"
    using assms(1,2) by (auto simp: upload_error_def Let_def emit_def)
  have "events (snd (upload_error c i r s1)) = events s @ ?n"
    using assms by (auto simp: upload_error_def Let_def emit_def)
  then show "ends_with s (snd (upload_error c i r s1)) (Failed API_EAGAIN None)"
    by (rule ends_withI) simp_all
qed

lemma upload_error_other:
  assumes "to_error c (atoi (body_in r)) \<noteq> API_EKEY"
    "\<not> (to_error c (atoi (body_in r)) = DAEMON_EFAILED \<or>
       (str_contains (contenttype r) ''text/html'' \<and> is_http (posturl r)))"
    "events s1 = events s"
  shows "fst (upload_error c i r s1) = Returns"
    and "ends_with s (snd (upload_error c i r s1)) (Failed (to_error c (atoi (body_in r))) None)"
proof -
  show "fst (upload_error c i r s1) = Returns"
    using assms(1,2) by (auto simp: upload_error_def Let_def emit_def)
  have "events (snd (upload_error c i r s1)) = events s @ [Failed (to_error c (atoi (body_in r))) None]"
    using assms by (auto simp: upload_error_def Let_def emit_def)
  then show "ends_with s (snd (upload_error c i r s1)) (Failed (to_error c (atoi (body_in r))) None)"
    by (rule ends_withI) simp_all
qed



lemma put_success_token:
  assumes "req_at s i = Some r" "valid_token c (body_in r)"
    and "others = other_open_reqs i s (rev [0 ..< connections s])"
    and "s' = snd (put_success c i s)"
  shows "fst (put_success c i s) = Returns"
    and "ends_with s s' Complete"
    and "errorcount s' = 0"
    and "chunkmacs s' =
         cm_finishedUploadChunks c
           (foldl (cm_finishedUploadChunks c) (chunkmacs s) (map mChunkmacs others)) (mChunkmacs r)"
    and "progresscompleted s' = progresscompleted s + sum_list (map req_size others) + req_size r"
    and "filekey s' = make_filekey c (s\<lparr>chunkmacs := chunkmacs s'\<rparr>)"
proof -
  from put_success_valid [OF assms(1,2)]
  obtain t where t: "put_success c i s = finish_upload c i r (s\<lparr>lastdata := now c, ultoken := Some t\<rparr>)"
    by blast
  let ?s1 = "s\<lparr>lastdata := now c, ultoken := Some t\<rparr>"
  have s': "s' = snd (finish_upload c i r ?s1)" using assms(4) t by simp
  note f = finish_upload_fields [of ?s1 s others i s' c r, OF _ _ _ _ _ _ _ _ assms(3) s']
  show "fst (put_success c i s) = Returns" using f(1) t by simp
  show "ends_with s s' Complete" using f(6) by simp
  show "errorcount s' = 0" using f(2) by simp
  show "chunkmacs s' =
         cm_finishedUploadChunks c
           (foldl (cm_finishedUploadChunks c) (chunkmacs s) (map mChunkmacs others)) (mChunkmacs r)"
    using f(3) by simp
  show "progresscompleted s' = progresscompleted s + sum_list (map req_size others) + req_size r"
    using f(4) by simp
  show "filekey s' = make_filekey c (s\<lparr>chunkmacs := chunkmacs s'\<rparr>)" using f(5) by simp
qed

lemma put_success_error:
  assumes "req_at s i = Some r" "body_in r \<noteq> []" "\<not> valid_token c (body_in r)"
    and "s' = snd (put_success c i s)"
    and "e = to_error c (atoi (body_in r))"
  shows "if e = API_EKEY then
          fst (put_success c i s) = Continues \<and> errorcount s' = errorcount s + 1 \<and>
          lasterror s' = API_EKEY \<and> req_at s' i = Some (r\<lparr>status := REQ_PREPARED\<rparr>) \<and>
          events s' = events s @ [SendEvent 99429]
        else if e = DAEMON_EFAILED \<or>
                (str_contains (contenttype r) ''text/html'' \<and> is_http (posturl r)) then
          fst (put_success c i s) = Returns \<and> usehttps s' \<and>
          ends_with s s' (Failed API_EAGAIN None)
        else fst (put_success c i s) = Returns \<and> ends_with s s' (Failed e None)"
proof -
  from put_success_invalid [OF assms(1,2,3)]
  obtain s1 where s1: "put_success c i s = upload_error c i r s1" "events s1 = events s"
    "errorcount s1 = errorcount s" "reqs s1 = reqs s"
    by blast
  have s': "s' = snd (upload_error c i r s1)" using assms(4) s1(1) by simp
  from req_at_Some_length [OF assms(1)] s1(4) have i: "i < length (reqs s1)" by simp
  show ?thesis
  proof (cases "e = API_EKEY")
    case True
    then have "to_error c (atoi (body_in r)) = API_EKEY" using assms(5) by simp
    from upload_error_ekey [OF this i] True s1 s' show ?thesis by simp
  next
    case ne: False
    then have n: "to_error c (atoi (body_in r)) \<noteq> API_EKEY" using assms(5) by simp
    show ?thesis
    proof (cases "e = DAEMON_EFAILED \<or>
                (str_contains (contenttype r) ''text/html'' \<and> is_http (posturl r))")
      case True
      then have "to_error c (atoi (body_in r)) = DAEMON_EFAILED \<or>
         (str_contains (contenttype r) ''text/html'' \<and> is_http (posturl r))"
        using assms(5) by simp
      from upload_error_https [OF n this s1(2), of i] ne True s1(1) s' show ?thesis by simp
    next
      case False
      then have "\<not> (to_error c (atoi (body_in r)) = DAEMON_EFAILED \<or>
         (str_contains (contenttype r) ''text/html'' \<and> is_http (posturl r)))"
        using assms(5) by simp
      from upload_error_other [OF n this s1(2), of i] ne False s1(1) s' assms(5) show ?thesis by auto
    qed
  qed
qed

text \<open>The scenario, evaluated.\<close>

lemma valid_token36: "valid_token c token36"
  by (simp add: valid_token_def token36_def UPLOADTOKENLEN_def nth_append)

lemma put_slot_req: "req_at (put_slot b) 1 = Some (late_req b)"
  by (simp add: put_slot_def req_at_def)

lemma put_slot_others:
  "other_open_reqs 1 (put_slot b) (rev [0 ..< connections (put_slot b)]) = [early_req]"
  by (simp add: other_open_reqs_def put_slot_def req_at_def numeral_2_eq_2 still_open_def
      early_req_def late_req_def)

lemma put_slot_chunkmacs:
  "chunkmacs (snd (put_success toy_collab 1 (put_slot token36))) = [(0, [9], True), (100, [7], True)]"
proof -
  have v: "valid_token toy_collab (body_in (late_req token36))"
    by (simp add: late_req_def valid_token36)
  from put_success_token(4) [OF put_slot_req v put_slot_others [symmetric] refl]
  show ?thesis
    by (simp add: toy_collab_def toy_finishedUploadChunks_def put_slot_def fresh_slot_def
        early_req_def late_req_def)
qed

lemma put_slot_mac:
  "macsmac toy_collab (put_slot b) [(0, [9], True), (100, [7], True)] = 206"
  by (simp add: macsmac_def toy_collab_def toy_macsmac_def toy_macsmac_gaps_def toy_mac_step_def)

lemma put_slot_filekey:
  "filekey (snd (put_success toy_collab 1 (put_slot token36))) =
     [0, 0, 0, 0, 0, 0, 0, 0, 199, 10, 11, 12, 13, 14, 15, 16,
      1, 2, 3, 4, 5, 6, 7, 8, 206, 0, 0, 0, 0, 0, 0, 0]"
proof -
  let ?s = "put_slot token36"
  let ?s' = "snd (put_success toy_collab 1 ?s)"
  let ?t = "?s\<lparr>chunkmacs := [(0, [9], True), (100, [7], True)]\<rparr>"
  have v: "valid_token toy_collab (body_in (late_req token36))"
    by (simp add: late_req_def valid_token36)
  from put_success_token(6) [OF put_slot_req v put_slot_others [symmetric] refl]
  have "filekey ?s' = make_filekey toy_collab ?t"
    by (simp only: put_slot_chunkmacs)
  moreover have "length (transferkey ?t) = 16" "length (filekey ?t) = 32"
    by (simp_all add: put_slot_def fresh_slot_def)
  moreover have "macsmac toy_collab ?t (chunkmacs ?t) = 206"
    by (simp add: macsmac_def toy_collab_def toy_macsmac_def toy_macsmac_gaps_def toy_mac_step_def)
  moreover have "transferkey ?t = [1, 2, 3, 4, 5, 6, 7, 8, 9, 10, 11, 12, 13, 14, 15, 16]"
    "ctriv ?t = 0x0807060504030201"
    by (simp_all add: put_slot_def)
  ultimately show ?thesis
    by (simp add: make_filekey_layout bytes_of_int64_def drop_bit_eq_div)
qed

text \<open>
  C3 (as amended). For an upload connection \<open>i\<close> in state \<open>SUCCESS\<close> whose response body is
  not empty: if the body is a valid upload token (36 bytes; its last byte is 1, or it
  decodes from base64 to 27 bytes), the transfer takes the completion path: \<open>errorcount\<close>
  is 0, the chunk MACs of every other connection that has a request in state \<open>INFLIGHT\<close>,
  \<open>SUCCESS\<close> or \<open>FAILURE\<close> are merged by \<open>finishedUploadChunks\<close> and their sizes are added
  to \<open>progresscompleted\<close>, then those of connection \<open>i\<close>, the file key is computed from
  the merged map, and the transfer completes. Otherwise the body is read as an error
  number \<open>e\<close>: \<open>API_EKEY\<close> only increments \<open>errorcount\<close> and re-arms the request as
  \<open>PREPARED\<close>; \<open>DAEMON_EFAILED\<close>, or a \<open>text/html\<close> reply on an \<open>http:\<close> URL, switches the
  client to HTTPS and fails the transfer with \<open>API_EAGAIN\<close>; any other \<open>e\<close> fails the
  transfer with \<open>e\<close>.
\<close>

theorem put_success_with_body:
  assumes "req_at s i = Some r" "body_in r \<noteq> []"
    and "others = other_open_reqs i s (rev [0 ..< connections s])"
    and "s' = snd (put_success c i s)"
    and "e = to_error c (atoi (body_in r))"
  shows
   "(valid_token c (body_in r) \<longrightarrow>
       fst (put_success c i s) = Returns \<and> ends_with s s' Complete \<and> errorcount s' = 0 \<and>
       chunkmacs s' =
         cm_finishedUploadChunks c
           (foldl (cm_finishedUploadChunks c) (chunkmacs s) (map mChunkmacs others)) (mChunkmacs r) \<and>
       progresscompleted s' = progresscompleted s + sum_list (map req_size others) + req_size r \<and>
       filekey s' = make_filekey c (s\<lparr>chunkmacs := chunkmacs s'\<rparr>)) \<and>
    (\<not> valid_token c (body_in r) \<longrightarrow>
       (if e = API_EKEY then
          fst (put_success c i s) = Continues \<and> errorcount s' = errorcount s + 1 \<and>
          lasterror s' = API_EKEY \<and> req_at s' i = Some (r\<lparr>status := REQ_PREPARED\<rparr>) \<and>
          events s' = events s @ [SendEvent 99429]
        else if e = DAEMON_EFAILED \<or>
                (str_contains (contenttype r) ''text/html'' \<and> is_http (posturl r)) then
          fst (put_success c i s) = Returns \<and> usehttps s' \<and>
          ends_with s s' (Failed API_EAGAIN None)
        else fst (put_success c i s) = Returns \<and> ends_with s s' (Failed e None)))"
  using put_success_token [OF assms(1) _ assms(3,4)]
    put_success_error [OF assms(1,2) _ assms(4,5)]
  by blast

theorem put_success_with_body_witness:
  "req_at (put_slot token36) 1 = Some (late_req token36) \<and> body_in (late_req token36) \<noteq> [] \<and>
   valid_token toy_collab (body_in (late_req token36)) \<and>
   other_open_reqs 1 (put_slot token36) (rev [0 ..< connections (put_slot token36)]) = [early_req] \<and>
   fst (put_success toy_collab 1 (put_slot token36)) = Returns \<and>
   ends_with (put_slot token36) (snd (put_success toy_collab 1 (put_slot token36))) Complete \<and>
   chunkmacs (snd (put_success toy_collab 1 (put_slot token36))) = [(0, [9], True), (100, [7], True)] \<and>
   progresscompleted (snd (put_success toy_collab 1 (put_slot token36))) = 150 \<and>
   req_at (put_slot ''-9'') 1 = Some (late_req ''-9'') \<and> body_in (late_req ''-9'') \<noteq> [] \<and>
   \<not> valid_token toy_collab (body_in (late_req ''-9'')) \<and>
   to_error toy_collab (atoi (body_in (late_req ''-9''))) = API_OTHER (- 9) \<and>
   ends_with (put_slot ''-9'') (snd (put_success toy_collab 1 (put_slot ''-9''))) (Failed (API_OTHER (- 9)) None)"
proof -
  have b: "body_in (late_req token36) \<noteq> []" "body_in (late_req ''-9'') \<noteq> []"
    by (simp_all add: late_req_def token36_def)
  have v: "valid_token toy_collab (body_in (late_req token36))"
    by (simp add: late_req_def valid_token36)
  have n: "\<not> valid_token toy_collab (body_in (late_req ''-9''))"
    by (simp add: late_req_def valid_token_def UPLOADTOKENLEN_def)
  have e: "to_error toy_collab (atoi (body_in (late_req ''-9''))) = API_OTHER (- 9)"
    by (simp add: late_req_def toy_collab_def toy_to_error_def atoi_def c_str_def isspace_def
        digits_value_def isdigit_def)
  have h: "\<not> str_contains (contenttype (late_req ''-9'')) ''text/html''"
    by (simp add: late_req_def str_contains_def)
  note t = put_success_with_body [OF put_slot_req b(1) put_slot_others [symmetric] refl refl,
      of toy_collab]
  note u = put_success_with_body [OF put_slot_req b(2) put_slot_others [symmetric] refl refl,
      of toy_collab]
  from t v have "fst (put_success toy_collab 1 (put_slot token36)) = Returns"
    "ends_with (put_slot token36) (snd (put_success toy_collab 1 (put_slot token36))) Complete"
    "progresscompleted (snd (put_success toy_collab 1 (put_slot token36))) =
       progresscompleted (put_slot token36) + sum_list (map req_size [early_req]) + req_size (late_req token36)"
    by simp_all
  moreover have "progresscompleted (put_slot token36) + sum_list (map req_size [early_req]) +
      req_size (late_req token36) = 150"
    by (simp add: put_slot_def fresh_slot_def early_req_def late_req_def)
  moreover from u n e h
  have "ends_with (put_slot ''-9'') (snd (put_success toy_collab 1 (put_slot ''-9'')))
      (Failed (API_OTHER (- 9)) None)"
    by simp
  ultimately show ?thesis
    using put_slot_req b v n e put_slot_others put_slot_chunkmacs by simp
qed

text \<open>C3 as stated fails: the reply \<open>-4\<close> is not a token and does not read as \<open>EKEY\<close>, yet
  the transfer does not fail with the error that \<open>-4\<close> maps to but with \<open>API_EAGAIN\<close>.\<close>

theorem put_success_daemon_efailed_counterexample:
  "req_at (put_slot ''-4'') 1 = Some (late_req ''-4'') \<and> body_in (late_req ''-4'') \<noteq> [] \<and>
   \<not> valid_token toy_collab (body_in (late_req ''-4'')) \<and>
   to_error toy_collab (atoi (body_in (late_req ''-4''))) = DAEMON_EFAILED \<and>
   ends_with (put_slot ''-4'') (snd (put_success toy_collab 1 (put_slot ''-4''))) (Failed API_EAGAIN None) \<and>
   \<not> ends_with (put_slot ''-4'') (snd (put_success toy_collab 1 (put_slot ''-4'')))
        (Failed (to_error toy_collab (atoi (body_in (late_req ''-4'')))) None)"
proof -
  have b: "body_in (late_req ''-4'') \<noteq> []"
    by (simp add: late_req_def)
  have n: "\<not> valid_token toy_collab (body_in (late_req ''-4''))"
    by (simp add: late_req_def valid_token_def UPLOADTOKENLEN_def)
  have e: "to_error toy_collab (atoi (body_in (late_req ''-4''))) = DAEMON_EFAILED"
    by (simp add: late_req_def toy_collab_def toy_to_error_def atoi_def c_str_def isspace_def
        digits_value_def isdigit_def)
  from put_success_error [OF put_slot_req b n refl refl] e
  have w: "ends_with (put_slot ''-4'') (snd (put_success toy_collab 1 (put_slot ''-4'')))
      (Failed API_EAGAIN None)"
    by simp
  then have "\<not> ends_with (put_slot ''-4'') (snd (put_success toy_collab 1 (put_slot ''-4'')))
      (Failed DAEMON_EFAILED None)"
    by (auto simp: ends_with_def Let_def)
  with put_slot_req b n e w show ?thesis by simp
qed

text \<open>
  C2 (as amended). When the upload token is accepted, the 32-byte file key is assembled
  as \<open>K\<close>: bytes \<open>[0, 16)\<close> are the transfer key, bytes \<open>[16, 24)\<close> hold \<open>ctriv\<close>, bytes
  \<open>[24, 32)\<close> hold the MAC of MACs of the transfer's (merged) \<open>chunkmacs\<close>; then
  \<open>xorblock\<close> XORs the second half into the first half, so that the key with which the
  transfer completes has \<open>transferkey XOR (ctriv, mac)\<close> in bytes \<open>[0, 16)\<close> and \<open>ctriv\<close> and
  the MAC in the clear in bytes \<open>[16, 32)\<close>.
\<close>

theorem put_success_filekey:
  assumes "req_at s i = Some r" "valid_token c (body_in r)"
    and "length (transferkey s) = 16" "length (filekey s) = 32"
    and "s' = snd (put_success c i s)"
    and "M = macsmac c s (chunkmacs s')"
    and "K = transferkey s @ bytes_of_int64 (ctriv s) @ bytes_of_int64 M"
  shows "filekey s' = mem_write K 0 (xorblock (drop 16 K) K) \<and>
         take 16 (filekey s') = map2 (XOR) (transferkey s) (bytes_of_int64 (ctriv s) @ bytes_of_int64 M) \<and>
         take 8 (drop 16 (filekey s')) = bytes_of_int64 (ctriv s) \<and>
         drop 24 (filekey s') = bytes_of_int64 M \<and>
         ends_with s s' Complete"
proof -
  let ?t = "s\<lparr>chunkmacs := chunkmacs s'\<rparr>"
  note f = put_success_token [OF assms(1,2) refl assms(5)]
  have l: "length (transferkey ?t) = 16" "length (filekey ?t) = 32"
    using assms(3,4) by simp_all
  have m: "macsmac c ?t (chunkmacs ?t) = M"
    using assms(6) by (simp add: macsmac_def)
  have a: "filekey s' = mem_write K 0 (xorblock (drop 16 K) K)"
    using f(6) make_filekey_assembled [OF l, of c] m assms(7) by (simp add: Let_def)
  have b: "filekey s' =
      map2 (XOR) (transferkey s) (bytes_of_int64 (ctriv s) @ bytes_of_int64 M)
      @ bytes_of_int64 (ctriv s) @ bytes_of_int64 M"
    using f(6) make_filekey_layout [OF l, of c] m by simp
  have "take 16 (filekey s') = map2 (XOR) (transferkey s) (bytes_of_int64 (ctriv s) @ bytes_of_int64 M)"
    "take 8 (drop 16 (filekey s')) = bytes_of_int64 (ctriv s)"
    "drop 24 (filekey s') = bytes_of_int64 M"
    using assms(3) by (simp_all add: b length_bytes_of_int64)
  with a f(2) show ?thesis by blast
qed

theorem put_success_filekey_witness:
  "req_at (put_slot token36) 1 = Some (late_req token36) \<and>
   valid_token toy_collab (body_in (late_req token36)) \<and>
   length (transferkey (put_slot token36)) = 16 \<and> length (filekey (put_slot token36)) = 32 \<and>
   macsmac toy_collab (put_slot token36)
     (chunkmacs (snd (put_success toy_collab 1 (put_slot token36)))) = 206 \<and>
   take 8 (drop 16 (filekey (snd (put_success toy_collab 1 (put_slot token36))))) =
     [1, 2, 3, 4, 5, 6, 7, 8] \<and>
   drop 24 (filekey (snd (put_success toy_collab 1 (put_slot token36)))) =
     [206, 0, 0, 0, 0, 0, 0, 0] \<and>
   ends_with (put_slot token36) (snd (put_success toy_collab 1 (put_slot token36))) Complete"
proof -
  have v: "valid_token toy_collab (body_in (late_req token36))"
    by (simp add: late_req_def valid_token36)
  have l: "length (transferkey (put_slot token36)) = 16" "length (filekey (put_slot token36)) = 32"
    by (simp_all add: put_slot_def fresh_slot_def)
  have m: "macsmac toy_collab (put_slot token36)
     (chunkmacs (snd (put_success toy_collab 1 (put_slot token36)))) = 206"
    by (simp only: put_slot_chunkmacs put_slot_mac)
  have c: "bytes_of_int64 (ctriv (put_slot token36)) = [1, 2, 3, 4, 5, 6, 7, 8]"
    "bytes_of_int64 (206 :: 64 word) = [206, 0, 0, 0, 0, 0, 0, 0]"
    by (simp_all add: put_slot_def bytes_of_int64_def drop_bit_eq_div)
  from put_success_filekey [OF put_slot_req v l refl refl refl]
  have "take 8 (drop 16 (filekey (snd (put_success toy_collab 1 (put_slot token36))))) =
      bytes_of_int64 (ctriv (put_slot token36))"
    "drop 24 (filekey (snd (put_success toy_collab 1 (put_slot token36)))) =
      bytes_of_int64 (macsmac toy_collab (put_slot token36)
        (chunkmacs (snd (put_success toy_collab 1 (put_slot token36)))))"
    "ends_with (put_slot token36) (snd (put_success toy_collab 1 (put_slot token36))) Complete"
    by blast+
  with m c put_slot_req v l show ?thesis by simp
qed

text \<open>C2 as stated fails: the transfer completes with a key whose first half is not the
  transfer key, and whose second half holds \<open>ctriv\<close> and the MAC in the clear and not XORed
  with the first half.\<close>

theorem put_success_filekey_counterexample:
  "filekey (snd (put_success toy_collab 1 (put_slot token36))) =
     [0, 0, 0, 0, 0, 0, 0, 0, 199, 10, 11, 12, 13, 14, 15, 16,
      1, 2, 3, 4, 5, 6, 7, 8, 206, 0, 0, 0, 0, 0, 0, 0] \<and>
   take 16 (filekey (snd (put_success toy_collab 1 (put_slot token36)))) \<noteq> transferkey (put_slot token36) \<and>
   drop 16 (filekey (snd (put_success toy_collab 1 (put_slot token36)))) \<noteq>
     map2 (XOR) [1, 2, 3, 4, 5, 6, 7, 8, 206, 0, 0, 0, 0, 0, 0, 0] (transferkey (put_slot token36))"
proof -
  have t: "transferkey (put_slot token36) = [1, 2, 3, 4, 5, 6, 7, 8, 9, 10, 11, 12, 13, 14, 15, 16]"
    by (simp add: put_slot_def)
  show ?thesis unfolding put_slot_filekey t by simp
qed




subsection \<open>A failed request\<close>


lemma req_failure_html:
  assumes "req_at s i = Some r"
    "httpstatus r \<noteq> 0 \<and> str_contains (contenttype r) ''text/html'' \<and> is_http (posturl r)"
  shows "fst (req_failure c i s) = Returns"
    and "usehttps (snd (req_failure c i s))"
    and "ends_with s (snd (req_failure c i s)) (Failed API_EAGAIN None)"
proof -
  show "fst (req_failure c i s) = Returns" "usehttps (snd (req_failure c i s))"
    using assms by (simp_all add: req_failure_def emit_def)
  have "events (snd (req_failure c i s)) =
      events s @ [NotifyChangeToHttps, SendEvent 99436, Failed API_EAGAIN None]"
    using assms by (simp add: req_failure_def emit_def)
  then show "ends_with s (snd (req_failure c i s)) (Failed API_EAGAIN None)"
    by (rule ends_withI) simp_all
qed

lemma req_failure_509:
  assumes "req_at s i = Some r"
    "\<not> (httpstatus r \<noteq> 0 \<and> str_contains (contenttype r) ''text/html'' \<and> is_http (posturl r))"
    "httpstatus r = 509"
    "b = (if timeleft r > 0 then to_dstime c (timeleft r * 10)
          else to_dstime c (DEFAULT_BW_OVERQUOTA_BACKOFF_SECS c * 10))"
  shows "fst (req_failure c i s) = Returns"
    and "ends_with s (snd (req_failure c i s)) (Failed API_EOVERQUOTA (Some b))"
proof -
  show "fst (req_failure c i s) = Returns"
    using assms(1-3) by (simp add: req_failure_def Let_def)
  have "events (snd (req_failure c i s)) =
      events s @ (if timeleft r < 0 then [SendEvent 99408] else []) @ [Failed API_EOVERQUOTA (Some b)]"
    using assms by (simp add: req_failure_def Let_def emit_def)
  then show "ends_with s (snd (req_failure c i s)) (Failed API_EOVERQUOTA (Some b))"
    by (rule ends_withI) simp_all
qed

lemma req_failure_rearm:
  assumes "req_at s i = Some r"
    "\<not> (httpstatus r \<noteq> 0 \<and> str_contains (contenttype r) ''text/html'' \<and> is_http (posturl r))"
    "httpstatus r = 429 \<or> (httpstatus r = 503 \<and> \<not> israid s)"
  shows "req_failure c i s =
     (Continues, set_req i (r\<lparr>status := REQ_PREPARED\<rparr>)
        (s\<lparr>doio_backoff := (if httpstatus r = 429 then 5 else 50)\<rparr>))"
  using assms by (auto simp: req_failure_def)

lemma tryRaid_fst:
  "fst (tryRaidRecoveryFromHttpGetError c i s) = (israid s \<and> raid_recovery c i)"
  by (simp add: tryRaidRecoveryFromHttpGetError_def Let_def)

lemma tryRaid_events: "events (snd (tryRaidRecoveryFromHttpGetError c i s)) = events s"
  by (simp add: tryRaidRecoveryFromHttpGetError_def Let_def set_req_def split: option.splits)

lemma tryRaid_fail: "\<not> (israid s \<and> raid_recovery c i) \<Longrightarrow> tryRaidRecoveryFromHttpGetError c i s = (False, s)"
  by (auto simp: tryRaidRecoveryFromHttpGetError_def)

lemma wake_done_ready: "status r = REQ_READY \<Longrightarrow> wake_done (Some r) = Some r"
  by (simp add: wake_done_def)

lemma tryRaid_ready:
  assumes "req_at s i = Some r" "israid s" "raid_recovery c i"
  shows "req_at (snd (tryRaidRecoveryFromHttpGetError c i s)) i = Some (r\<lparr>status := REQ_READY\<rparr>)"
  using assms
  by (auto simp: tryRaidRecoveryFromHttpGetError_def Let_def req_at_def set_req_def wake_done_def
      split: if_splits)

lemma req_failure_recovery:
  assumes "req_at s i = Some r"
    "\<not> (httpstatus r \<noteq> 0 \<and> str_contains (contenttype r) ''text/html'' \<and> is_http (posturl r))"
    "httpstatus r = 403 \<or> httpstatus r = 404 \<or> (httpstatus r = 503 \<and> israid s)"
  shows "req_failure c i s =
     (if israid s \<and> raid_recovery c i
      then (Continues, snd (tryRaidRecoveryFromHttpGetError c i s))
      else (Returns, emit (Failed API_EAGAIN None) s))"
proof (cases "israid s \<and> raid_recovery c i")
  case True
  then have "fst (tryRaidRecoveryFromHttpGetError c i s)" by (simp add: tryRaid_fst)
  then obtain s1 where s1: "tryRaidRecoveryFromHttpGetError c i s = (True, s1)"
    by (cases "tryRaidRecoveryFromHttpGetError c i s") simp
  from assms(3) have n: "httpstatus r \<noteq> 509" "httpstatus r \<noteq> 429" by auto
  have "req_failure c i s = (Continues, s1)"
    using assms n True by (subst req_failure_def) (auto simp: s1)
  with True s1 show ?thesis by simp
next
  case False
  then have f: "tryRaidRecoveryFromHttpGetError c i s = (False, s)" by (rule tryRaid_fail)
  from assms(3) have n: "httpstatus r \<noteq> 509" "httpstatus r \<noteq> 429" by auto
  have "req_failure c i s = (Returns, emit (Failed API_EAGAIN None) s)"
    using assms n False by (subst req_failure_def) (auto simp: f)
  with False show ?thesis by simp
qed



lemma get_slot_req: "req_at (get_slot r) 0 = Some r"
  by (simp add: get_slot_def req_at_def)

lemma failed_req_plain:
  "\<not> str_contains (contenttype (failed_req st [] left)) ''text/html''"
  by (simp add: failed_req_def str_contains_def)

lemma failed_req_html:
  "httpstatus (failed_req 509 ''text/html'' left) \<noteq> 0 \<and>
   str_contains (contenttype (failed_req 509 ''text/html'' left)) ''text/html'' \<and>
   is_http (posturl (failed_req 509 ''text/html'' left))"
  by (simp add: failed_req_def str_contains_def is_http_def)

text \<open>
  C6 (as amended). For a request in state \<open>FAILURE\<close>: when the reply has an HTTP status,
  a \<open>text/html\<close> content type and an \<open>http:\<close> URL, the client switches to HTTPS and the
  transfer fails with \<open>API_EAGAIN\<close>, whatever the status. Otherwise: status 509 fails the
  transfer with \<open>API_EOVERQUOTA\<close> and a backoff of \<open>timeleft * 10\<close> deciseconds when
  \<open>timeleft > 0\<close>, of the client default otherwise; status 429 re-arms the request as
  \<open>PREPARED\<close> with a backoff of 5 deciseconds; status 503 on a non-RAID transfer re-arms
  it as \<open>PREPARED\<close> with a backoff of 50 deciseconds; statuses 403, 404 and 503 on RAID try
  the RAID recovery, which makes the request \<open>READY\<close> again, and fail the transfer with
  \<open>API_EAGAIN\<close> when the recovery is not possible.
\<close>

theorem req_failure_statuses:
  assumes "req_at s i = Some r" and "s' = snd (req_failure c i s)"
  shows
   "(httpstatus r \<noteq> 0 \<and> str_contains (contenttype r) ''text/html'' \<and> is_http (posturl r) \<longrightarrow>
       fst (req_failure c i s) = Returns \<and> usehttps s' \<and> ends_with s s' (Failed API_EAGAIN None)) \<and>
    (\<not> (httpstatus r \<noteq> 0 \<and> str_contains (contenttype r) ''text/html'' \<and> is_http (posturl r)) \<longrightarrow>
       (httpstatus r = 509 \<longrightarrow>
          fst (req_failure c i s) = Returns \<and>
          ends_with s s'
            (Failed API_EOVERQUOTA
               (Some (if timeleft r > 0 then to_dstime c (timeleft r * 10)
                      else to_dstime c (DEFAULT_BW_OVERQUOTA_BACKOFF_SECS c * 10))))) \<and>
       (httpstatus r = 429 \<longrightarrow>
          fst (req_failure c i s) = Continues \<and> req_at s' i = Some (r\<lparr>status := REQ_PREPARED\<rparr>) \<and>
          doio_backoff s' = 5 \<and> events s' = events s) \<and>
       (httpstatus r = 503 \<and> \<not> israid s \<longrightarrow>
          fst (req_failure c i s) = Continues \<and> req_at s' i = Some (r\<lparr>status := REQ_PREPARED\<rparr>) \<and>
          doio_backoff s' = 50 \<and> events s' = events s) \<and>
       (httpstatus r = 403 \<or> httpstatus r = 404 \<or> (httpstatus r = 503 \<and> israid s) \<longrightarrow>
          (if israid s \<and> raid_recovery c i
           then fst (req_failure c i s) = Continues \<and>
                req_at s' i = Some (r\<lparr>status := REQ_READY\<rparr>) \<and> events s' = events s
           else fst (req_failure c i s) = Returns \<and> ends_with s s' (Failed API_EAGAIN None))))"
proof (intro conjI impI)
  assume h: "httpstatus r \<noteq> 0 \<and> str_contains (contenttype r) ''text/html'' \<and> is_http (posturl r)"
  from req_failure_html [OF assms(1) h, of c] assms(2)
  show "fst (req_failure c i s) = Returns" "usehttps s'" "ends_with s s' (Failed API_EAGAIN None)"
    by simp_all
next
  assume n: "\<not> (httpstatus r \<noteq> 0 \<and> str_contains (contenttype r) ''text/html'' \<and> is_http (posturl r))"
  assume st: "httpstatus r = 509"
  from req_failure_509 [OF assms(1) n st refl, of c] assms(2)
  show "fst (req_failure c i s) = Returns"
    "ends_with s s'
            (Failed API_EOVERQUOTA
               (Some (if timeleft r > 0 then to_dstime c (timeleft r * 10)
                      else to_dstime c (DEFAULT_BW_OVERQUOTA_BACKOFF_SECS c * 10))))"
    by simp_all
next
  assume n: "\<not> (httpstatus r \<noteq> 0 \<and> str_contains (contenttype r) ''text/html'' \<and> is_http (posturl r))"
  assume st: "httpstatus r = 429"
  from req_at_Some_length [OF assms(1)] have i: "i < length (reqs s)" .
  from st have "httpstatus r = 429 \<or> (httpstatus r = 503 \<and> \<not> israid s)" by simp
  from req_failure_rearm [OF assms(1) n this, of c] assms(2) st i
  show "fst (req_failure c i s) = Continues" "req_at s' i = Some (r\<lparr>status := REQ_PREPARED\<rparr>)"
    "doio_backoff s' = 5" "events s' = events s"
    by (simp_all add: req_at_def set_req_def)
next
  assume n: "\<not> (httpstatus r \<noteq> 0 \<and> str_contains (contenttype r) ''text/html'' \<and> is_http (posturl r))"
  assume st: "httpstatus r = 503 \<and> \<not> israid s"
  from req_at_Some_length [OF assms(1)] have i: "i < length (reqs s)" .
  from st have "httpstatus r = 429 \<or> (httpstatus r = 503 \<and> \<not> israid s)" by simp
  from req_failure_rearm [OF assms(1) n this, of c] assms(2) st i
  show "fst (req_failure c i s) = Continues" "req_at s' i = Some (r\<lparr>status := REQ_PREPARED\<rparr>)"
    "doio_backoff s' = 50" "events s' = events s"
    by (simp_all add: req_at_def set_req_def)
next
  assume n: "\<not> (httpstatus r \<noteq> 0 \<and> str_contains (contenttype r) ''text/html'' \<and> is_http (posturl r))"
  assume st: "httpstatus r = 403 \<or> httpstatus r = 404 \<or> (httpstatus r = 503 \<and> israid s)"
  note e = req_failure_recovery [OF assms(1) n st, of c]
  show "if israid s \<and> raid_recovery c i
           then fst (req_failure c i s) = Continues \<and>
                req_at s' i = Some (r\<lparr>status := REQ_READY\<rparr>) \<and> events s' = events s
           else fst (req_failure c i s) = Returns \<and> ends_with s s' (Failed API_EAGAIN None)"
  proof (cases "israid s \<and> raid_recovery c i")
    case True
    with e assms(2) tryRaid_ready [OF assms(1), of c] tryRaid_events [of c i s]
    show ?thesis by simp
  next
    case False
    with e assms(2) have s': "s' = emit (Failed API_EAGAIN None) s" by simp
    have "events s' = events s @ [Failed API_EAGAIN None]" by (simp add: s' emit_def)
    then have "ends_with s s' (Failed API_EAGAIN None)" by (rule ends_withI) simp_all
    with False e show ?thesis by auto
  qed
qed

theorem req_failure_statuses_witness:
  "req_at (get_slot (failed_req 509 [] 30)) 0 = Some (failed_req 509 [] 30) \<and>
   httpstatus (failed_req 509 [] 30) = 509 \<and> timeleft (failed_req 509 [] 30) > 0 \<and>
   to_dstime toy_collab (timeleft (failed_req 509 [] 30) * 10) = 300 \<and>
   ends_with (get_slot (failed_req 509 [] 30))
     (snd (req_failure toy_collab 0 (get_slot (failed_req 509 [] 30))))
     (Failed API_EOVERQUOTA (Some 300)) \<and>
   req_at (get_slot (failed_req 429 [] 0)) 0 = Some (failed_req 429 [] 0) \<and>
   httpstatus (failed_req 429 [] 0) = 429 \<and>
   doio_backoff (snd (req_failure toy_collab 0 (get_slot (failed_req 429 [] 0)))) = 5 \<and>
   req_at (get_slot (failed_req 404 [] 0)) 0 = Some (failed_req 404 [] 0) \<and>
   httpstatus (failed_req 404 [] 0) = 404 \<and> \<not> israid (get_slot (failed_req 404 [] 0)) \<and>
   ends_with (get_slot (failed_req 404 [] 0))
     (snd (req_failure toy_collab 0 (get_slot (failed_req 404 [] 0))))
     (Failed API_EAGAIN None)"
proof -
  have a: "httpstatus (failed_req 509 [] 30) = 509" "timeleft (failed_req 509 [] 30) > 0"
    "to_dstime toy_collab (timeleft (failed_req 509 [] 30) * 10) = 300"
    "httpstatus (failed_req 429 [] 0) = 429" "httpstatus (failed_req 404 [] 0) = 404"
    "\<not> israid (get_slot (failed_req 404 [] 0))"
    by (simp_all add: failed_req_def toy_collab_def toy_to_dstime_def get_slot_def fresh_slot_def)
  from req_failure_statuses [OF get_slot_req refl, of "failed_req 509 [] 30" toy_collab]
    req_failure_statuses [OF get_slot_req refl, of "failed_req 429 [] 0" toy_collab]
    req_failure_statuses [OF get_slot_req refl, of "failed_req 404 [] 0" toy_collab]
    failed_req_plain a get_slot_req
  show ?thesis by simp
qed

text \<open>C6 as stated fails: a reply with status 509 that carries a \<open>text/html\<close> body over
  \<open>http:\<close> does not fail the transfer with \<open>API_EOVERQUOTA\<close> but with \<open>API_EAGAIN\<close>.\<close>

theorem req_failure_509_html_counterexample:
  "req_at (get_slot (failed_req 509 ''text/html'' 30)) 0 = Some (failed_req 509 ''text/html'' 30) \<and>
   status (failed_req 509 ''text/html'' 30) = REQ_FAILURE \<and>
   httpstatus (failed_req 509 ''text/html'' 30) = 509 \<and>
   ends_with (get_slot (failed_req 509 ''text/html'' 30))
     (snd (req_failure toy_collab 0 (get_slot (failed_req 509 ''text/html'' 30))))
     (Failed API_EAGAIN None) \<and>
   \<not> ends_with (get_slot (failed_req 509 ''text/html'' 30))
     (snd (req_failure toy_collab 0 (get_slot (failed_req 509 ''text/html'' 30))))
     (Failed API_EOVERQUOTA (Some 300))"
proof -
  from req_failure_html(3) [OF get_slot_req failed_req_html]
  have w: "ends_with (get_slot (failed_req 509 ''text/html'' 30))
     (snd (req_failure toy_collab 0 (get_slot (failed_req 509 ''text/html'' 30))))
     (Failed API_EAGAIN None)" .
  then have "\<not> ends_with (get_slot (failed_req 509 ''text/html'' 30))
     (snd (req_failure toy_collab 0 (get_slot (failed_req 509 ''text/html'' 30))))
     (Failed API_EOVERQUOTA (Some 300))"
    by (auto simp: ends_with_def Let_def)
  with w get_slot_req show ?thesis by (simp add: failed_req_def)
qed



subsection \<open>The error count\<close>


lemma createconnectionsonce_fst:
  "fst (createconnectionsonce s) \<longleftrightarrow>
     tempurls s \<noteq> [] \<or> connections s \<noteq> 0 \<or> reqs s \<noteq> [] \<or> asyncIO s \<noteq> None"
  by (auto simp: createconnectionsonce_def Let_def)

lemma createconnectionsonce_keeps:
  "errorcount (snd (createconnectionsonce s)) = errorcount s"
  "lasterror (snd (createconnectionsonce s)) = lasterror s"
  "events (snd (createconnectionsonce s)) = events s"
  by (simp_all add: createconnectionsonce_def Let_def)

lemma doio_head_errors:
  assumes "fa_open s" "\<not> (xfer_size s \<noteq> 0 \<and> progresscompleted s = xfer_size s)"
    "\<not> (xfer_type s = PUT \<and> ultoken s \<noteq> None)"
    "tempurls s \<noteq> [] \<or> connections s \<noteq> 0 \<or> reqs s \<noteq> [] \<or> asyncIO s \<noteq> None"
  shows "fst (doio_head c s) = (if errorcount s > 4 then Returns else Continues)"
    and "events (snd (doio_head c s)) =
           events s @ [RetryReset] @ (if errorcount s > 4 then [Failed (lasterror s) None] else [])"
proof -
  let ?s1 = "emit RetryReset (s\<lparr>retrying := False\<rparr>)"
  have f: "fst (createconnectionsonce ?s1)"
    using assms(4) by (simp add: createconnectionsonce_fst emit_def)
  then obtain s2 where s2: "createconnectionsonce ?s1 = (True, s2)"
    by (cases "createconnectionsonce ?s1") simp
  from createconnectionsonce_keeps [of ?s1] s2
  have k: "errorcount s2 = errorcount s" "lasterror s2 = lasterror s"
    "events s2 = events s @ [RetryReset]"
    by (simp_all add: emit_def)
  have d: "doio_head c s =
     (let s3 = s2\<lparr>doio_backoff := 0, doio_p := 0\<rparr>
      in if errorcount s3 > 4 then (Returns, emit (Failed (lasterror s3) None) s3)
         else (Continues, s3))"
    using assms(1-3) by (cases "xfer_type s") (auto simp: doio_head_def s2)
  show "fst (doio_head c s) = (if errorcount s > 4 then Returns else Continues)"
    using k by (simp add: d Let_def)
  show "events (snd (doio_head c s)) =
           events s @ [RetryReset] @ (if errorcount s > 4 then [Failed (lasterror s) None] else [])"
    using k by (simp add: d Let_def emit_def)
qed

lemma checkMeta_errorcount:
  "checkMetaMacWithMissingLateEntries c s = (a, t) \<Longrightarrow> errorcount t = errorcount s"
  using checkMeta_snd [of c s] by (auto split: if_splits)

lemma cdtf_errorcount: "errorcount (snd (checkDownloadTransferFinished c s)) = errorcount s"
  by (auto simp: checkDownloadTransferFinished_def Let_def download_verified_def
      download_mac_failed_def emit_def split: prod.splits dest: checkMeta_errorcount)

lemma chunk_written_errorcount: "errorcount (snd (chunk_written c i s)) = 0"
  by (simp add: chunk_written_def cdtf_errorcount buffer_write_completed_def split: prod.splits)

lemma req_decrypted_errorcount:
  assumes "req_at s i = Some r" "\<not> asyncavailable c" "fwrite_ok c"
  shows "errorcount (snd (req_decrypted c i s)) = 0"
proof -
  obtain fin s1 where w: "chunk_written c i s = (fin, s1)"
    by (cases "chunk_written c i s")
  with chunk_written_errorcount [of c i s] have "errorcount s1 = 0" by simp
  then show ?thesis
    using assms w by (simp add: req_decrypted_def set_req_def emit_def split: prod.splits)
qed

lemma req_asyncio_errorcount:
  assumes "req_at s i = Some r" "aio_at s i = Some a" "xfer_type s = GET" "finished a" "\<not> failed a"
  shows "errorcount (snd (req_asyncio c i s)) = 0"
proof -
  obtain fin s1 where w: "chunk_written c i s = (fin, s1)"
    by (cases "chunk_written c i s")
  with chunk_written_errorcount [of c i s] have "errorcount s1 = 0" by simp
  then show ?thesis
    using assms w by (simp add: req_asyncio_def set_req_def set_aio_def emit_def Let_def)
qed



lemma fresh_slot_errorcount: "errorcount (fresh_slot sz) = 0"
  by (simp add: fresh_slot_def)

text \<open>The upload error that is counted (line 696) leaves the file handle, the progress, the
  upload token and the connections as they are: the next tick gets to the test of
  \<open>errorcount\<close> as this one did.\<close>

lemma upload_error_counted:
  assumes "to_error c (atoi (body_in r)) = API_EKEY"
  shows "fst (upload_error c i r s) = Continues"
    and "errorcount (snd (upload_error c i r s)) = errorcount s + 1"
    and "lasterror (snd (upload_error c i r s)) = API_EKEY"
    and "fa_open (snd (upload_error c i r s)) = fa_open s"
    and "xfer_type (snd (upload_error c i r s)) = xfer_type s"
    and "xfer_size (snd (upload_error c i r s)) = xfer_size s"
    and "progresscompleted (snd (upload_error c i r s)) = progresscompleted s"
    and "ultoken (snd (upload_error c i r s)) = ultoken s"
    and "connections (snd (upload_error c i r s)) = connections s"
    and "tempurls (snd (upload_error c i r s)) = tempurls s"
  using assms by (simp_all add: upload_error_def Let_def set_req_def emit_def)

text \<open>A chunk that is uploaded without a token either ends the transfer or leaves
  \<open>errorcount\<close> at 0 (lines 725 to 740).\<close>

lemma chunk_uploaded_errorcount:
  "fst (chunk_uploaded c i r s) = Continues \<Longrightarrow> errorcount (snd (chunk_uploaded c i r s)) = 0"
  by (simp add: chunk_uploaded_def Let_def set_req_def emit_def split: if_splits)

text \<open>
  C7. The test of \<open>errorcount\<close> is the second step of a tick. On every tick that gets to it
  (the first step, the pending completion, does not apply: the file is open, the transfer is
  not already complete, no upload token is held; and the connections exist or can be
  created, the temporary URLs being known), \<open>doio\<close> fails the transfer with the last
  recorded error if \<open>errorcount\<close> exceeds 4, before it looks at any connection, and goes on
  to the connections otherwise. \<open>errorcount\<close> is 0 after every chunk that is written
  synchronously with success, after every asynchronous write of a download that has
  finished without failure, and after the receipt of a valid upload token.
\<close>

theorem errorcount_limit_and_reset:
  "(fa_open s \<and> \<not> (xfer_size s \<noteq> 0 \<and> progresscompleted s = xfer_size s) \<and>
    \<not> (xfer_type s = PUT \<and> ultoken s \<noteq> None) \<and>
    (tempurls s \<noteq> [] \<or> connections s \<noteq> 0 \<or> reqs s \<noteq> [] \<or> asyncIO s \<noteq> None) \<longrightarrow>
      (errorcount s > 4 \<longrightarrow>
         fst (doio_head c s) = Returns \<and>
         ends_with s (snd (doio_head c s)) (Failed (lasterror s) None)) \<and>
      (errorcount s \<le> 4 \<longrightarrow>
         fst (doio_head c s) = Continues \<and> events (snd (doio_head c s)) = events s @ [RetryReset])) \<and>
   (req_at s i = Some r \<and> \<not> asyncavailable c \<and> fwrite_ok c \<longrightarrow>
      errorcount (snd (req_decrypted c i s)) = 0) \<and>
   (req_at s i = Some r \<and> aio_at s i = Some a \<and> xfer_type s = GET \<and> finished a \<and> \<not> failed a \<longrightarrow>
      errorcount (snd (req_asyncio c i s)) = 0) \<and>
   (req_at s i = Some r \<and> valid_token c (body_in r) \<longrightarrow>
      errorcount (snd (put_success c i s)) = 0)"
proof (intro conjI impI)
  assume h: "fa_open s \<and> \<not> (xfer_size s \<noteq> 0 \<and> progresscompleted s = xfer_size s) \<and>
    \<not> (xfer_type s = PUT \<and> ultoken s \<noteq> None) \<and>
    (tempurls s \<noteq> [] \<or> connections s \<noteq> 0 \<or> reqs s \<noteq> [] \<or> asyncIO s \<noteq> None)"
  then have h': "fa_open s" "\<not> (xfer_size s \<noteq> 0 \<and> progresscompleted s = xfer_size s)"
    "\<not> (xfer_type s = PUT \<and> ultoken s \<noteq> None)"
    "tempurls s \<noteq> [] \<or> connections s \<noteq> 0 \<or> reqs s \<noteq> [] \<or> asyncIO s \<noteq> None"
    by blast+
  note d = doio_head_errors [OF h', of c]
  {
    assume e: "errorcount s > 4"
    with d(1) show "fst (doio_head c s) = Returns" by simp
    from d(2) e have "events (snd (doio_head c s)) = events s @ [RetryReset, Failed (lasterror s) None]"
      by simp
    then show "ends_with s (snd (doio_head c s)) (Failed (lasterror s) None)"
      by (rule ends_withI) simp_all
  }
  {
    assume e: "errorcount s \<le> 4"
    with d show "fst (doio_head c s) = Continues"
      "events (snd (doio_head c s)) = events s @ [RetryReset]"
      by simp_all
  }
next
  assume "req_at s i = Some r \<and> \<not> asyncavailable c \<and> fwrite_ok c"
  then show "errorcount (snd (req_decrypted c i s)) = 0"
    using req_decrypted_errorcount [of s i r c] by blast
next
  assume "req_at s i = Some r \<and> aio_at s i = Some a \<and> xfer_type s = GET \<and> finished a \<and> \<not> failed a"
  then show "errorcount (snd (req_asyncio c i s)) = 0"
    using req_asyncio_errorcount [of s i r a c] by blast
next
  assume "req_at s i = Some r \<and> valid_token c (body_in r)"
  then show "errorcount (snd (put_success c i s)) = 0"
    using put_success_token(3) [of s i r c, OF _ _ refl refl] by blast
qed

theorem errorcount_limit_and_reset_witness:
  "fa_open tired_slot \<and> \<not> (xfer_size tired_slot \<noteq> 0 \<and> progresscompleted tired_slot = xfer_size tired_slot) \<and>
   \<not> (xfer_type tired_slot = PUT \<and> ultoken tired_slot \<noteq> None) \<and> connections tired_slot \<noteq> 0 \<and>
   errorcount tired_slot > 4 \<and> lasterror tired_slot = API_EREAD \<and>
   fst (doio_head toy_collab tired_slot) = Returns \<and>
   ends_with tired_slot (snd (doio_head toy_collab tired_slot)) (Failed API_EREAD None) \<and>
   errorcount writing_slot = 3 \<and> \<not> asyncavailable toy_collab \<and> fwrite_ok toy_collab \<and>
   errorcount (snd (req_decrypted toy_collab 0 writing_slot)) = 0 \<and>
   errorcount written_slot = 3 \<and> xfer_type written_slot = GET \<and>
   errorcount (snd (req_asyncio toy_collab 0 written_slot)) = 0 \<and>
   valid_token toy_collab (body_in (late_req token36)) \<and>
   errorcount (snd (put_success toy_collab 1 (put_slot token36))) = 0"
proof -
  let ?w = "(failed_req 200 [] 0)\<lparr>status := REQ_DECRYPTED\<rparr>"
  let ?v = "(failed_req 200 [] 0)\<lparr>status := REQ_ASYNCIO\<rparr>"
  let ?a = "\<lparr>finished = True, failed = False, retry = False, aio_pos = 0, aio_len = 1024\<rparr>"
  have t: "fa_open tired_slot"
    "\<not> (xfer_size tired_slot \<noteq> 0 \<and> progresscompleted tired_slot = xfer_size tired_slot)"
    "\<not> (xfer_type tired_slot = PUT \<and> ultoken tired_slot \<noteq> None)" "connections tired_slot \<noteq> 0"
    "errorcount tired_slot > 4" "lasterror tired_slot = API_EREAD"
    by (simp_all add: tired_slot_def get_slot_def fresh_slot_def)
  have w: "req_at writing_slot 0 = Some ?w" "errorcount writing_slot = 3"
    "\<not> asyncavailable toy_collab" "fwrite_ok toy_collab"
    by (simp_all add: writing_slot_def get_slot_def req_at_def toy_collab_def)
  have v: "req_at written_slot 0 = Some ?v" "aio_at written_slot 0 = Some ?a"
    "errorcount written_slot = 3" "xfer_type written_slot = GET" "finished ?a" "\<not> failed ?a"
    by (simp_all add: written_slot_def get_slot_def req_at_def aio_at_def fresh_slot_def)
  have k: "valid_token toy_collab (body_in (late_req token36))"
    by (simp add: late_req_def valid_token36)
  from errorcount_limit_and_reset [where s = tired_slot and i = 0 and r = ?w and c = toy_collab and a = ?a] t
  have 1: "fst (doio_head toy_collab tired_slot) = Returns"
    "ends_with tired_slot (snd (doio_head toy_collab tired_slot)) (Failed API_EREAD None)"
    by simp_all
  from errorcount_limit_and_reset [where s = writing_slot and i = 0 and r = ?w and c = toy_collab and a = ?a] w
  have 2: "errorcount (snd (req_decrypted toy_collab 0 writing_slot)) = 0" by blast
  from errorcount_limit_and_reset [where s = written_slot and i = 0 and r = ?v and c = toy_collab and a = ?a] v
  have 3: "errorcount (snd (req_asyncio toy_collab 0 written_slot)) = 0" by blast
  from errorcount_limit_and_reset [where s = "put_slot token36" and i = 1 and r = "late_req token36" and c = toy_collab and a = ?a]
    put_slot_req k
  have 4: "errorcount (snd (put_success toy_collab 1 (put_slot token36))) = 0" by blast
  from t w v k 1 2 3 4 show ?thesis by simp
qed

subsection \<open>The local node record\<close>

lemma length_le_bytes: "length (le_bytes n v) = n"
  by (induction n arbitrary: v) simp_all

lemma le_nat_le_bytes: "le_nat (le_bytes n v) = v mod 256 ^ n"
proof (induction n arbitrary: v)
  case 0
  then show ?case by simp
next
  case (Suc n)
  have "unat (of_nat (v mod 256) :: byte) = v mod 256"
    by (simp add: unat_of_nat)
  with Suc [of "v div 256"] show ?case
    by (simp add: mod_mult2_eq)
qed

lemma read_le_bytes: "read_le n (le_bytes n v @ rest) = Some (v mod 256 ^ n, rest)"
  by (simp add: read_le_def length_le_bytes le_nat_le_bytes)

lemma unserializei64_serializei64: "unserializei64 (serializei64 v @ rest) = Some (v, rest)"
proof -
  have "unat v < 2 ^ 64" using unsigned_less [of v, where 'a = nat] by simp
  then have "unat v mod 256 ^ 8 = unat v" by simp
  then show ?thesis by (simp add: unserializei64_def serializei64_def read_le_bytes)
qed

lemma unserializehandle_serializehandle: "unserializehandle (serializehandle v @ rest) = Some (v, rest)"
proof -
  have "unat v < 2 ^ 64" using unsigned_less [of v, where 'a = nat] by simp
  then have "unat v mod 256 ^ 8 = unat v" by simp
  then show ?thesis by (simp add: unserializehandle_def serializehandle_def read_le_bytes)
qed

lemma unserializeu32_serializeu32: "unserializeu32 (serializeu32 v @ rest) = Some (v, rest)"
proof -
  have "unat v < 2 ^ 32" using unsigned_less [of v, where 'a = nat] by simp
  then have "unat v mod 256 ^ 4 = unat v" by simp
  then show ?thesis by (simp add: unserializeu32_def serializeu32_def read_le_bytes)
qed

lemma unserializenodehandle_serializenodehandle:
  "unserializenodehandle (serializenodehandle v @ rest) = Some (take_bit 48 v, rest)"
proof -
  have "(256::nat) ^ 6 = 2 ^ 48" by simp
  then have "unat v mod 256 ^ 6 = take_bit 48 (unat v)"
    by (simp only: take_bit_eq_mod)
  also have "\<dots> = unat (take_bit 48 v)"
    by (simp add: unsigned_take_bit_eq)
  finally have "(of_nat (unat v mod 256 ^ 6) :: 64 word) = take_bit 48 v"
    by simp
  then show ?thesis by (simp add: unserializenodehandle_def serializenodehandle_def read_le_bytes)
qed

lemma set6byte_as8byte: "set6byte (take_bit 48 (as8byte n)) = n"
proof (cases "n = - 1")
  case True
  have "(ucast (take_bit 48 (- 1 :: 64 word)) :: 48 word) = - 1"
    by (rule bit_word_eqI) (auto simp: bit_simps)
  with True show ?thesis by (simp add: set6byte_def as8byte_def)
next
  case False
  have "(ucast (take_bit 48 (ucast n :: 64 word)) :: 48 word) = n"
    by (rule bit_word_eqI) (auto simp: bit_simps)
  with False show ?thesis by (simp add: set6byte_def as8byte_def)
qed

lemma unserializestring_serializestring:
  "length str < 65536 \<Longrightarrow> unserializestring (serializestring str @ rest) = Some (str, rest)"
  by (simp add: unserializestring_def serializestring_def Let_def read_le_bytes)

lemma unserializebinary_serializebinary:
  "length data = n \<Longrightarrow> unserializebinary n (serializebinary data n @ rest) = Some (data, rest)"
  by (simp add: unserializebinary_def serializebinary_def)

lemma le_nat_sig_bytes: "le_nat (sig_bytes v) = v"
proof (induction v rule: sig_bytes.induct)
  case (1 v)
  show ?case
  proof (cases "v = 0")
    case True
    then show ?thesis by (subst sig_bytes.simps) simp
  next
    case False
    have "unat (of_nat (v mod 256) :: byte) = v mod 256"
      by (simp add: unat_of_nat)
    with False 1 show ?thesis by (subst sig_bytes.simps) simp
  qed
qed

lemma length_sig_bytes: "v < 256 ^ n \<Longrightarrow> length (sig_bytes v) \<le> n"
proof (induction n arbitrary: v)
  case 0
  then show ?case by (subst sig_bytes.simps) simp
next
  case (Suc n)
  then have "v div 256 < 256 ^ n" by (simp add: less_mult_imp_div_less mult.commute)
  with Suc.IH [of "v div 256"] show ?case by (subst sig_bytes.simps) simp
qed

lemma unserializecompressed64_serializecompressed64:
  "unserializecompressed64 (serializecompressed64 v @ rest) = Some (v, rest)"
proof -
  have "unat v < 2 ^ 64" using unsigned_less [of v, where 'a = nat] by simp
  then have "unat v < 256 ^ 8" by simp
  then have l: "length (sig_bytes (unat v)) \<le> 8" by (rule length_sig_bytes)
  then have u: "unat (of_nat (length (sig_bytes (unat v))) :: byte) = length (sig_bytes (unat v))"
    by (simp add: unat_of_nat)
  show ?thesis
    using l by (simp add: unserializecompressed64_def serializecompressed64_def u le_nat_sig_bytes)
qed

lemma length_serializei64: "length (serializei64 v) = 8"
  by (simp add: serializei64_def length_le_bytes)

lemma length_serializehandle: "length (serializehandle v) = 8"
  by (simp add: serializehandle_def length_le_bytes)

lemma length_serializeu32: "length (serializeu32 v) = 4"
  by (simp add: serializeu32_def length_le_bytes)

lemma length_serializenodehandle: "length (serializenodehandle v) = 6"
  by (simp add: serializenodehandle_def length_le_bytes)

lemma length_serializestring: "length (serializestring str) \<ge> 2"
  by (simp add: serializestring_def Let_def length_le_bytes)

lemma serialize_long_enough: "\<not> length (serialize l) < 8 + 8 + 4 + 6 + 2"
  using length_serializestring [of "localname l"]
  by (simp add: serialize_def length_serializei64 length_serializehandle length_serializeu32
      length_serializenodehandle)

lemma unserializecstr_serializepstr:
  assumes "case sn of None \<Rightarrow> True | Some str \<Rightarrow> str \<noteq> [] \<and> length str < 65536"
  shows "unserializecstr (serializepstr sn @ rest) = Some (case sn of None \<Rightarrow> [] | Some str \<Rightarrow> str, rest)"
proof (cases sn)
  case None
  have "unserializestring (serializestring [] @ rest) = Some ([], rest)"
    by (rule unserializestring_serializestring) simp
  with None show ?thesis
    by (simp add: unserializecstr_def serializepstr_def serializestring_def)
next
  case (Some str)
  with assms show ?thesis
    by (simp add: unserializecstr_def serializepstr_def unserializestring_serializestring)
qed

lemma unserialize_fieldsI:
  assumes "unserializehandle r0 = Some (fsid, r1)"
    "unserializeu32 r1 = Some (pd, r2)"
    "unserializenodehandle r2 = Some (h, r3)"
    "unserializestring r3 = Some (nm, r4)"
    "(if type = FILENODE then unserializebinary 16 r4 else Some (replicate 16 0, r4)) = Some (cr, r5)"
    "(if type = FILENODE then unserializecompressed64 r5 else Some (0, r5)) = Some (mt, r6)"
    "(if r6 \<noteq> [] then unserializebyte r6 else Some (1, r6)) = Some (b, r7)"
    "(if r7 \<noteq> [] then unserializeexpansionflags r7 else Some (False, r7)) = Some (f0, r8)"
    "(if f0 then unserializecstr r8 else Some ([], r8)) = Some (sn, r9)"
  shows "unserialize_fields type r0 = Some ((fsid, pd, h, nm, cr, mt, b, f0, sn), r9)"
  unfolding unserialize_fields_def
  by (simp only: assms option.case prod.case)

lemma unserialize_byte_flags:
  "(if serializebyte b @ r \<noteq> [] then unserializebyte (serializebyte b @ r) else Some (1, serializebyte b @ r))
     = Some (b, r)"
  "(if serializeexpansionflags True @ r \<noteq> [] then unserializeexpansionflags (serializeexpansionflags True @ r)
    else Some (False, serializeexpansionflags True @ r)) = Some (True, r)"
  by (simp_all add: serializebyte_def unserializebyte_def serializeexpansionflags_def
      unserializeexpansionflags_def)

lemma unserialize_fields_file:
  assumes "length nm < 65536" "length cr = 16"
    "case sn of None \<Rightarrow> True | Some str \<Rightarrow> str \<noteq> [] \<and> length str < 65536"
  shows "unserialize_fields FILENODE
     (serializehandle fs @ serializeu32 pd @ serializenodehandle hd6 @ serializestring nm @
      serializebinary cr 16 @ serializecompressed64 mt @
      serializebyte b @ serializeexpansionflags True @ serializepstr sn @ rest) =
     Some ((fs, pd, take_bit 48 hd6, nm, cr, mt, b, True,
            case sn of None \<Rightarrow> [] | Some str \<Rightarrow> str), rest)"
proof (rule unserialize_fieldsI)
  show "unserializehandle (serializehandle fs @ serializeu32 pd @ serializenodehandle hd6 @
      serializestring nm @ serializebinary cr 16 @ serializecompressed64 mt @
      serializebyte b @ serializeexpansionflags True @ serializepstr sn @ rest) =
      Some (fs, serializeu32 pd @ serializenodehandle hd6 @
      serializestring nm @ serializebinary cr 16 @ serializecompressed64 mt @
      serializebyte b @ serializeexpansionflags True @ serializepstr sn @ rest)"
    by (rule unserializehandle_serializehandle)
  show "unserializeu32 (serializeu32 pd @ serializenodehandle hd6 @
      serializestring nm @ serializebinary cr 16 @ serializecompressed64 mt @
      serializebyte b @ serializeexpansionflags True @ serializepstr sn @ rest) =
      Some (pd, serializenodehandle hd6 @
      serializestring nm @ serializebinary cr 16 @ serializecompressed64 mt @
      serializebyte b @ serializeexpansionflags True @ serializepstr sn @ rest)"
    by (rule unserializeu32_serializeu32)
  show "unserializenodehandle (serializenodehandle hd6 @
      serializestring nm @ serializebinary cr 16 @ serializecompressed64 mt @
      serializebyte b @ serializeexpansionflags True @ serializepstr sn @ rest) =
      Some (take_bit 48 hd6, serializestring nm @ serializebinary cr 16 @ serializecompressed64 mt @
      serializebyte b @ serializeexpansionflags True @ serializepstr sn @ rest)"
    by (rule unserializenodehandle_serializenodehandle)
  show "unserializestring (serializestring nm @ serializebinary cr 16 @ serializecompressed64 mt @
      serializebyte b @ serializeexpansionflags True @ serializepstr sn @ rest) =
      Some (nm, serializebinary cr 16 @ serializecompressed64 mt @
      serializebyte b @ serializeexpansionflags True @ serializepstr sn @ rest)"
    using assms(1) by (rule unserializestring_serializestring)
  show "(if FILENODE = FILENODE
       then unserializebinary 16 (serializebinary cr 16 @ serializecompressed64 mt @
              serializebyte b @ serializeexpansionflags True @ serializepstr sn @ rest)
       else Some (replicate 16 0, serializebinary cr 16 @ serializecompressed64 mt @
              serializebyte b @ serializeexpansionflags True @ serializepstr sn @ rest)) =
      Some (cr, serializecompressed64 mt @
      serializebyte b @ serializeexpansionflags True @ serializepstr sn @ rest)"
    using unserializebinary_serializebinary [OF assms(2)] by simp
  show "(if FILENODE = FILENODE
       then unserializecompressed64 (serializecompressed64 mt @
              serializebyte b @ serializeexpansionflags True @ serializepstr sn @ rest)
       else Some (0, serializecompressed64 mt @
              serializebyte b @ serializeexpansionflags True @ serializepstr sn @ rest)) =
      Some (mt, serializebyte b @ serializeexpansionflags True @ serializepstr sn @ rest)"
    using unserializecompressed64_serializecompressed64 by simp
  show "(if serializebyte b @ serializeexpansionflags True @ serializepstr sn @ rest \<noteq> []
       then unserializebyte (serializebyte b @ serializeexpansionflags True @ serializepstr sn @ rest)
       else Some (1, serializebyte b @ serializeexpansionflags True @ serializepstr sn @ rest)) =
      Some (b, serializeexpansionflags True @ serializepstr sn @ rest)"
    by (rule unserialize_byte_flags)
  show "(if serializeexpansionflags True @ serializepstr sn @ rest \<noteq> []
       then unserializeexpansionflags (serializeexpansionflags True @ serializepstr sn @ rest)
       else Some (False, serializeexpansionflags True @ serializepstr sn @ rest)) =
      Some (True, serializepstr sn @ rest)"
    by (rule unserialize_byte_flags)
  show "(if True then unserializecstr (serializepstr sn @ rest) else Some ([], serializepstr sn @ rest)) =
      Some (case sn of None \<Rightarrow> [] | Some str \<Rightarrow> str, rest)"
    using unserializecstr_serializepstr [OF assms(3)] by simp
qed

lemma unserialize_fields_folder:
  assumes "length nm < 65536"
    "case sn of None \<Rightarrow> True | Some str \<Rightarrow> str \<noteq> [] \<and> length str < 65536"
  shows "unserialize_fields FOLDERNODE
     (serializehandle fs @ serializeu32 pd @ serializenodehandle hd6 @ serializestring nm @
      serializebyte b @ serializeexpansionflags True @ serializepstr sn @ rest) =
     Some ((fs, pd, take_bit 48 hd6, nm, replicate 16 0, 0, b, True,
            case sn of None \<Rightarrow> [] | Some str \<Rightarrow> str), rest)"
proof (rule unserialize_fieldsI)
  show "unserializehandle (serializehandle fs @ serializeu32 pd @ serializenodehandle hd6 @
      serializestring nm @
      serializebyte b @ serializeexpansionflags True @ serializepstr sn @ rest) =
      Some (fs, serializeu32 pd @ serializenodehandle hd6 @
      serializestring nm @
      serializebyte b @ serializeexpansionflags True @ serializepstr sn @ rest)"
    by (rule unserializehandle_serializehandle)
  show "unserializeu32 (serializeu32 pd @ serializenodehandle hd6 @
      serializestring nm @
      serializebyte b @ serializeexpansionflags True @ serializepstr sn @ rest) =
      Some (pd, serializenodehandle hd6 @
      serializestring nm @
      serializebyte b @ serializeexpansionflags True @ serializepstr sn @ rest)"
    by (rule unserializeu32_serializeu32)
  show "unserializenodehandle (serializenodehandle hd6 @
      serializestring nm @
      serializebyte b @ serializeexpansionflags True @ serializepstr sn @ rest) =
      Some (take_bit 48 hd6, serializestring nm @
      serializebyte b @ serializeexpansionflags True @ serializepstr sn @ rest)"
    by (rule unserializenodehandle_serializenodehandle)
  show "unserializestring (serializestring nm @
      serializebyte b @ serializeexpansionflags True @ serializepstr sn @ rest) =
      Some (nm, serializebyte b @ serializeexpansionflags True @ serializepstr sn @ rest)"
    using assms(1) by (rule unserializestring_serializestring)
  show "(if FOLDERNODE = FILENODE
       then unserializebinary 16 (serializebyte b @ serializeexpansionflags True @ serializepstr sn @ rest)
       else Some (replicate 16 0, serializebyte b @ serializeexpansionflags True @ serializepstr sn @ rest)) =
      Some (replicate 16 0, serializebyte b @ serializeexpansionflags True @ serializepstr sn @ rest)"
    by (simp add: FILENODE_def FOLDERNODE_def)
  show "(if FOLDERNODE = FILENODE
       then unserializecompressed64 (serializebyte b @ serializeexpansionflags True @ serializepstr sn @ rest)
       else Some (0, serializebyte b @ serializeexpansionflags True @ serializepstr sn @ rest)) =
      Some (0, serializebyte b @ serializeexpansionflags True @ serializepstr sn @ rest)"
    by (simp add: FILENODE_def FOLDERNODE_def)
  show "(if serializebyte b @ serializeexpansionflags True @ serializepstr sn @ rest \<noteq> []
       then unserializebyte (serializebyte b @ serializeexpansionflags True @ serializepstr sn @ rest)
       else Some (1, serializebyte b @ serializeexpansionflags True @ serializepstr sn @ rest)) =
      Some (b, serializeexpansionflags True @ serializepstr sn @ rest)"
    by (rule unserialize_byte_flags)
  show "(if serializeexpansionflags True @ serializepstr sn @ rest \<noteq> []
       then unserializeexpansionflags (serializeexpansionflags True @ serializepstr sn @ rest)
       else Some (False, serializeexpansionflags True @ serializepstr sn @ rest)) =
      Some (True, serializepstr sn @ rest)"
    by (rule unserialize_byte_flags)
  show "(if True then unserializecstr (serializepstr sn @ rest) else Some ([], serializepstr sn @ rest)) =
      Some (case sn of None \<Rightarrow> [] | Some str \<Rightarrow> str, rest)"
    using unserializecstr_serializepstr [OF assms(2)] by simp
qed

lemma shortname_back:
  "(case sn of None \<Rightarrow> True | Some str \<Rightarrow> str \<noteq> [] \<and> length str < 65536) \<Longrightarrow>
   (if (case sn of None \<Rightarrow> [] | Some str \<Rightarrow> str) = [] then None
    else Some (case sn of None \<Rightarrow> [] | Some str \<Rightarrow> str)) = sn"
  by (cases sn) simp_all

lemma stored_size_nonneg: "\<not> stored_size l <s 0"
  by (simp add: stored_size_def Let_def)

lemma unserialize_file_result:
  assumes "\<not> length d < 8 + 8 + 4 + 6 + 2"
    "unserializei64 d = Some (size0, r0)"
    "\<not> (size0 <s 0 \<and> sint size0 \<ge> - FOLDERNODE)"
    "unserialize_fields FILENODE r0 = Some ((fsid, pd, h, nm, cr, mt, b, f0, sn), rest)"
  shows "unserialize asserts d =
     (if asserts \<and> rest \<noteq> [] then AssertionFailed
      else Unserialized
        \<lparr>u_type = FILENODE, u_size = size0, u_parent_dbid = pd, u_fsid = fsid,
         u_localname = nm, u_slocalname = (if sn = [] then None else Some sn),
         u_slocalname_in_db = f0, u_crc = cr, u_mtime = mt, u_isvalid = (mt \<noteq> 0),
         u_handle = set6byte h, u_syncable = (b = 1)\<rparr>)"
proof -
  from assms(3) have c: "(size0 <s 0 \<and> sint size0 \<ge> - FOLDERNODE) = False"
    by simp
  show ?thesis
    unfolding unserialize_def using assms(1,2,4) by (simp add: Let_def c)
qed

lemma unserialize_folder_result:
  assumes "\<not> length d < 8 + 8 + 4 + 6 + 2"
    "unserializei64 d = Some (size0, r0)"
    "size0 <s 0 \<and> sint size0 \<ge> - FOLDERNODE"
    "unserialize_fields (- sint size0) r0 = Some ((fsid, pd, h, nm, cr, mt, b, f0, sn), rest)"
  shows "unserialize asserts d =
     (if asserts \<and> rest \<noteq> [] then AssertionFailed
      else Unserialized
        \<lparr>u_type = - sint size0, u_size = 0, u_parent_dbid = pd, u_fsid = fsid,
         u_localname = nm, u_slocalname = (if sn = [] then None else Some sn),
         u_slocalname_in_db = f0, u_crc = cr, u_mtime = mt, u_isvalid = (mt \<noteq> 0),
         u_handle = set6byte h, u_syncable = (b = 1)\<rparr>)"
  unfolding unserialize_def using assms by (simp add: Let_def)

lemma syncable_back: "((if b then 1 else 0 :: byte) = 1) = b"
  by simp

lemma stored_size_synced:
  "isvalid (syncedFingerprint l) \<Longrightarrow> \<not> fp_size (syncedFingerprint l) <s 0 \<Longrightarrow>
   stored_size l = fp_size (syncedFingerprint l)"
  by (simp add: stored_size_def)

lemma unserialize_serialize_file:
  assumes "valid_LocalNode l" "node_type l = FILENODE"
  shows "unserialize asserts (serialize l @ rest) =
     (if asserts \<and> rest \<noteq> [] then AssertionFailed else Unserialized (record_fields l))"
proof -
  from assms have v: "length (crc (syncedFingerprint l)) = 16" "length (localname l) < 65536"
    "case slocalname l of None \<Rightarrow> True | Some sn \<Rightarrow> sn \<noteq> [] \<and> length sn < 65536"
    by (simp_all add: valid_LocalNode_def)
  from assms have fp: "isvalid (syncedFingerprint l)" "\<not> fp_size (syncedFingerprint l) <s 0"
    by (simp_all add: valid_LocalNode_def)
  note sz = stored_size_synced [OF fp]
  let ?tail = "serializehandle (fsid_lastSynced l) @
     serializeu32 (case parent l of None \<Rightarrow> 0 | Some dbid \<Rightarrow> dbid) @
     serializenodehandle (as8byte (syncedCloudNodeHandle l)) @
     serializestring (localname l) @
     serializebinary (crc (syncedFingerprint l)) 16 @
     serializecompressed64 (mtime (syncedFingerprint l)) @
     serializebyte (if mSyncable l then 1 else 0) @
     serializeexpansionflags True @
     serializepstr (slocalname l) @ rest"
  have s: "serialize l @ rest = serializei64 (stored_size l) @ ?tail"
    using assms(2) fp(1) by (simp add: serialize_def FILENODE_def)
  have len: "\<not> length (serializei64 (stored_size l) @ ?tail) < 8 + 8 + 4 + 6 + 2"
    using serialize_long_enough [of l] unfolding s [symmetric] by simp
  have i: "unserializei64 (serializei64 (stored_size l) @ ?tail) = Some (stored_size l, ?tail)"
    by (rule unserializei64_serializei64)
  have nf: "\<not> (stored_size l <s 0 \<and> sint (stored_size l) \<ge> - FOLDERNODE)"
    using stored_size_nonneg [of l] by simp
  have f: "unserialize_fields FILENODE ?tail =
     Some ((fsid_lastSynced l, (case parent l of None \<Rightarrow> 0 | Some dbid \<Rightarrow> dbid),
            take_bit 48 (as8byte (syncedCloudNodeHandle l)), localname l,
            crc (syncedFingerprint l), mtime (syncedFingerprint l),
            (if mSyncable l then 1 else 0), True,
            case slocalname l of None \<Rightarrow> [] | Some str \<Rightarrow> str), rest)"
    by (rule unserialize_fields_file [OF v(2,1,3)])
  have "unserialize asserts (serialize l @ rest) =
     (if asserts \<and> rest \<noteq> [] then AssertionFailed
      else Unserialized
        \<lparr>u_type = FILENODE, u_size = stored_size l,
         u_parent_dbid = (case parent l of None \<Rightarrow> 0 | Some dbid \<Rightarrow> dbid),
         u_fsid = fsid_lastSynced l, u_localname = localname l,
         u_slocalname = (if (case slocalname l of None \<Rightarrow> [] | Some str \<Rightarrow> str) = [] then None
                         else Some (case slocalname l of None \<Rightarrow> [] | Some str \<Rightarrow> str)),
         u_slocalname_in_db = True, u_crc = crc (syncedFingerprint l),
         u_mtime = mtime (syncedFingerprint l),
         u_isvalid = (mtime (syncedFingerprint l) \<noteq> 0),
         u_handle = set6byte (take_bit 48 (as8byte (syncedCloudNodeHandle l))),
         u_syncable = ((if mSyncable l then 1 else 0 :: byte) = 1)\<rparr>)"
    unfolding s by (rule unserialize_file_result [OF len i nf f])
  then show ?thesis
    unfolding record_fields_def shortname_back [OF v(3)] syncable_back set6byte_as8byte
      assms(2) sz .
qed

lemma unserialize_serialize_folder:
  assumes "valid_LocalNode l" "node_type l = FOLDERNODE"
  shows "unserialize asserts (serialize l @ rest) =
     (if asserts \<and> rest \<noteq> [] then AssertionFailed else Unserialized (record_fields l))"
proof -
  from assms have v: "length (localname l) < 65536"
    "case slocalname l of None \<Rightarrow> True | Some sn \<Rightarrow> sn \<noteq> [] \<and> length sn < 65536"
    by (simp_all add: valid_LocalNode_def)
  from assms have fp: "crc (syncedFingerprint l) = replicate 16 0"
    "mtime (syncedFingerprint l) = 0" "fp_size (syncedFingerprint l) = 0"
    by (simp_all add: valid_LocalNode_def blank_fingerprint_def)
  let ?tail = "serializehandle (fsid_lastSynced l) @
     serializeu32 (case parent l of None \<Rightarrow> 0 | Some dbid \<Rightarrow> dbid) @
     serializenodehandle (as8byte (syncedCloudNodeHandle l)) @
     serializestring (localname l) @
     serializebyte (if mSyncable l then 1 else 0) @
     serializeexpansionflags True @
     serializepstr (slocalname l) @ rest"
  have s: "serialize l @ rest = serializei64 (- 1) @ ?tail"
    using assms(2) by (simp add: serialize_def FILENODE_def FOLDERNODE_def)
  have len: "\<not> length (serializei64 (- 1) @ ?tail) < 8 + 8 + 4 + 6 + 2"
    using serialize_long_enough [of l] unfolding s [symmetric] by simp
  have i: "unserializei64 (serializei64 (- 1) @ ?tail) = Some (- 1, ?tail)"
    by (rule unserializei64_serializei64)
  have t: "- sint (- 1 :: 64 word) = FOLDERNODE"
    by (simp add: FOLDERNODE_def)
  have fo: "(- 1 :: 64 word) <s 0 \<and> sint (- 1 :: 64 word) \<ge> - FOLDERNODE"
    by (simp add: FOLDERNODE_def word_sless_alt)
  have f: "unserialize_fields (- sint (- 1 :: 64 word)) ?tail =
     Some ((fsid_lastSynced l, (case parent l of None \<Rightarrow> 0 | Some dbid \<Rightarrow> dbid),
            take_bit 48 (as8byte (syncedCloudNodeHandle l)), localname l, replicate 16 0, 0,
            (if mSyncable l then 1 else 0), True,
            case slocalname l of None \<Rightarrow> [] | Some str \<Rightarrow> str), rest)"
    unfolding t by (rule unserialize_fields_folder [OF v])
  show ?thesis
    unfolding s unserialize_folder_result [OF len i fo f] record_fields_def
      shortname_back [OF v(2)] syncable_back set6byte_as8byte assms(2) fp t ..
qed

lemma unserialize_serialize_rest:
  assumes "valid_LocalNode l"
  shows "unserialize asserts (serialize l @ rest) =
     (if asserts \<and> rest \<noteq> [] then AssertionFailed else Unserialized (record_fields l))"
proof -
  from assms have "node_type l = FILENODE \<or> node_type l = FOLDERNODE"
    by (simp add: valid_LocalNode_def)
  then show ?thesis
    using unserialize_serialize_file [OF assms] unserialize_serialize_folder [OF assms]
    by blast
qed


lemma valid_folder_node: "valid_LocalNode folder_node"
  by (simp add: valid_LocalNode_def folder_node_def FILENODE_def FOLDERNODE_def
      blank_fingerprint_def)


lemma le_bytes_numeral:
  "le_bytes (numeral k) v = of_nat (v mod 256) # le_bytes (pred_numeral k) (v div 256)"
  using le_bytes.simps(2) [of "pred_numeral k" v] by (simp only: numeral_eq_Suc [symmetric])

lemma serializei64_minus_one:
  "serializei64 (- 1) = [0xFF, 0xFF, 0xFF, 0xFF, 0xFF, 0xFF, 0xFF, 0xFF]"
  by (simp add: serializei64_def le_bytes_numeral unsigned_minus_1_eq_mask mask_eq_exp_minus_1)

text \<open>The bytes of the folder \<open>folder_node\<close>: the type, the fsid, no parent, the six bytes
  of the handle, the name \<open>docs\<close> behind its length, the syncable byte, the expansion
  flags, and the empty short name.\<close>

lemma serialize_folder_node:
  "serialize folder_node =
     [0xFF, 0xFF, 0xFF, 0xFF, 0xFF, 0xFF, 0xFF, 0xFF,
      8, 0, 0, 0, 0, 0, 0, 0,
      0, 0, 0, 0,
      6, 5, 4, 3, 2, 1,
      4, 0, 0x64, 0x6F, 0x63, 0x73,
      1, 1, 0, 0]"
  by (simp add: serialize_def folder_node_def FILENODE_def serializei64_minus_one as8byte_def
      serializehandle_def serializeu32_def serializenodehandle_def serializestring_def
      serializebyte_def serializeexpansionflags_def serializepstr_def le_bytes_numeral)

text \<open>What \<open>unserialize\<close> does with an input that is too short, and with one of which a
  field cannot be read: it returns null; in a build with \<open>assert\<close>s the second stops at
  \<open>assert(false)\<close>.\<close>

lemma unserialize_short:
  "length d < 8 + 8 + 4 + 6 + 2 \<Longrightarrow> unserialize asserts d = Null"
  by (simp add: unserialize_def)

lemma unserialize_field_failure:
  assumes "unserializei64 d = Some (size0, r0)"
    "unserialize_fields
       (if size0 <s 0 \<and> sint size0 \<ge> - FOLDERNODE then - sint size0 else FILENODE) r0 = None"
  shows "unserialize asserts d =
     (if length d < 8 + 8 + 4 + 6 + 2 then Null else if asserts then AssertionFailed else Null)"
  unfolding unserialize_def using assms by (simp add: Let_def)

lemma unserialize_size_failure:
  "unserializei64 d = None \<Longrightarrow> unserialize asserts d = Null"
  by (simp add: unserialize_def)

text \<open>
  C8. \<open>unserialize\<close> returns null for an input shorter than the leading fields and when a
  field cannot be read (\<open>unserialize_short\<close>, \<open>unserialize_size_failure\<close>,
  \<open>unserialize_field_failure\<close>). For data left behind the last field the code has only
  \<open>assert(!r.hasdataleft())\<close>: on the record of \<open>folder_node\<close> followed by the byte \<open>0x2A\<close>,
  a build without \<open>assert\<close>s returns the folder, the trailing byte ignored, where null
  is specified; a build with them stops at the \<open>assert\<close>.
\<close>

theorem unserialize_trailing_data:
  "unserialize False
     [0xFF, 0xFF, 0xFF, 0xFF, 0xFF, 0xFF, 0xFF, 0xFF,
      8, 0, 0, 0, 0, 0, 0, 0,
      0, 0, 0, 0,
      6, 5, 4, 3, 2, 1,
      4, 0, 0x64, 0x6F, 0x63, 0x73,
      1, 1, 0, 0, 0x2A] = Unserialized (record_fields folder_node) \<and>
   unserialize True
     [0xFF, 0xFF, 0xFF, 0xFF, 0xFF, 0xFF, 0xFF, 0xFF,
      8, 0, 0, 0, 0, 0, 0, 0,
      0, 0, 0, 0,
      6, 5, 4, 3, 2, 1,
      4, 0, 0x64, 0x6F, 0x63, 0x73,
      1, 1, 0, 0, 0x2A] = AssertionFailed"
  using unserialize_serialize_rest [OF valid_folder_node, of False "[0x2A]"]
    unserialize_serialize_rest [OF valid_folder_node, of True "[0x2A]"]
  by (simp add: serialize_folder_node)



end
